(* ===== verification/CF_Prelude.thy ===== *)
theory CF_Prelude
  imports Complex_Main "HOL-Library.Sublist" "HOL-Library.Multiset"
begin

text \<open>
  Shared vocabulary of the ClipForge development: the JavaScript operations that several
  components use (\<open>||\<close> on numbers and on strings, number-to-string conversion inside
  template literals, \<open>Array.prototype.join\<close>, \<open>String.prototype.replace\<close> with a
  global one-character pattern, \<open>Array.prototype.map\<close> with a callback that may throw),
  their inverse functions used in the round-trip lemmas, the exceptions the handlers
  meet, runs of an event system with the rule that carries an invariant along a run,
  and generic facts on lists. JavaScript numbers are modelled as \<^typ>\<open>real\<close>
  (finite values, exact arithmetic); a value that may be \<open>undefined\<close> or \<open>NaN\<close>
  is an \<open>option\<close> with \<open>None\<close> for both, since the code only ever tests such
  values for truthiness. Millisecond time stamps (\<open>Date.now()\<close>) are \<^typ>\<open>int\<close>.
\<close>

section \<open>Collections of facts\<close>

named_theorems js_defs \<open>unfolding equations of the JavaScript helper operations\<close>
named_theorems cf_inv \<open>invariant preservation lemmas of the components\<close>

type_synonym millis = int
type_synonym seconds = real

section \<open>Definitions\<close>

text \<open>Truthiness and the \<open>||\<close> operator on numbers, possibly undefined numbers and
  possibly undefined strings.\<close>

definition or_num :: "real \<Rightarrow> real \<Rightarrow> real" where
  "or_num a b = (if a \<noteq> 0 then a else b)"

definition or_undef :: "real option \<Rightarrow> real \<Rightarrow> real" where
  "or_undef a b = (case a of None \<Rightarrow> b | Some x \<Rightarrow> or_num x b)"

definition or_str :: "string option \<Rightarrow> string option \<Rightarrow> string option" where
  "or_str a b = (case a of None \<Rightarrow> b | Some s \<Rightarrow> if s \<noteq> [] then Some s else b)"

text \<open>
  Numbers inside template literals: \<open>`clip-${Date.now()}`\<close> converts an integer to its
  decimal representation. \<open>toString\<close> is that conversion; \<open>parse_int\<close> is its inverse,
  which is what makes generated identifiers distinct for distinct time stamps.
\<close>

definition digit_char :: "nat \<Rightarrow> char" where
  "digit_char n = ''0123456789'' ! n"

definition digit_val :: "char \<Rightarrow> nat" where
  "digit_val c = of_char c - 48"

fun toString_nat :: "nat \<Rightarrow> string" where
  "toString_nat n =
     (if n < 10 then [digit_char n] else toString_nat (n div 10) @ [digit_char (n mod 10)])"

declare toString_nat.simps [simp del]

definition toString :: "int \<Rightarrow> string" where
  "toString i = (if i < 0 then CHR ''-'' # toString_nat (nat (- i)) else toString_nat (nat i))"

definition parse_nat :: "string \<Rightarrow> nat" where
  "parse_nat s = foldl (\<lambda>a c. 10 * a + digit_val c) 0 s"

definition parse_int :: "string \<Rightarrow> int" where
  "parse_int s = (case s of [] \<Rightarrow> 0
     | c # cs \<Rightarrow> if c = CHR ''-'' then - int (parse_nat cs) else int (parse_nat s))"

text \<open>Strings: global one-character replace, join, and line splitting.\<close>

definition replace_all :: "char \<Rightarrow> char \<Rightarrow> string \<Rightarrow> string" where
  "replace_all a b s = map (\<lambda>c. if c = a then b else c) s"

fun join :: "'a list \<Rightarrow> 'a list list \<Rightarrow> 'a list" where
  "join sep [] = []"
| "join sep [x] = x"
| "join sep (x # y # ys) = x @ sep @ join sep (y # ys)"

text \<open>The inverse of \<open>join\<close> on a one-character separator: reading a text line by line.\<close>

fun split_on :: "'a \<Rightarrow> 'a list \<Rightarrow> 'a list list" where
  "split_on c [] = [[]]"
| "split_on c (x # xs) =
     (if x = c then [] # split_on c xs
      else (case split_on c xs of [] \<Rightarrow> [[x]] | y # ys \<Rightarrow> (x # y) # ys))"

section \<open>Exceptions as values\<close>

text \<open>The exceptions the handlers of the main process meet.\<close>

datatype js_error =
    TypeError
  | SyntaxError
  | FsError string
  | EngineError string

text \<open>\<open>Array.prototype.map\<close> with a callback that may throw: the first exception ends
  it.\<close>

primrec map_throw :: "('a \<Rightarrow> 'e + 'b) \<Rightarrow> 'a list \<Rightarrow> 'e + 'b list" where
  "map_throw f [] = Inr []"
| "map_throw f (x # xs) =
     (case f x of
        Inl e \<Rightarrow> Inl e
      | Inr y \<Rightarrow> (case map_throw f xs of Inl e \<Rightarrow> Inl e | Inr ys \<Rightarrow> Inr (y # ys)))"

section \<open>Event systems\<close>

text \<open>
  The components are event systems: a handler is a partial function of an event and a
  state (\<open>None\<close> when the event cannot happen in that state), and a run applies the
  handlers of a list of events in order. \<open>guard\<close> makes such a function from an enabling
  condition and an effect.
\<close>

primrec run_opt :: "('e \<Rightarrow> 's \<Rightarrow> 's option) \<Rightarrow> 'e list \<Rightarrow> 's \<Rightarrow> 's option" where
  "run_opt f [] s = Some s"
| "run_opt f (e # es) s = Option.bind (f e s) (run_opt f es)"

definition guard :: "('e \<Rightarrow> 's \<Rightarrow> bool) \<Rightarrow> ('e \<Rightarrow> 's \<Rightarrow> 's) \<Rightarrow> 'e \<Rightarrow> 's \<Rightarrow> 's option" where
  "guard en ef e s = (if en e s then Some (ef e s) else None)"

section \<open>Truthiness and the \<open>||\<close> operator\<close>

lemmas [js_defs] = or_num_def or_undef_def or_str_def

lemma or_num_simps [simp]:
  "or_num 0 b = b" "a \<noteq> 0 \<Longrightarrow> or_num a b = a" "or_num a a = a"
  by (simp_all add: or_num_def)

lemma or_undef_simps [simp]:
  "or_undef None b = b" "or_undef (Some a) b = or_num a b"
  by (simp_all add: or_undef_def)

lemma or_undef_nonzero: "b \<noteq> 0 \<Longrightarrow> or_undef a b \<noteq> 0"
  by (cases a) (auto simp: or_num_def)

lemma or_undef_pos:
  assumes "0 < b" and "\<And>x. a = Some x \<Longrightarrow> 0 \<le> x"
  shows "0 < or_undef a b"
proof (cases a)
  case None
  with assms(1) show ?thesis by simp
next
  case (Some x)
  with assms(2) have "0 \<le> x" by simp
  with assms(1) Some show ?thesis by (auto simp: or_num_def)
qed

lemma or_str_simps [simp]:
  "or_str None b = b" "or_str (Some []) b = b" "s \<noteq> [] \<Longrightarrow> or_str (Some s) b = Some s"
  by (simp_all add: or_str_def)

lemma or_str_None_iff: "or_str a b = None \<longleftrightarrow> (a = None \<or> a = Some []) \<and> b = None"
  by (auto simp: or_str_def split: option.splits)

section \<open>Numbers inside template literals\<close>

lemmas toString_eval = toString_def toString_nat.simps digit_char_def

lemma below_ten: "n < 10 \<Longrightarrow> n \<in> {0, 1, 2, 3, 4, 5, 6, 7, 8, 9::nat}"
  by auto

lemma digit_val_digit_char [simp]: "n < 10 \<Longrightarrow> digit_val (digit_char n) = n"
  by (drule below_ten) (auto simp: digit_val_def digit_char_def)

lemma digit_char_not_minus [simp]: "n < 10 \<Longrightarrow> digit_char n \<noteq> CHR ''-''"
  by (drule below_ten) (auto simp: digit_char_def)

lemma digit_char_is_digit: "n < 10 \<Longrightarrow> digit_char n \<in> set ''0123456789''"
  by (drule below_ten) (auto simp: digit_char_def)

lemma parse_nat_snoc [simp]: "parse_nat (s @ [c]) = 10 * parse_nat s + digit_val c"
  by (simp add: parse_nat_def)

lemma parse_nat_single [simp]: "parse_nat [c] = digit_val c"
  by (simp add: parse_nat_def)

lemma toString_nat_cases [case_names small large]:
  assumes "n < 10 \<Longrightarrow> toString_nat n = [digit_char n] \<Longrightarrow> P"
    and "\<not> n < 10 \<Longrightarrow>
      toString_nat n = toString_nat (n div 10) @ [digit_char (n mod 10)] \<Longrightarrow> P"
  shows P
  using assms by (cases "n < 10") (simp_all add: toString_nat.simps [of n])

lemma parse_nat_toString_nat [simp]: "parse_nat (toString_nat n) = n"
proof (induction n rule: toString_nat.induct)
  case (1 n)
  show ?case
  proof (cases n rule: toString_nat_cases)
    case small
    then show ?thesis by simp
  next
    case large
    with "1.IH" show ?thesis by simp
  qed
qed

lemma toString_nat_nonempty [simp]: "toString_nat n \<noteq> []"
  by (cases n rule: toString_nat_cases) simp_all

lemma toString_nat_digits: "set (toString_nat n) \<subseteq> set ''0123456789''"
proof (induction n rule: toString_nat.induct)
  case (1 n)
  show ?case
  proof (cases n rule: toString_nat_cases)
    case small
    with digit_char_is_digit [of n] show ?thesis by simp
  next
    case large
    with "1.IH" digit_char_is_digit [of "n mod 10"] show ?thesis by simp
  qed
qed

lemma hd_toString_nat_not_minus [simp]: "hd (toString_nat n) \<noteq> CHR ''-''"
proof
  assume "hd (toString_nat n) = CHR ''-''"
  moreover have "hd (toString_nat n) \<in> set (toString_nat n)" by simp
  ultimately have "CHR ''-'' \<in> set (toString_nat n)" by simp
  with toString_nat_digits [of n] show False by auto
qed

lemma parse_int_toString [simp]: "parse_int (toString i) = i"
proof (cases "i < 0")
  case True
  then show ?thesis by (simp add: parse_int_def toString_def)
next
  case False
  obtain c cs where s: "toString_nat (nat i) = c # cs"
    by (cases "toString_nat (nat i)") auto
  from hd_toString_nat_not_minus [of "nat i"] s have "c \<noteq> CHR ''-''" by simp
  with False s show ?thesis
    using parse_nat_toString_nat [of "nat i"] by (simp add: parse_int_def toString_def)
qed

lemma toString_eq_iff [simp]: "toString i = toString j \<longleftrightarrow> i = j"
  by (metis parse_int_toString)

lemma inj_toString: "inj toString"
  by (simp add: inj_on_def)

section \<open>Strings: replace, join, split\<close>

lemma replace_all_length [simp]: "length (replace_all a b s) = length s"
  by (simp add: replace_all_def)

lemma replace_all_absent: "a \<noteq> b \<Longrightarrow> a \<notin> set (replace_all a b s)"
  by (auto simp: replace_all_def)

lemma replace_all_id: "a \<notin> set s \<Longrightarrow> replace_all a b s = s"
  by (induction s) (auto simp: replace_all_def)

lemma replace_all_idem: "a \<noteq> b \<Longrightarrow> replace_all a b (replace_all a b s) = replace_all a b s"
  by (simp add: replace_all_id replace_all_absent)

lemma replace_all_set: "set (replace_all a b s) \<subseteq> insert b (set s)"
  by (auto simp: replace_all_def)

lemma replace_all_append [simp]:
  "replace_all a b (s @ t) = replace_all a b s @ replace_all a b t"
  by (simp add: replace_all_def)

lemma split_on_nonempty [simp]: "split_on c s \<noteq> []"
  by (induction s) (auto split: list.splits)

lemma split_on_append_sep:
  "c \<notin> set x \<Longrightarrow> split_on c (x @ c # s) = x # split_on c s"
  by (induction x) (auto split: list.splits)

lemma split_on_absent: "c \<notin> set x \<Longrightarrow> split_on c x = [x]"
  by (induction x) (auto split: list.splits)

lemma split_on_join:
  assumes "xs \<noteq> []" and "\<forall>x \<in> set xs. c \<notin> set x"
  shows "split_on c (join [c] xs) = xs"
  using assms
proof (induction "[c]" xs rule: join.induct)
  case 1
  then show ?case by simp
next
  case (2 x)
  then show ?case by (simp add: split_on_absent)
next
  case (3 x y ys)
  then show ?case by (simp add: split_on_append_sep)
qed

lemma split_on_snoc_part:
  "c \<notin> set b \<Longrightarrow> \<exists>pre. pre \<noteq> [] \<and> split_on c (d @ c # b) = pre @ [b]"
proof (induction d)
  case Nil
  then have "split_on c ([] @ c # b) = [[]] @ [b]" by (simp add: split_on_absent)
  then show ?case by blast
next
  case (Cons x d)
  then obtain pre where pre: "pre \<noteq> []" "split_on c (d @ c # b) = pre @ [b]" by blast
  then obtain p ps where p: "pre = p # ps" by (cases pre) auto
  show ?case
  proof (cases "x = c")
    case True
    with pre have "split_on c ((x # d) @ c # b) = ([] # pre) @ [b]" by simp
    then show ?thesis by blast
  next
    case False
    with pre p have "split_on c ((x # d) @ c # b) = ((x # p) # ps) @ [b]" by simp
    then show ?thesis by blast
  qed
qed

lemma split_on_last: "c \<notin> set b \<Longrightarrow> last (split_on c (d @ c # b)) = b"
  using split_on_snoc_part [of c b d] by auto

lemma join_map_set:
  "set (join sep xs) \<subseteq> \<Union> (set ` set xs) \<union> set sep"
  by (induction sep xs rule: join.induct) auto

section \<open>Lists: maxima, filters, ordered pairs\<close>

lemma fold_max_ge_init: "(x::real) \<le> fold max xs x"
  by (induction xs arbitrary: x) (auto intro: order_trans [OF max.cobounded2])

lemma fold_max_ge_elem: "y \<in> set xs \<Longrightarrow> (y::real) \<le> fold max xs x"
proof (induction xs arbitrary: x)
  case Nil
  then show ?case by simp
next
  case (Cons a xs)
  show ?case
  proof (cases "y = a")
    case True
    have "a \<le> max a x" by simp
    also have "\<dots> \<le> fold max xs (max a x)" by (rule fold_max_ge_init)
    finally show ?thesis using True by simp
  next
    case False
    with Cons.prems have "y \<in> set xs" by simp
    then show ?thesis by (simp add: Cons.IH)
  qed
qed

lemma fold_max_eq_Max: "fold max xs (x::real) = Max (set (x # xs))"
  by (rule Max.set_eq_fold [symmetric])

lemma fold_max_in: "fold max xs (x::real) \<in> set (x # xs)"
proof -
  have "Max (set (x # xs)) \<in> set (x # xs)" by (rule Max_in) simp_all
  then show ?thesis by (simp only: fold_max_eq_Max)
qed

lemma fold_max_snoc [simp]: "fold max (xs @ [y]) (x::real) = max y (fold max xs x)"
  by simp

lemma sorted_wrt_snoc:
  "sorted_wrt P (xs @ [y]) \<longleftrightarrow> sorted_wrt P xs \<and> (\<forall>x \<in> set xs. P x y)"
  by (simp add: sorted_wrt_append)

lemma sorted_wrt_filterI: "sorted_wrt P xs \<Longrightarrow> sorted_wrt P (filter Q xs)"
  by (induction xs) auto

lemma distinct_map_snoc:
  "distinct (map f (xs @ [y])) \<longleftrightarrow> distinct (map f xs) \<and> f y \<notin> f ` set xs"
  by auto

lemma distinct_map_filterI: "distinct (map f xs) \<Longrightarrow> distinct (map f (filter Q xs))"
  by (induction xs) auto

section \<open>Mapping with exceptions\<close>

lemma map_throw_Inr_iff: "map_throw f xs = Inr ys \<longleftrightarrow> map f xs = map Inr ys"
proof (induction xs arbitrary: ys)
  case Nil
  then show ?case by auto
next
  case (Cons x xs)
  show ?case using Cons.IH [symmetric] by (cases ys) (auto split: sum.splits)
qed

lemma map_throw_InlD: "map_throw f xs = Inl e \<Longrightarrow> \<exists>x \<in> set xs. f x = Inl e"
  by (induction xs) (auto split: sum.splits)

lemma map_throw_all_Inr:
  "(\<And>x. x \<in> set xs \<Longrightarrow> f x = Inr (g x)) \<Longrightarrow> map_throw f xs = Inr (map g xs)"
  by (induction xs) simp_all

lemma map_throw_total: "(\<exists>e. map_throw f xs = Inl e) \<or> (\<exists>ys. map_throw f xs = Inr ys)"
  by (cases "map_throw f xs") auto

lemma map_throw_some_Inl:
  assumes "x \<in> set xs" and "f x = Inl e"
  shows "\<exists>e'. map_throw f xs = Inl e'"
proof (cases "map_throw f xs")
  case (Inl e')
  then show ?thesis by blast
next
  case (Inr ys)
  then have "map f xs = map Inr ys" by (simp add: map_throw_Inr_iff)
  then have "f x \<in> Inr ` set ys" using assms(1) by (metis image_eqI list.set_map)
  with assms(2) show ?thesis by auto
qed

section \<open>Runs of an event system\<close>

lemma guard_Some_iff [simp]: "guard en ef e s = Some s' \<longleftrightarrow> en e s \<and> s' = ef e s"
  by (auto simp: guard_def)

lemma run_opt_append:
  "run_opt f (es @ es') s = Option.bind (run_opt f es s) (run_opt f es')"
  by (induction es arbitrary: s) (simp_all split: Option.bind_split)

lemma run_opt_Cons_Some:
  "run_opt f (e # es) s = Some s' \<longleftrightarrow> (\<exists>s1. f e s = Some s1 \<and> run_opt f es s1 = Some s')"
  by (cases "f e s") simp_all

text \<open>A property that every possible event keeps holds after every run.\<close>

lemma run_opt_invariant:
  assumes "run_opt f es s = Some s'" and "I s" and "\<And>e s s'. I s \<Longrightarrow> f e s = Some s' \<Longrightarrow> I s'"
  shows "I s'"
  using assms(1,2)
proof (induction es arbitrary: s)
  case Nil
  then show ?case by simp
next
  case (Cons e es)
  from Cons.prems(1) obtain s1 where 1: "f e s = Some s1" and 2: "run_opt f es s1 = Some s'"
    unfolding run_opt_Cons_Some by blast
  from Cons.prems(2) 1 have "I s1" by (rule assms(3))
  with 2 show ?case by (rule Cons.IH)
qed

lemma run_guard_invariant:
  assumes "run_opt (guard en ef) es s = Some s'" and "I s"
    and "\<And>e s. I s \<Longrightarrow> en e s \<Longrightarrow> I (ef e s)"
  shows "I s'"
  using assms(1,2) by (rule run_opt_invariant) (auto intro: assms(3))

text \<open>A measure that every event lowers by its weight is lowered by a run by the sum
  of the weights.\<close>

lemma run_opt_count:
  fixes m :: "'s \<Rightarrow> nat"
  assumes "run_opt f es s = Some s'" and "I s"
    and "\<And>e s s'. I s \<Longrightarrow> f e s = Some s' \<Longrightarrow> I s' \<and> m s' + w e = m s"
  shows "I s' \<and> m s' + sum_list (map w es) = m s"
  using assms(1,2)
proof (induction es arbitrary: s)
  case Nil
  then show ?case by simp
next
  case (Cons e es)
  from Cons.prems(1) obtain s1 where 1: "f e s = Some s1" and 2: "run_opt f es s1 = Some s'"
    unfolding run_opt_Cons_Some by blast
  from assms(3) [OF Cons.prems(2) 1] have "I s1" and m: "m s1 + w e = m s" by simp_all
  from Cons.IH [OF 2 \<open>I s1\<close>] m show ?case by simp
qed

lemma sum_list_indicator: "sum_list (map (\<lambda>x. if P x then 1 else 0) xs) = length (filter P xs)"
  by (induction xs) simp_all

section \<open>The number of digits\<close>

lemma length_toString_nat:
  "length (toString_nat n) = (if n < 10 then 1 else Suc (length (toString_nat (n div 10))))"
  by (subst toString_nat.simps) simp

lemma length_toString_nat_le_2: "length (toString_nat n) \<le> 2 \<longleftrightarrow> n < 100"
proof -
  have a: "length (toString_nat n) = (if n < 10 then 1 else Suc (length (toString_nat (n div 10))))"
    by (rule length_toString_nat)
  have b: "length (toString_nat (n div 10)) =
      (if n div 10 < 10 then 1 else Suc (length (toString_nat (n div 10 div 10))))"
    by (rule length_toString_nat)
  have c: "0 < length (toString_nat (n div 10 div 10))" by simp
  have d: "n div 10 < 10 \<longleftrightarrow> n < 100" by (simp add: div_less_iff_less_mult)
  from a b c d show ?thesis by (simp split: if_splits)
qed

end
