(* ===== verification/Timeline.thy ===== *)
theory Timeline
  imports CF_Prelude
begin

text \<open>
  The media library and the timeline of \<open>src/src/App_simple.js\<close>: the state of the
  \<open>App\<close> component (\<open>useState\<close> and \<open>useRef\<close> cells, lines 254--262) as the record
  \<open>app_state\<close>, the import path of \<open>AssetLibraryPanel\<close> (\<open>handleDrop\<close>,
  \<open>handleFileInput\<close>, \<open>handleVideoImport\<close>), and the handlers that edit the library
  and the timeline (\<open>handleAddToTimeline\<close>, \<open>handleVideoImported\<close>,
  \<open>handleMediaDelete\<close>, \<open>handleMediaReorder\<close>). A handler is a function from the
  state to the state; what it reads from its closure (the \<open>timelineClips\<close> captured by
  \<open>useCallback\<close>) and from the environment (\<open>Date.now()\<close>) is a parameter.
  The lemmas show the placement rule (a new clip starts at the largest end time), the
  timeline invariant (well-formed clips on track 0 that do not overlap) and its
  preservation by every handler, the cascade of a media deletion, identifier
  freshness, and that a reorder permutes the library.
\<close>

section \<open>Data\<close>

record js_file =
  file_name :: string
  file_type :: string
  file_size :: nat

record media_item =
  media_id :: string
  media_name :: string
  media_file :: js_file
  media_duration :: "real option"
  media_type :: string
  media_size :: nat
  media_url :: string
  media_path :: "string option"

record clip =
  clip_id :: string
  media :: media_item
  startTime :: real
  duration :: real
  endTime :: real
  track :: nat
  trimStart :: real
  trimEnd :: real

record app_state =
  importedVideo :: "media_item option"
  importedMedia :: "media_item list"
  timelineClips :: "clip list"
  selectedClip :: "clip option"
  showClipDetails :: bool
  currentTimelineTime :: real
  isVideoPlaying :: bool
  animationFrameRef :: "nat option"
  lastTickRef :: millis

definition init_app :: "millis \<Rightarrow> app_state" where
  "init_app now =
     \<lparr>importedVideo = None, importedMedia = [], timelineClips = [], selectedClip = None,
      showClipDetails = False, currentTimelineTime = 0, isVideoPlaying = False,
      animationFrameRef = None, lastTickRef = now\<rparr>"

section \<open>Importing files (AssetLibraryPanel)\<close>

record panel_state =
  isDragOver :: bool
  draggedIndex :: "nat option"

definition init_panel :: panel_state where
  "init_panel = \<lparr>isDragOver = False, draggedIndex = None\<rparr>"

definition handleDragOver :: "panel_state \<Rightarrow> panel_state" where
  "handleDragOver p = p\<lparr>isDragOver := True\<rparr>"

definition handleDragLeave :: "panel_state \<Rightarrow> panel_state" where
  "handleDragLeave p = p\<lparr>isDragOver := False\<rparr>"

text \<open>
  \<open>handleDrop\<close> and \<open>handleFileInput\<close> start \<open>handleVideoImport\<close> for the files whose
  MIME type starts with \<open>video/\<close>, in the order of the file list; the result is the
  list of files for which an import was started.
\<close>

definition is_video_file :: "js_file \<Rightarrow> bool" where
  "is_video_file f = prefix ''video/'' (file_type f)"

definition handleDrop :: "js_file list \<Rightarrow> panel_state \<Rightarrow> panel_state \<times> js_file list" where
  "handleDrop files p = (p\<lparr>isDragOver := False\<rparr>, filter is_video_file files)"

definition handleFileInput :: "js_file list \<Rightarrow> js_file list" where
  "handleFileInput files = filter is_video_file files"

text \<open>
  \<open>handleVideoImport\<close> creates a video element and waits for its metadata. When the
  metadata arrives (\<open>LoadedMetadata\<close> with the element's duration) it builds the media
  item and hands it to \<open>onVideoImported\<close>; when it never arrives nothing is imported.
  The time stamp is \<open>Date.now()\<close> at the moment the metadata arrives, the URL the one
  \<open>URL.createObjectURL\<close> returns. The item has no \<open>path\<close> property.
\<close>

datatype video_probe = LoadedMetadata "real option" | NoMetadata

definition handleVideoImport ::
  "js_file \<Rightarrow> string \<Rightarrow> video_probe \<Rightarrow> millis \<Rightarrow> media_item option" where
  "handleVideoImport f url probe now =
     (case probe of
        NoMetadata \<Rightarrow> None
      | LoadedMetadata d \<Rightarrow>
          Some \<lparr>media_id = ''media-'' @ toString now, media_name = file_name f,
                media_file = f, media_duration = d, media_type = file_type f,
                media_size = file_size f, media_url = url, media_path = None\<rparr>)"

text \<open>
  The callback of the metadata event hands the item to the \<open>App\<close> component
  (\<open>onVideoImported\<close> is \<open>handleVideoImported\<close>, defined below): one completed
  import as a step of the application state is \<open>import_file\<close>.
\<close>

section \<open>Handlers of the App component\<close>

text \<open>
  \<open>clip.endTime || (clip.startTime + (clip.duration || 0))\<close>, and the largest such
  value over the captured clips, \<open>0\<close> for an empty timeline.
\<close>

definition clipEnd :: "clip \<Rightarrow> real" where
  "clipEnd c = or_num (endTime c) (startTime c + or_num (duration c) 0)"

fun lastClipEndTime :: "clip list \<Rightarrow> real" where
  "lastClipEndTime [] = 0"
| "lastClipEndTime (c # cs) = fold max (map clipEnd cs) (clipEnd c)"

definition newClip :: "clip list \<Rightarrow> media_item \<Rightarrow> millis \<Rightarrow> clip" where
  "newClip captured m now =
     \<lparr>clip_id = ''clip-'' @ toString now, media = m,
      startTime = lastClipEndTime captured,
      duration = or_undef (media_duration m) 5,
      endTime = lastClipEndTime captured + or_undef (media_duration m) 5,
      track = 0, trimStart = 0,
      trimEnd = or_undef (media_duration m) 5\<rparr>"

text \<open>
  \<open>handleAddToTimeline\<close> computes the new clip from the \<open>timelineClips\<close> its closure
  captured at the last render, appends it to the current list (a functional update),
  and starts playback when the captured timeline was empty.
\<close>

definition handleAddToTimeline ::
  "clip list \<Rightarrow> media_item \<Rightarrow> millis \<Rightarrow> 'a app_state_scheme \<Rightarrow> 'a app_state_scheme" where
  "handleAddToTimeline captured m now st =
     st\<lparr>timelineClips := timelineClips st @ [newClip captured m now],
        isVideoPlaying := (if length captured = 0 then True else isVideoPlaying st)\<rparr>"

text \<open>The handler as it runs after a render: the closure holds the current list.\<close>

definition addToTimeline ::
  "media_item \<Rightarrow> millis \<Rightarrow> 'a app_state_scheme \<Rightarrow> 'a app_state_scheme" where
  "addToTimeline m now st = handleAddToTimeline (timelineClips st) m now st"

definition handleVideoImported :: "media_item \<Rightarrow> 'a app_state_scheme \<Rightarrow> 'a app_state_scheme" where
  "handleVideoImported m st = st\<lparr>importedMedia := importedMedia st @ [m]\<rparr>"

definition handleMediaDelete :: "string \<Rightarrow> 'a app_state_scheme \<Rightarrow> 'a app_state_scheme" where
  "handleMediaDelete mediaId st =
     st\<lparr>importedMedia := filter (\<lambda>m. media_id m \<noteq> mediaId) (importedMedia st),
        timelineClips := filter (\<lambda>c. media_id (media c) \<noteq> mediaId) (timelineClips st)\<rparr>"

definition import_file ::
  "js_file \<Rightarrow> string \<Rightarrow> video_probe \<Rightarrow> millis \<Rightarrow> 'a app_state_scheme \<Rightarrow> 'a app_state_scheme" where
  "import_file f url probe now st =
     (case handleVideoImport f url probe now of
        None \<Rightarrow> st
      | Some m \<Rightarrow> handleVideoImported m st)"

text \<open>
  \<open>Array.prototype.splice\<close>: a negative start counts from the end, a start past the
  end is the length. \<open>handleMediaReorder\<close> removes one element at \<open>fromIndex\<close> and
  inserts it at \<open>toIndex\<close> of the shortened array. When \<open>fromIndex\<close> addresses no
  element the destructured value is \<open>undefined\<close> and the array would receive it;
  the list of the model cannot hold it, and that outcome is \<open>Inl UndefinedEntry\<close>.
\<close>

datatype reorder_error = UndefinedEntry

definition splice_start :: "int \<Rightarrow> nat \<Rightarrow> nat" where
  "splice_start i len = (if i < 0 then nat (max (int len + i) 0) else min (nat i) len)"

definition reorder :: "int \<Rightarrow> int \<Rightarrow> 'a list \<Rightarrow> reorder_error + 'a list" where
  "reorder fromIndex toIndex xs =
     (let s = splice_start fromIndex (length xs) in
      if s < length xs then
        (let removed = xs ! s;
             rest = take s xs @ drop (Suc s) xs;
             t = splice_start toIndex (length rest)
         in Inr (take t rest @ removed # drop t rest))
      else Inl UndefinedEntry)"

definition handleMediaReorder ::
  "int \<Rightarrow> int \<Rightarrow> 'a app_state_scheme \<Rightarrow> reorder_error + 'a app_state_scheme" where
  "handleMediaReorder fromIndex toIndex st =
     (case reorder fromIndex toIndex (importedMedia st) of
        Inl e \<Rightarrow> Inl e
      | Inr xs \<Rightarrow> Inr (st\<lparr>importedMedia := xs\<rparr>))"

definition handleTimelinePlayPause :: "'a app_state_scheme \<Rightarrow> 'a app_state_scheme" where
  "handleTimelinePlayPause st = st\<lparr>isVideoPlaying := \<not> isVideoPlaying st\<rparr>"

definition handleTimelineSeek :: "real \<Rightarrow> 'a app_state_scheme \<Rightarrow> 'a app_state_scheme" where
  "handleTimelineSeek newTime st = st\<lparr>currentTimelineTime := newTime\<rparr>"

definition handleVideoTimeUpdate :: "real \<Rightarrow> 'a app_state_scheme \<Rightarrow> 'a app_state_scheme" where
  "handleVideoTimeUpdate newTime st = st\<lparr>currentTimelineTime := newTime\<rparr>"

lemmas handler_defs =
  handleAddToTimeline_def addToTimeline_def handleVideoImported_def handleMediaDelete_def
  handleMediaReorder_def handleTimelinePlayPause_def handleTimelineSeek_def
  handleVideoTimeUpdate_def

section \<open>The timeline widget (SimpleTimeline)\<close>

definition pixelsPerSecond :: real where
  "pixelsPerSecond = 50"

text \<open>A click at horizontal offset \<open>x\<close> from the left edge of the click area.\<close>

definition handleTimelineClick :: "real \<Rightarrow> 'a app_state_scheme \<Rightarrow> 'a app_state_scheme" where
  "handleTimelineClick x st = handleTimelineSeek (max 0 (x / pixelsPerSecond)) st"

definition playhead_left :: "real \<Rightarrow> real" where
  "playhead_left currentTime = currentTime * pixelsPerSecond + 10"

definition clip_left :: "clip \<Rightarrow> real" where
  "clip_left c = startTime c * pixelsPerSecond + 10"

definition clip_width :: "clip \<Rightarrow> real" where
  "clip_width c = duration c * pixelsPerSecond"

definition clip_label :: "clip \<Rightarrow> string" where
  "clip_label c = (if media_name (media c) \<noteq> [] then media_name (media c) else ''Clip'')"

definition play_button_label :: "bool \<Rightarrow> string" where
  "play_button_label isPlaying = (if isPlaying then ''Pause'' else ''Play'')"

lemmas widget_defs =
  pixelsPerSecond_def handleTimelineClick_def playhead_left_def clip_left_def
  clip_width_def clip_label_def play_button_label_def

section \<open>Specification: well-formed clips, the timeline invariant, runs of edits\<close>

text \<open>
  The data model the timeline is meant to keep: every clip has a positive duration, a
  non-negative start, an end that is its start plus its duration, lies on track 0 and is
  untrimmed; clips do not overlap (an earlier clip of the list ends before a later one
  starts). \<open>contiguous_from t\<close> says that the clips follow each other without a gap,
  starting at \<open>t\<close>. A media item is usable when its duration, if it has one, is not
  negative.
\<close>

definition clip_wf :: "clip \<Rightarrow> bool" where
  "clip_wf c \<longleftrightarrow>
     endTime c = startTime c + duration c \<and> 0 < duration c \<and> 0 \<le> startTime c \<and>
     track c = 0 \<and> trimStart c = 0 \<and> trimEnd c = duration c"

definition no_overlap :: "clip list \<Rightarrow> bool" where
  "no_overlap cs = sorted_wrt (\<lambda>a b. endTime a \<le> startTime b) cs"

definition timeline_inv :: "clip list \<Rightarrow> bool" where
  "timeline_inv cs \<longleftrightarrow> list_all clip_wf cs \<and> no_overlap cs"

fun contiguous_from :: "real \<Rightarrow> clip list \<Rightarrow> bool" where
  "contiguous_from t [] = True"
| "contiguous_from t (c # cs) = (startTime c = t \<and> contiguous_from (endTime c) cs)"

definition media_ok :: "media_item \<Rightarrow> bool" where
  "media_ok m = (case media_duration m of None \<Rightarrow> True | Some d \<Rightarrow> 0 \<le> d)"

text \<open>
  The library invariant: every imported item is usable and every clip shows an item
  that is still in the library.
\<close>

definition library_inv :: "'a app_state_scheme \<Rightarrow> bool" where
  "library_inv st \<longleftrightarrow>
     list_all media_ok (importedMedia st) \<and>
     list_all (\<lambda>c. media c \<in> set (importedMedia st)) (timelineClips st)"

definition app_inv :: "'a app_state_scheme \<Rightarrow> bool" where
  "app_inv st \<longleftrightarrow> timeline_inv (timelineClips st) \<and> library_inv st"

text \<open>
  The abstract timeline of the specification: a list of intervals; appending a clip of
  duration \<open>d\<close> places it at the largest end (\<open>0\<close> when there is none), removing keeps
  the order of what remains. \<open>interval\<close> is the abstraction function.
\<close>

type_synonym interval = "real \<times> real"

definition interval :: "clip \<Rightarrow> interval" where
  "interval c = (startTime c, endTime c)"

definition spec_end :: "interval list \<Rightarrow> real" where
  "spec_end ivs = (if ivs = [] then 0 else Max (snd ` set ivs))"

definition spec_append :: "real \<Rightarrow> interval list \<Rightarrow> interval list" where
  "spec_append d ivs = ivs @ [(spec_end ivs, spec_end ivs + d)]"

text \<open>A run of \<open>Add to Timeline\<close> clicks, each followed by a render.\<close>

fun add_all :: "(media_item \<times> millis) list \<Rightarrow> 'a app_state_scheme \<Rightarrow> 'a app_state_scheme" where
  "add_all [] st = st"
| "add_all ((m, now) # xs) st = add_all xs (addToTimeline m now st)"

text \<open>The edits of the library and the timeline as a datatype, and their effect.\<close>

datatype edit =
    Import media_item
  | Add media_item millis
  | Delete string
  | Reorder int int

fun apply_edit :: "edit \<Rightarrow> 'a app_state_scheme \<Rightarrow> reorder_error + 'a app_state_scheme" where
  "apply_edit (Import m) st = Inr (handleVideoImported m st)"
| "apply_edit (Add m now) st = Inr (addToTimeline m now st)"
| "apply_edit (Delete i) st = Inr (handleMediaDelete i st)"
| "apply_edit (Reorder i j) st = handleMediaReorder i j st"

text \<open>
  An edit the user interface offers in a state: \<open>Add\<close> and \<open>Delete\<close> buttons exist
  for the items of the library only.
\<close>

fun offered :: "edit \<Rightarrow> 'a app_state_scheme \<Rightarrow> bool" where
  "offered (Import m) st = True"
| "offered (Add m now) st = (m \<in> set (importedMedia st))"
| "offered (Delete i) st = (i \<in> media_id ` set (importedMedia st))"
| "offered (Reorder i j) st = True"

inductive edits_to :: "'a app_state_scheme \<Rightarrow> edit list \<Rightarrow> 'a app_state_scheme \<Rightarrow> bool" where
  edits_nil: "edits_to st [] st"
| edits_cons: "offered e st \<Longrightarrow> apply_edit e st = Inr st' \<Longrightarrow> edits_to st' es st'' \<Longrightarrow>
     edits_to st (e # es) st''"

text \<open>The same runs as a function: \<open>None\<close> when an edit is not offered or fails.\<close>

definition try_edit :: "edit \<Rightarrow> 'a app_state_scheme \<Rightarrow> 'a app_state_scheme option" where
  "try_edit e st =
     (if offered e st then (case apply_edit e st of Inl err \<Rightarrow> None | Inr st' \<Rightarrow> Some st') else None)"

definition run_edits :: "edit list \<Rightarrow> 'a app_state_scheme \<Rightarrow> 'a app_state_scheme option" where
  "run_edits = run_opt try_edit"


text \<open>Two sample items, as \<open>handleVideoImport\<close> builds them, for the closed examples.\<close>

definition demo_file :: "string \<Rightarrow> js_file" where
  "demo_file n = \<lparr>file_name = n, file_type = ''video/mp4'', file_size = 1024\<rparr>"

definition demo_media :: "string \<Rightarrow> real \<Rightarrow> millis \<Rightarrow> media_item" where
  "demo_media n d now =
     \<lparr>media_id = ''media-'' @ toString now, media_name = n, media_file = demo_file n,
      media_duration = Some d, media_type = ''video/mp4'', media_size = 1024,
      media_url = ''blob:'' @ n, media_path = None\<rparr>"

text \<open>An edit whose imported item is usable.\<close>

fun edit_ok :: "edit \<Rightarrow> bool" where
  "edit_ok (Import m) = media_ok m"
| "edit_ok e = True"

section \<open>Placement: the end of the timeline\<close>

lemmas inv_defs = clip_wf_def no_overlap_def timeline_inv_def library_inv_def app_inv_def

lemma clipEnd_eq_endTime [simp]:
  "endTime c = startTime c + duration c \<Longrightarrow> clipEnd c = endTime c"
  by (auto simp: clipEnd_def js_defs)

lemma clip_wf_clipEnd [simp]: "clip_wf c \<Longrightarrow> clipEnd c = endTime c"
  by (simp add: clip_wf_def)

lemma clip_wf_end_pos: "clip_wf c \<Longrightarrow> 0 < endTime c"
  by (simp add: clip_wf_def)

lemma clip_wf_start_less_end: "clip_wf c \<Longrightarrow> startTime c < endTime c"
  by (simp add: clip_wf_def)

lemma lastClipEndTime_Max:
  "cs \<noteq> [] \<Longrightarrow> lastClipEndTime cs = Max (clipEnd ` set cs)"
  by (cases cs) (simp_all add: fold_max_eq_Max)

lemma lastClipEndTime_ge: "c \<in> set cs \<Longrightarrow> clipEnd c \<le> lastClipEndTime cs"
  by (cases cs) (auto simp: fold_max_ge_init fold_max_ge_elem)

lemma lastClipEndTime_attained:
  "cs \<noteq> [] \<Longrightarrow> \<exists>c \<in> set cs. lastClipEndTime cs = clipEnd c"
proof -
  assume ne: "cs \<noteq> []"
  then have "Max (clipEnd ` set cs) \<in> clipEnd ` set cs" by (intro Max_in) simp_all
  then obtain c where "c \<in> set cs" "Max (clipEnd ` set cs) = clipEnd c" by auto
  with ne show ?thesis by (auto simp: lastClipEndTime_Max)
qed

lemma lastClipEndTime_snoc:
  "lastClipEndTime (cs @ [c]) = (if cs = [] then clipEnd c else max (clipEnd c) (lastClipEndTime cs))"
  by (cases cs) simp_all

lemma lastClipEndTime_nonneg: "list_all clip_wf cs \<Longrightarrow> 0 \<le> lastClipEndTime cs"
proof (cases "cs = []")
  case True
  then show ?thesis by simp
next
  case False
  assume wf: "list_all clip_wf cs"
  from False obtain c where c: "c \<in> set cs" "lastClipEndTime cs = clipEnd c"
    using lastClipEndTime_attained by blast
  with wf have "clip_wf c" by (simp add: list_all_iff)
  with c(2) clip_wf_end_pos [of c] show ?thesis by simp
qed

lemma no_overlap_ends_le_last:
  assumes "timeline_inv (cs @ [c])" and "a \<in> set cs"
  shows "endTime a \<le> endTime c"
proof -
  from assms have "endTime a \<le> startTime c" and "clip_wf c"
    by (auto simp: timeline_inv_def no_overlap_def sorted_wrt_append)
  with clip_wf_start_less_end [of c] show ?thesis by simp
qed

lemma lastClipEndTime_last:
  assumes "timeline_inv cs" and "cs \<noteq> []"
  shows "lastClipEndTime cs = endTime (last cs)"
proof -
  from assms(2) obtain bs c where cs: "cs = bs @ [c]" by (meson rev_exhaust)
  from assms(1) have wf: "\<forall>a \<in> set cs. clip_wf a" by (simp add: timeline_inv_def list_all_iff)
  have le: "clipEnd a \<le> endTime c" if "a \<in> set cs" for a
  proof (cases "a \<in> set bs")
    case True
    with assms(1) cs have "endTime a \<le> endTime c" by (auto intro: no_overlap_ends_le_last)
    with wf that show ?thesis by simp
  next
    case False
    with that cs wf show ?thesis by simp
  qed
  from wf cs have "clipEnd c = endTime c" by simp
  moreover have "Max (clipEnd ` set cs) = clipEnd c"
    by (rule Max_eqI) (use le cs \<open>clipEnd c = endTime c\<close> in auto)
  ultimately show ?thesis using assms(2) cs by (simp add: lastClipEndTime_Max)
qed

section \<open>The new clip and the timeline invariant\<close>

lemma newClip_fields [simp]:
  "clip_id (newClip cs m now) = ''clip-'' @ toString now"
  "media (newClip cs m now) = m"
  "startTime (newClip cs m now) = lastClipEndTime cs"
  "duration (newClip cs m now) = or_undef (media_duration m) 5"
  "endTime (newClip cs m now) = lastClipEndTime cs + or_undef (media_duration m) 5"
  "track (newClip cs m now) = 0"
  "trimStart (newClip cs m now) = 0"
  "trimEnd (newClip cs m now) = or_undef (media_duration m) 5"
  by (simp_all add: newClip_def)

lemma newClip_duration_nonzero: "duration (newClip cs m now) \<noteq> 0"
  by (simp add: or_undef_nonzero)

lemma media_ok_duration_pos: "media_ok m \<Longrightarrow> 0 < or_undef (media_duration m) 5"
  by (rule or_undef_pos) (auto simp: media_ok_def)

lemma newClip_wf:
  "media_ok m \<Longrightarrow> list_all clip_wf cs \<Longrightarrow> clip_wf (newClip cs m now)"
  by (simp add: clip_wf_def media_ok_duration_pos lastClipEndTime_nonneg)

lemma timeline_inv_Nil [simp]: "timeline_inv []"
  by (simp add: timeline_inv_def no_overlap_def)

lemma timeline_inv_append_newClip [cf_inv]:
  assumes "timeline_inv cs" and "media_ok m"
  shows "timeline_inv (cs @ [newClip cs m now])"
proof -
  from assms have wf: "list_all clip_wf cs" and "clip_wf (newClip cs m now)"
    by (simp_all add: timeline_inv_def newClip_wf)
  moreover have "endTime a \<le> startTime (newClip cs m now)" if "a \<in> set cs" for a
  proof -
    from wf that have "clipEnd a = endTime a" by (simp add: list_all_iff)
    with lastClipEndTime_ge [OF that] show ?thesis by simp
  qed
  ultimately show ?thesis
    using assms(1) by (simp add: timeline_inv_def no_overlap_def sorted_wrt_snoc)
qed

lemma timeline_inv_filter [cf_inv]: "timeline_inv cs \<Longrightarrow> timeline_inv (filter P cs)"
  by (simp add: timeline_inv_def no_overlap_def sorted_wrt_filterI list_all_iff)

lemma contiguous_from_snoc:
  "contiguous_from t (cs @ [c]) \<longleftrightarrow>
     contiguous_from t cs \<and> startTime c = (if cs = [] then t else endTime (last cs))"
  by (induction cs arbitrary: t) auto

lemma contiguous_append_newClip:
  assumes "timeline_inv cs" and "contiguous_from 0 cs"
  shows "contiguous_from 0 (cs @ [newClip cs m now])"
  using assms by (simp add: contiguous_from_snoc lastClipEndTime_last)


section \<open>What each handler changes\<close>

lemma init_app_fields [simp]:
  "importedMedia (init_app now) = []"
  "timelineClips (init_app now) = []"
  "isVideoPlaying (init_app now) = False"
  "currentTimelineTime (init_app now) = 0"
  "animationFrameRef (init_app now) = None"
  "lastTickRef (init_app now) = now"
  by (simp_all add: init_app_def)

lemma addToTimeline_fields [simp]:
  "timelineClips (addToTimeline m now st) = timelineClips st @ [newClip (timelineClips st) m now]"
  "importedMedia (addToTimeline m now st) = importedMedia st"
  "isVideoPlaying (addToTimeline m now st) \<longleftrightarrow> timelineClips st = [] \<or> isVideoPlaying st"
  "currentTimelineTime (addToTimeline m now st) = currentTimelineTime st"
  "animationFrameRef (addToTimeline m now st) = animationFrameRef st"
  "lastTickRef (addToTimeline m now st) = lastTickRef st"
  by (simp_all add: handler_defs)

lemma handleVideoImported_fields [simp]:
  "importedMedia (handleVideoImported m st) = importedMedia st @ [m]"
  "timelineClips (handleVideoImported m st) = timelineClips st"
  "isVideoPlaying (handleVideoImported m st) = isVideoPlaying st"
  "currentTimelineTime (handleVideoImported m st) = currentTimelineTime st"
  "animationFrameRef (handleVideoImported m st) = animationFrameRef st"
  "lastTickRef (handleVideoImported m st) = lastTickRef st"
  by (simp_all add: handler_defs)

lemma handleMediaDelete_fields [simp]:
  "importedMedia (handleMediaDelete i st) = filter (\<lambda>m. media_id m \<noteq> i) (importedMedia st)"
  "timelineClips (handleMediaDelete i st) =
     filter (\<lambda>c. media_id (media c) \<noteq> i) (timelineClips st)"
  "isVideoPlaying (handleMediaDelete i st) = isVideoPlaying st"
  "currentTimelineTime (handleMediaDelete i st) = currentTimelineTime st"
  "animationFrameRef (handleMediaDelete i st) = animationFrameRef st"
  "lastTickRef (handleMediaDelete i st) = lastTickRef st"
  by (simp_all add: handler_defs)

lemma handleTimelinePlayPause_fields [simp]:
  "isVideoPlaying (handleTimelinePlayPause st) = (\<not> isVideoPlaying st)"
  "importedMedia (handleTimelinePlayPause st) = importedMedia st"
  "timelineClips (handleTimelinePlayPause st) = timelineClips st"
  "currentTimelineTime (handleTimelinePlayPause st) = currentTimelineTime st"
  "animationFrameRef (handleTimelinePlayPause st) = animationFrameRef st"
  "lastTickRef (handleTimelinePlayPause st) = lastTickRef st"
  by (simp_all add: handler_defs)

lemma handleTimelineSeek_fields [simp]:
  "currentTimelineTime (handleTimelineSeek t st) = t"
  "importedMedia (handleTimelineSeek t st) = importedMedia st"
  "timelineClips (handleTimelineSeek t st) = timelineClips st"
  "isVideoPlaying (handleTimelineSeek t st) = isVideoPlaying st"
  "animationFrameRef (handleTimelineSeek t st) = animationFrameRef st"
  "lastTickRef (handleTimelineSeek t st) = lastTickRef st"
  by (simp_all add: handler_defs)

lemma handleVideoTimeUpdate_eq_seek: "handleVideoTimeUpdate t st = handleTimelineSeek t st"
  by (simp add: handler_defs)

lemma handleMediaReorder_InrD:
  assumes "handleMediaReorder i j st = Inr st'"
  obtains ys where "reorder i j (importedMedia st) = Inr ys" and "st' = st\<lparr>importedMedia := ys\<rparr>"
  using assms by (auto simp: handleMediaReorder_def split: sum.splits)

section \<open>Reordering the library\<close>

lemma splice_start_le [simp]: "splice_start i n \<le> n"
  by (simp add: splice_start_def nat_le_iff)

lemma splice_start_in_range [simp]: "0 \<le> i \<Longrightarrow> nat i \<le> n \<Longrightarrow> splice_start i n = nat i"
  by (simp add: splice_start_def)

lemma splice_start_negative: "i < 0 \<Longrightarrow> - i \<le> int n \<Longrightarrow> splice_start i n = nat (int n + i)"
  by (simp add: splice_start_def)

lemma reorder_Inr_iff:
  "(\<exists>ys. reorder i j xs = Inr ys) \<longleftrightarrow> splice_start i (length xs) < length xs"
  by (simp add: reorder_def Let_def)

lemma splice_start_less_iff: "splice_start i n < n \<longleftrightarrow> 0 < n \<and> i < int n"
proof (cases "i < 0")
  case True
  then have "splice_start i n = nat (max (int n + i) 0)" by (simp add: splice_start_def)
  with True show ?thesis by arith
next
  case False
  then have "splice_start i n = min (nat i) n" by (simp add: splice_start_def)
  with False show ?thesis by arith
qed

lemma reorder_Inl_iff:
  "reorder i j xs = Inl UndefinedEntry \<longleftrightarrow> xs = [] \<or> int (length xs) \<le> i"
proof -
  have "reorder i j xs = Inl UndefinedEntry \<longleftrightarrow> \<not> splice_start i (length xs) < length xs"
    by (simp add: reorder_def Let_def)
  then show ?thesis by (simp add: splice_start_less_iff) linarith
qed

lemma reorder_InrD:
  assumes "reorder i j xs = Inr ys"
  obtains s t where "s < length xs" and "t \<le> length xs - 1"
    and "ys = take t (take s xs @ drop (Suc s) xs) @ xs ! s # drop t (take s xs @ drop (Suc s) xs)"
proof -
  let ?s = "splice_start i (length xs)"
  let ?rest = "take ?s xs @ drop (Suc ?s) xs"
  from assms have s: "?s < length xs" by (simp add: reorder_def Let_def split: if_splits)
  then have "length ?rest = length xs - 1" by simp
  then have "splice_start j (length ?rest) \<le> length xs - 1"
    using splice_start_le [of j "length ?rest"] by simp
  with that [of ?s "splice_start j (length ?rest)"] assms s show thesis
    by (simp add: reorder_def Let_def)
qed

lemma mset_remove_nth: "s < length xs \<Longrightarrow> mset (take s xs @ drop (Suc s) xs) + {#xs ! s#} = mset xs"
proof -
  assume "s < length xs"
  then have "xs = take s xs @ xs ! s # drop (Suc s) xs" by (rule id_take_nth_drop)
  then have "mset xs = mset (take s xs @ xs ! s # drop (Suc s) xs)" by simp
  then show ?thesis by simp
qed

lemma mset_insert_at: "mset (take t ys @ x # drop t ys) = mset ys + {#x#}"
proof -
  have "mset (take t ys) + mset (drop t ys) = mset ys"
    by (metis append_take_drop_id mset_append)
  then show ?thesis by simp
qed

lemma nth_insert_at: "t \<le> length ys \<Longrightarrow> (take t ys @ x # drop t ys) ! t = x"
  by (simp add: nth_append)

lemma reorder_mset: "reorder i j xs = Inr ys \<Longrightarrow> mset ys = mset xs"
  by (erule reorder_InrD) (simp only: mset_insert_at mset_remove_nth)

lemma reorder_set: "reorder i j xs = Inr ys \<Longrightarrow> set ys = set xs"
  by (drule reorder_mset) (rule mset_eq_setD)

lemma reorder_length: "reorder i j xs = Inr ys \<Longrightarrow> length ys = length xs"
  by (drule reorder_mset) (rule mset_eq_length)

lemma reorder_moves:
  assumes "0 \<le> i" "i < int (length xs)" "0 \<le> j" "j < int (length xs)"
  shows "\<exists>ys. reorder i j xs = Inr ys \<and> ys ! nat j = xs ! nat i"
proof -
  let ?rest = "take (nat i) xs @ drop (Suc (nat i)) xs"
  from assms have len: "length ?rest = length xs - 1" and j: "nat j \<le> length ?rest" by auto
  from assms have s: "splice_start i (length xs) = nat i" by simp
  from j have t: "splice_start j (length ?rest) = nat j" using assms(3) by simp
  from assms have lt: "nat i < length xs" by simp
  have "reorder i j xs = Inr (take (nat j) ?rest @ xs ! nat i # drop (nat j) ?rest)"
    unfolding reorder_def Let_def s t by (simp only: lt if_True)
  moreover from j have "(take (nat j) ?rest @ xs ! nat i # drop (nat j) ?rest) ! nat j = xs ! nat i"
    by (rule nth_insert_at)
  ultimately show ?thesis by blast
qed

section \<open>Preservation of the invariants\<close>

lemma app_inv_fields:
  assumes "timelineClips st' = timelineClips st" and "importedMedia st' = importedMedia st"
  shows "app_inv st' = app_inv st"
  using assms by (simp add: app_inv_def library_inv_def)

lemma app_inv_init [simp]: "app_inv (init_app now)"
  by (simp add: app_inv_def library_inv_def init_app_def)

lemma app_inv_import [cf_inv]:
  "app_inv st \<Longrightarrow> media_ok m \<Longrightarrow> app_inv (handleVideoImported m st)"
  by (auto simp: app_inv_def library_inv_def list_all_iff)

lemma app_inv_add [cf_inv]:
  assumes "app_inv st" and "m \<in> set (importedMedia st)"
  shows "app_inv (addToTimeline m now st)"
proof -
  from assms have "media_ok m" by (auto simp: app_inv_def library_inv_def list_all_iff)
  with assms show ?thesis
    by (auto simp: app_inv_def library_inv_def list_all_iff intro: timeline_inv_append_newClip)
qed

lemma app_inv_delete [cf_inv]: "app_inv st \<Longrightarrow> app_inv (handleMediaDelete i st)"
  by (auto simp: app_inv_def library_inv_def list_all_iff intro: timeline_inv_filter)

lemma app_inv_reorder [cf_inv]:
  assumes "app_inv st" and "handleMediaReorder i j st = Inr st'"
  shows "app_inv st'"
  using assms(2)
proof (rule handleMediaReorder_InrD)
  fix ys assume "reorder i j (importedMedia st) = Inr ys" and st': "st' = st\<lparr>importedMedia := ys\<rparr>"
  then have "set ys = set (importedMedia st)" by (simp add: reorder_set)
  with assms(1) st' show ?thesis by (simp add: app_inv_def library_inv_def list_all_iff)
qed

lemma app_inv_playpause [cf_inv]: "app_inv st \<Longrightarrow> app_inv (handleTimelinePlayPause st)"
  using app_inv_fields [of "handleTimelinePlayPause st" st] by simp

lemma app_inv_seek [cf_inv]: "app_inv st \<Longrightarrow> app_inv (handleTimelineSeek t st)"
  using app_inv_fields [of "handleTimelineSeek t st" st] by simp

lemma app_inv_click [cf_inv]: "app_inv st \<Longrightarrow> app_inv (handleTimelineClick x st)"
  by (simp add: handleTimelineClick_def app_inv_seek)

lemma app_inv_apply_edit:
  assumes "app_inv st" and "offered e st" and "edit_ok e" and "apply_edit e st = Inr st'"
  shows "app_inv st'"
  using assms by (cases e) (auto intro: cf_inv)

inductive_cases edits_to_NilE [elim!]: "edits_to st [] st'"
inductive_cases edits_to_ConsE [elim!]: "edits_to st (e # es) st'"

lemma run_edits_simps [simp]:
  "run_edits [] st = Some st"
  "run_edits (e # es) st =
     (if offered e st
      then (case apply_edit e st of Inl err \<Rightarrow> None | Inr st' \<Rightarrow> run_edits es st')
      else None)"
  by (simp_all add: run_edits_def try_edit_def split: sum.splits)

lemma edits_to_iff_run_edits: "edits_to st es st' \<longleftrightarrow> run_edits es st = Some st'"
proof
  show "edits_to st es st' \<Longrightarrow> run_edits es st = Some st'"
    by (induction rule: edits_to.induct) simp_all
  show "run_edits es st = Some st' \<Longrightarrow> edits_to st es st'"
    by (induction es arbitrary: st)
      (auto intro: edits_to.intros split: if_splits sum.splits)
qed

lemma edits_to_append:
  "edits_to st es st' \<Longrightarrow> edits_to st' es' st'' \<Longrightarrow> edits_to st (es @ es') st''"
  by (induction rule: edits_to.induct) (auto intro: edits_to.intros)

lemma edits_to_deterministic: "edits_to st es st' \<Longrightarrow> edits_to st es st'' \<Longrightarrow> st'' = st'"
  by (simp add: edits_to_iff_run_edits)

lemma app_inv_edits_to:
  assumes "edits_to st es st'" and "app_inv st" and "list_all edit_ok es"
  shows "app_inv st'"
  using assms
proof (induction rule: edits_to.induct)
  case (edits_nil st)
  then show ?case by simp
next
  case (edits_cons e st st' es st'')
  then have "app_inv st'" by (auto intro: app_inv_apply_edit)
  with edits_cons show ?case by simp
qed


section \<open>Runs of appends\<close>

lemma lastClipEndTime_append_newClip:
  assumes "timeline_inv cs" and "media_ok m"
  shows "lastClipEndTime (cs @ [newClip cs m now]) = lastClipEndTime cs + or_undef (media_duration m) 5"
proof -
  from assms have "timeline_inv (cs @ [newClip cs m now])" by (rule timeline_inv_append_newClip)
  then have "lastClipEndTime (cs @ [newClip cs m now]) = endTime (last (cs @ [newClip cs m now]))"
    by (rule lastClipEndTime_last) simp
  then show ?thesis by simp
qed

lemma add_all_frame [simp]:
  "importedMedia (add_all xs st) = importedMedia st"
  "currentTimelineTime (add_all xs st) = currentTimelineTime st"
  by (induction xs arbitrary: st) auto

lemma add_all_run:
  assumes "timeline_inv (timelineClips st)" and "contiguous_from 0 (timelineClips st)"
    and "list_all (\<lambda>x. media_ok (fst x)) xs"
  shows "timeline_inv (timelineClips (add_all xs st)) \<and>
         contiguous_from 0 (timelineClips (add_all xs st)) \<and>
         lastClipEndTime (timelineClips (add_all xs st)) =
           lastClipEndTime (timelineClips st) + (\<Sum>x\<leftarrow>xs. or_undef (media_duration (fst x)) 5)"
  using assms
proof (induction xs arbitrary: st)
  case Nil
  then show ?case by simp
next
  case (Cons x xs)
  obtain m now where x: "x = (m, now)" by (cases x)
  let ?st = "addToTimeline m now st"
  from Cons.prems x have ok: "media_ok m" and rest: "list_all (\<lambda>x. media_ok (fst x)) xs"
    by simp_all
  from Cons.prems(1,2) ok have "timeline_inv (timelineClips ?st)" "contiguous_from 0 (timelineClips ?st)"
    by (simp_all add: timeline_inv_append_newClip contiguous_append_newClip)
  from Cons.IH [OF this rest] Cons.prems(1) ok x show ?case
    by (simp add: lastClipEndTime_append_newClip add.assoc)
qed

lemma add_all_ids:
  "map clip_id (timelineClips (add_all xs st)) =
     map clip_id (timelineClips st) @ map (\<lambda>x. ''clip-'' @ toString (snd x)) xs"
  by (induction xs arbitrary: st) auto

lemma distinct_generated_ids:
  "distinct ts \<Longrightarrow> distinct (map (\<lambda>t. p @ toString t) ts)"
  by (simp add: distinct_map inj_on_def)

lemma handleVideoImport_Some:
  "handleVideoImport f url probe now = Some m \<longleftrightarrow>
     (\<exists>d. probe = LoadedMetadata d \<and>
        m = \<lparr>media_id = ''media-'' @ toString now, media_name = file_name f, media_file = f,
             media_duration = d, media_type = file_type f, media_size = file_size f,
             media_url = url, media_path = None\<rparr>)"
  by (auto simp: handleVideoImport_def split: video_probe.splits)

lemma handleVideoImport_demo:
  "handleVideoImport (demo_file n) (''blob:'' @ n) (LoadedMetadata (Some d)) now = Some (demo_media n d now)"
  by (simp add: handleVideoImport_def demo_media_def demo_file_def)

lemma demo_media_ok [simp]: "0 \<le> d \<Longrightarrow> media_ok (demo_media n d now)"
  by (simp add: media_ok_def demo_media_def)

lemma demo_media_fields [simp]:
  "media_duration (demo_media n d now) = Some d"
  "media_id (demo_media n d now) = ''media-'' @ toString now"
  "media_name (demo_media n d now) = n"
  "media_path (demo_media n d now) = None"
  by (simp_all add: demo_media_def)

lemma import_file_inv:
  assumes "app_inv st" and "\<And>d x. probe = LoadedMetadata (Some x) \<Longrightarrow> 0 \<le> x"
  shows "app_inv (import_file f url probe now st)"
proof (cases "handleVideoImport f url probe now")
  case None
  with assms(1) show ?thesis by (simp add: import_file_def)
next
  case (Some m)
  with assms(2) have "media_ok m"
    by (auto simp: handleVideoImport_Some media_ok_def split: option.splits)
  with assms(1) Some show ?thesis by (simp add: import_file_def app_inv_import)
qed

section \<open>Refinement of the specification's placement\<close>

lemma spec_end_intervals:
  assumes "list_all clip_wf cs"
  shows "spec_end (map interval cs) = lastClipEndTime cs"
proof (cases "cs = []")
  case True
  then show ?thesis by (simp add: spec_end_def)
next
  case False
  from assms have "snd ` set (map interval cs) = clipEnd ` set cs"
    by (auto simp: interval_def list_all_iff image_iff intro!: bexI)
  with False show ?thesis by (simp add: spec_end_def lastClipEndTime_Max)
qed

section \<open>Properties\<close>

text \<open>
  Property C1 (invariant). Every state that the library and timeline edits reach from
  the initial state of the application, when the imported items have no negative
  duration, satisfies the data model: clips are well formed, lie on track 0, do not
  overlap, and refer to items that are still in the library.
\<close>

theorem timeline_invariant_reachable:
  assumes "edits_to (init_app t0) es st" and "list_all edit_ok es"
  shows "app_inv st"
  using assms(1) app_inv_init assms(2) by (rule app_inv_edits_to)

theorem timeline_invariant_reachable_witness:
  "app_inv (the (run_edits
     [Import (demo_media ''a'' 5 1), Add (demo_media ''a'' 5 1) 2,
      Import (demo_media ''b'' 3 3), Add (demo_media ''b'' 3 3) 4,
      Delete (''media-'' @ toString 1), Reorder 0 0] (init_app 0)))"
proof -
  let ?es = "[Import (demo_media ''a'' 5 1), Add (demo_media ''a'' 5 1) 2,
      Import (demo_media ''b'' 3 3), Add (demo_media ''b'' 3 3) 4,
      Delete (''media-'' @ toString 1), Reorder 0 0]"
  have run: "run_edits ?es (init_app 0) \<noteq> None"
    by (simp add: init_app_def handler_defs reorder_def splice_start_def)
  then have "edits_to (init_app 0) ?es (the (run_edits ?es (init_app 0)))"
    by (simp add: edits_to_iff_run_edits)
  moreover have "list_all edit_ok ?es" by simp
  ultimately show ?thesis by (rule timeline_invariant_reachable)
qed

text \<open>
  Property C2 (functional). Sequential append placement: on a timeline that satisfies
  the invariant, the clip that \<open>Add to Timeline\<close> creates starts where the last clip
  ends (at 0 on an empty timeline), lasts as long as its media item (5 seconds when the
  item has no duration), ends at its start plus its duration, and the extended timeline
  satisfies the invariant again.
\<close>

theorem append_placement:
  assumes "timeline_inv (timelineClips st)" and "media_ok m"
  shows "timelineClips (addToTimeline m now st) = timelineClips st @ [newClip (timelineClips st) m now] \<and>
         startTime (newClip (timelineClips st) m now) =
           (if timelineClips st = [] then 0 else endTime (last (timelineClips st))) \<and>
         endTime (newClip (timelineClips st) m now) =
           startTime (newClip (timelineClips st) m now) + or_undef (media_duration m) 5 \<and>
         timeline_inv (timelineClips (addToTimeline m now st))"
  using assms by (simp add: lastClipEndTime_last timeline_inv_append_newClip)

theorem append_placement_witness:
  "startTime (newClip (timelineClips (addToTimeline (demo_media ''a'' 5 1) 2 (init_app 0)))
      (demo_media ''b'' 3 3) 4) = 5 \<and>
   endTime (newClip (timelineClips (addToTimeline (demo_media ''a'' 5 1) 2 (init_app 0)))
      (demo_media ''b'' 3 3) 4) = 8"
proof -
  let ?st = "addToTimeline (demo_media ''a'' 5 1) 2 (init_app 0)"
  have "timeline_inv (timelineClips ?st)"
    by (simp add: init_app_def timeline_inv_append_newClip [of "[]", simplified])
  from append_placement [OF this, of "demo_media ''b'' 3 3" 4] show ?thesis
    by (simp add: init_app_def)
qed

text \<open>
  Property C15 (functional). A run of appends on an empty timeline yields clips that
  follow each other without gap from time 0 and do not overlap; the end of the
  timeline is the sum of the clip durations.
\<close>

theorem appends_contiguous:
  assumes "timelineClips st = []" and "list_all (\<lambda>x. media_ok (fst x)) xs"
  shows "contiguous_from 0 (timelineClips (add_all xs st)) \<and>
         timeline_inv (timelineClips (add_all xs st)) \<and>
         lastClipEndTime (timelineClips (add_all xs st)) =
           (\<Sum>x\<leftarrow>xs. or_undef (media_duration (fst x)) 5)"
  using add_all_run [of st xs] assms by simp

theorem appends_contiguous_witness:
  "map interval (timelineClips
     (add_all [(demo_media ''a'' 5 1, 2), (demo_media ''b'' 3 3, 4)] (init_app 0))) =
     [(0, 5), (5, 8)] \<and>
   lastClipEndTime (timelineClips
     (add_all [(demo_media ''a'' 5 1, 2), (demo_media ''b'' 3 3, 4)] (init_app 0))) = 8"
  using appends_contiguous [of "init_app 0" "[(demo_media ''a'' 5 1, 2), (demo_media ''b'' 3 3, 4)]"]
  by (simp add: init_app_def interval_def)

text \<open>
  Property C7 (functional). Deleting a media item cascades: afterwards no item of the
  library and no clip of the timeline carries the deleted identifier, the remaining
  clips are the old ones in their old order, and the invariant still holds.
\<close>

theorem delete_cascades:
  assumes "app_inv st"
  shows "i \<notin> media_id ` set (importedMedia (handleMediaDelete i st)) \<and>
         i \<notin> (\<lambda>c. media_id (media c)) ` set (timelineClips (handleMediaDelete i st)) \<and>
         subseq (timelineClips (handleMediaDelete i st)) (timelineClips st) \<and>
         length (timelineClips (handleMediaDelete i st)) =
           length (timelineClips st) - length (filter (\<lambda>c. media_id (media c) = i) (timelineClips st)) \<and>
         app_inv (handleMediaDelete i st)"
proof -
  have "length (filter (\<lambda>c. media_id (media c) \<noteq> i) (timelineClips st)) +
        length (filter (\<lambda>c. media_id (media c) = i) (timelineClips st)) = length (timelineClips st)"
    using sum_length_filter_compl [of "\<lambda>c. media_id (media c) = i" "timelineClips st"]
    by (simp add: add.commute)
  with assms show ?thesis by (auto simp: app_inv_delete)
qed

theorem delete_cascades_witness:
  "timelineClips (handleMediaDelete (''media-'' @ toString 1)
     (addToTimeline (demo_media ''a'' 5 1) 2
       (handleVideoImported (demo_media ''a'' 5 1) (init_app 0)))) = []"
proof -
  let ?st = "addToTimeline (demo_media ''a'' 5 1) 2
       (handleVideoImported (demo_media ''a'' 5 1) (init_app 0))"
  have "app_inv ?st" by (rule app_inv_add, rule app_inv_import) simp_all
  from delete_cascades [OF this, of "''media-'' @ toString 1"] show ?thesis
    by simp
qed

text \<open>
  Property C20 (refinement). The handler implements the placement of the
  specification: on well-formed clips, the intervals after \<open>Add to Timeline\<close> are the
  intervals before, extended by the abstract append of the clip's duration.
\<close>

theorem placement_refines_spec:
  assumes "list_all clip_wf (timelineClips st)"
  shows "map interval (timelineClips (addToTimeline m now st)) =
         spec_append (or_undef (media_duration m) 5) (map interval (timelineClips st))"
  using assms by (simp add: spec_append_def spec_end_intervals interval_def)

theorem placement_refines_spec_witness:
  "map interval (timelineClips (addToTimeline (demo_media ''a'' 5 1) 2 (init_app 0))) =
     spec_append 5 []"
  using placement_refines_spec [of "init_app 0" "demo_media ''a'' 5 1" 2]
  by (simp add: init_app_def)

text \<open>
  Clip identifiers are unique when every click happens in a
  millisecond of its own: a run of appends with pairwise distinct time stamps on an empty
  timeline produces pairwise distinct identifiers.
\<close>

theorem clip_ids_distinct:
  assumes "timelineClips st = []" and "distinct (map snd xs)"
  shows "distinct (map clip_id (timelineClips (add_all xs st)))"
proof -
  have "map clip_id (timelineClips (add_all xs st)) = map (\<lambda>t. ''clip-'' @ toString t) (map snd xs)"
    using assms(1) by (simp add: add_all_ids comp_def)
  with assms(2) show ?thesis by (simp only: distinct_generated_ids)
qed

theorem clip_ids_distinct_witness:
  "distinct (map clip_id (timelineClips
     (add_all [(demo_media ''a'' 5 1, 2), (demo_media ''b'' 3 3, 4)] (init_app 0))))"
  by (rule clip_ids_distinct) (simp_all add: init_app_def)

text \<open>
  Identifiers are not unique in general: two different files
  whose metadata arrives in the same millisecond get the same media identifier, and
  deleting one of the two items deletes both.
\<close>

theorem same_millisecond_same_id:
  "demo_media ''a'' 5 7 \<noteq> demo_media ''b'' 3 7 \<and>
   media_id (demo_media ''a'' 5 7) = media_id (demo_media ''b'' 3 7) \<and>
   importedMedia (handleMediaDelete (media_id (demo_media ''a'' 5 7))
     (import_file (demo_file ''b'') ''blob:b'' (LoadedMetadata (Some 3)) 7
       (import_file (demo_file ''a'') ''blob:a'' (LoadedMetadata (Some 5)) 7 (init_app 0)))) = []"
  using handleVideoImport_demo [of "''a''" 5 7] handleVideoImport_demo [of "''b''" 3 7]
  by (simp add: import_file_def init_app_def) (simp add: demo_media_def)

text \<open>
  A reorder that succeeds permutes the library and leaves
  the timeline alone; it fails exactly when \<open>fromIndex\<close> addresses no element, which is
  when the array would receive \<open>undefined\<close>.
\<close>

theorem reorder_permutes:
  "(handleMediaReorder i j st = Inr st' \<longrightarrow>
      mset (importedMedia st') = mset (importedMedia st) \<and> timelineClips st' = timelineClips st) \<and>
   (handleMediaReorder i j st = Inl UndefinedEntry \<longleftrightarrow>
      importedMedia st = [] \<or> int (length (importedMedia st)) \<le> i)"
proof -
  have "handleMediaReorder i j st = Inl UndefinedEntry \<longleftrightarrow>
        reorder i j (importedMedia st) = Inl UndefinedEntry"
    by (auto simp: handleMediaReorder_def split: sum.splits)
  then show ?thesis
    by (auto simp: reorder_Inl_iff reorder_mset elim!: handleMediaReorder_InrD)
qed

theorem reorder_permutes_witness:
  "map media_name (importedMedia (projr (handleMediaReorder 0 1
     ((init_app 0)\<lparr>importedMedia := [demo_media ''a'' 5 1, demo_media ''b'' 3 3]\<rparr>)))) =
     [''b'', ''a''] \<and>
   handleMediaReorder 2 0 ((init_app 0)\<lparr>importedMedia := [demo_media ''a'' 5 1, demo_media ''b'' 3 3]\<rparr>) =
     Inl UndefinedEntry"
  using reorder_permutes [of 2 0 "(init_app 0)\<lparr>importedMedia := [demo_media ''a'' 5 1, demo_media ''b'' 3 3]\<rparr>"]
  by (simp add: handleMediaReorder_def reorder_def splice_start_def)

text \<open>
  The timeline widget draws the play-head 10 pixels to the
  right of where a click is measured from: a click on the drawn play-head of time
  \<open>t\<close> seeks to \<open>t + 0.2\<close>, and a click left of the origin seeks to 0.
\<close>

theorem click_on_playhead_offset:
  "currentTimelineTime (handleTimelineClick (playhead_left t) st) = max 0 (t + 1 / 5) \<and>
   timelineClips (handleTimelineClick x st) = timelineClips st"
  by (simp add: widget_defs add_divide_distrib)


end
