(* ===== verification/Playback.thy ===== *)
theory Playback
  imports Timeline
begin

text \<open>
  The playback clock of \<open>src/src/App_simple.js\<close> (the \<open>useEffect\<close> of lines 327--353):
  while \<open>isVideoPlaying\<close> holds, a frame callback adds the wall-clock time since the
  last tick to the play-head and requests the next frame; the effect's cleanup and its
  else branch cancel the pending request. The browser's animation-frame queue and
  React's dependency tracking are not part of the component's state, so the state of
  this theory extends \<open>app_state\<close> with them: \<open>nextFrameId\<close> (the handle the next
  \<open>requestAnimationFrame\<close> returns), \<open>pendingFrames\<close> (the requests that are neither
  run nor cancelled) and \<open>effectDep\<close> (the value of \<open>isVideoPlaying\<close> the effect last
  ran with). A step of the application is one event handler followed by React's
  commit, or one frame callback. \<open>videoPreviewPanel\<close> is what the wrapper of the
  preview passes on. The lemmas show that exactly one request is pending
  while playing and none while paused, that the play-head advances by the elapsed
  wall-clock time whatever the frame rate, and that nothing bounds the play-head by the
  end of the timeline.
\<close>

section \<open>State\<close>

record player_state = app_state +
  nextFrameId :: nat
  pendingFrames :: "nat list"
  effectDep :: "bool option"

section \<open>The preview panel\<close>

text \<open>What \<open>VideoPreviewPanel\<close> hands to the preview component: the play-head, the
  clips, and the constant \<open>false\<close> for \<open>isPlaying\<close>; \<open>videoFile\<close> and
  \<open>onVideoStateChange\<close> are not passed on.\<close>

record preview_props =
  pp_currentTime :: real
  pp_isPlaying :: bool
  pp_clips :: "clip list"

definition videoPreviewPanel :: "player_state \<Rightarrow> preview_props" where
  "videoPreviewPanel st =
     \<lparr>pp_currentTime = currentTimelineTime st, pp_isPlaying = False, pp_clips = timelineClips st\<rparr>"

section \<open>The browser's animation frames\<close>

definition requestAnimationFrame :: "player_state \<Rightarrow> nat \<times> player_state" where
  "requestAnimationFrame st =
     (nextFrameId st,
      st\<lparr>pendingFrames := pendingFrames st @ [nextFrameId st],
         nextFrameId := Suc (nextFrameId st)\<rparr>)"

definition cancelAnimationFrame :: "nat \<Rightarrow> player_state \<Rightarrow> player_state" where
  "cancelAnimationFrame h st = st\<lparr>pendingFrames := filter (\<lambda>x. x \<noteq> h) (pendingFrames st)\<rparr>"

section \<open>The effect\<close>

text \<open>
  \<open>tick\<close> with \<open>Date.now() = now\<close>: the elapsed seconds since the last tick are added
  to the play-head and the next frame is requested.
\<close>

definition tick :: "millis \<Rightarrow> player_state \<Rightarrow> player_state" where
  "tick now st =
     (let deltaSeconds = real_of_int (now - lastTickRef st) / 1000;
          st1 = st\<lparr>lastTickRef := now,
                   currentTimelineTime := currentTimelineTime st + deltaSeconds\<rparr>;
          (h, st2) = requestAnimationFrame st1
      in st2\<lparr>animationFrameRef := Some h\<rparr>)"

text \<open>\<open>if (animationFrameRef.current) cancelAnimationFrame(animationFrameRef.current)\<close>:
  a handle is truthy when it is not 0.\<close>

definition cancel_current :: "player_state \<Rightarrow> player_state" where
  "cancel_current st =
     (case animationFrameRef st of
        None \<Rightarrow> st
      | Some h \<Rightarrow> if h \<noteq> 0 then cancelAnimationFrame h st else st)"

text \<open>
  The body of the effect; \<open>t0\<close> and \<open>t1\<close> are the values of its two \<open>Date.now()\<close>
  calls (the one stored in \<open>lastTickRef\<close> and the one inside the first \<open>tick\<close>).
\<close>

definition effect_body :: "millis \<Rightarrow> millis \<Rightarrow> player_state \<Rightarrow> player_state" where
  "effect_body t0 t1 st =
     (if isVideoPlaying st then tick t1 (st\<lparr>lastTickRef := t0\<rparr>) else cancel_current st)"

definition effect_cleanup :: "player_state \<Rightarrow> player_state" where
  "effect_cleanup st = cancel_current st"

text \<open>
  React's commit after a render: the effect depends on \<open>[isVideoPlaying]\<close>, so when
  that value differs from the one of the last run the cleanup of the last run and then
  the body run; the first commit (\<open>effectDep = None\<close>) runs the body only.
\<close>

definition commit :: "millis \<Rightarrow> millis \<Rightarrow> player_state \<Rightarrow> player_state" where
  "commit t0 t1 st =
     (case effectDep st of
        None \<Rightarrow> (effect_body t0 t1 st)\<lparr>effectDep := Some (isVideoPlaying st)\<rparr>
      | Some d \<Rightarrow>
          if d = isVideoPlaying st then st
          else (effect_body t0 t1 (effect_cleanup st))\<lparr>effectDep := Some (isVideoPlaying st)\<rparr>)"

text \<open>The browser runs the callback of a pending request: the request leaves the queue
  and \<open>tick\<close> runs.\<close>

definition run_frame :: "nat \<Rightarrow> millis \<Rightarrow> player_state \<Rightarrow> player_state" where
  "run_frame h now st = tick now (cancelAnimationFrame h st)"

definition mount :: "millis \<Rightarrow> millis \<Rightarrow> millis \<Rightarrow> player_state" where
  "mount now t0 t1 =
     commit t0 t1
       (app_state.extend (init_app now)
          \<lparr>nextFrameId = 1, pendingFrames = [], effectDep = None\<rparr>)"

lemmas playback_defs =
  requestAnimationFrame_def cancelAnimationFrame_def tick_def cancel_current_def
  effect_body_def effect_cleanup_def commit_def run_frame_def

section \<open>Steps of the application\<close>

text \<open>
  An event of the user interface with the handler it runs, followed by the commit
  (\<open>VideoTime\<close> is the preview component reporting a time through \<open>onTimeChange\<close>);
  or a frame callback. The time stamps are those of the \<open>Date.now()\<close> calls the step
  makes. Imported items are those the video element delivers: their duration, when
  there is one, is not negative (\<open>edit_ok\<close>).
\<close>

datatype event =
    Edit edit
  | PlayPause
  | Seek real
  | Click real
  | VideoTime real
  | Frame nat millis

inductive step :: "player_state \<Rightarrow> event \<Rightarrow> player_state \<Rightarrow> bool" where
  step_edit: "offered e st \<Longrightarrow> edit_ok e \<Longrightarrow> apply_edit e st = Inr st' \<Longrightarrow> t0 \<le> t1 \<Longrightarrow>
     step st (Edit e) (commit t0 t1 st')"
| step_playpause: "t0 \<le> t1 \<Longrightarrow> step st PlayPause (commit t0 t1 (handleTimelinePlayPause st))"
| step_seek: "step st (Seek t) (commit t0 t1 (handleTimelineSeek t st))"
| step_click: "step st (Click x) (commit t0 t1 (handleTimelineClick x st))"
| step_video_time: "step st (VideoTime t) (commit t0 t1 (handleVideoTimeUpdate t st))"
| step_frame: "h \<in> set (pendingFrames st) \<Longrightarrow> step st (Frame h now) (run_frame h now st)"

inductive reachable :: "player_state \<Rightarrow> bool" where
  reach_mount: "t0 \<le> t1 \<Longrightarrow> reachable (mount now t0 t1)"
| reach_step: "reachable st \<Longrightarrow> step st ev st' \<Longrightarrow> reachable st'"

text \<open>
  One step as a function of the event and of the time stamps its \<open>Date.now()\<close> calls
  return (\<open>None\<close> when the event cannot happen in the state), and a run of steps.
\<close>

primrec fire :: "event \<Rightarrow> millis \<Rightarrow> millis \<Rightarrow> player_state \<Rightarrow> player_state option" where
  "fire (Edit e) t0 t1 st =
     (if offered e st \<and> edit_ok e \<and> t0 \<le> t1
      then (case apply_edit e st of Inl err \<Rightarrow> None | Inr st' \<Rightarrow> Some (commit t0 t1 st'))
      else None)"
| "fire PlayPause t0 t1 st =
     (if t0 \<le> t1 then Some (commit t0 t1 (handleTimelinePlayPause st)) else None)"
| "fire (Seek t) t0 t1 st = Some (commit t0 t1 (handleTimelineSeek t st))"
| "fire (Click x) t0 t1 st = Some (commit t0 t1 (handleTimelineClick x st))"
| "fire (VideoTime t) t0 t1 st = Some (commit t0 t1 (handleVideoTimeUpdate t st))"
| "fire (Frame h now) t0 t1 st =
     (if h \<in> set (pendingFrames st) then Some (run_frame h now st) else None)"

definition run_events :: "(event \<times> millis \<times> millis) list \<Rightarrow> player_state \<Rightarrow> player_state option" where
  "run_events = run_opt (\<lambda>x. fire (fst x) (fst (snd x)) (snd (snd x)))"

text \<open>
  The invariant of the clock: the effect has run for the current value of
  \<open>isVideoPlaying\<close>; while playing exactly one request is pending and its handle is
  the one in \<open>animationFrameRef\<close>; while paused none is; handles are positive and below
  the next one.
\<close>

definition frames_ok :: "bool \<Rightarrow> player_state \<Rightarrow> bool" where
  "frames_ok playing st \<longleftrightarrow>
     0 < nextFrameId st \<and>
     pred_option (\<lambda>h. 0 < h \<and> h < nextFrameId st) (animationFrameRef st) \<and>
     (if playing
      then Some (pendingFrames st) = map_option (\<lambda>h. [h]) (animationFrameRef st)
      else pendingFrames st = [])"

definition clock_inv :: "player_state \<Rightarrow> bool" where
  "clock_inv st \<longleftrightarrow>
     effectDep st = Some (isVideoPlaying st) \<and> frames_ok (isVideoPlaying st) st"

text \<open>The play-head relative to the wall clock: what a tick leaves unchanged.\<close>

definition clock_offset :: "player_state \<Rightarrow> real" where
  "clock_offset st = currentTimelineTime st - real_of_int (lastTickRef st) / 1000"

text \<open>
  The browser runs the oldest pending request at time \<open>now\<close> (nothing happens when the
  queue is empty); a run of such frames at the given times.
\<close>

definition next_frame :: "millis \<Rightarrow> player_state \<Rightarrow> player_state" where
  "next_frame now st = (case pendingFrames st of [] \<Rightarrow> st | h # hs \<Rightarrow> run_frame h now st)"

primrec run_frames :: "millis list \<Rightarrow> player_state \<Rightarrow> player_state" where
  "run_frames [] st = st"
| "run_frames (now # ts) st = run_frames ts (next_frame now st)"

section \<open>What the effect changes\<close>

lemma tick_fields [simp]:
  "currentTimelineTime (tick now st) =
     currentTimelineTime st + real_of_int (now - lastTickRef st) / 1000"
  "lastTickRef (tick now st) = now"
  "animationFrameRef (tick now st) = Some (nextFrameId st)"
  "pendingFrames (tick now st) = pendingFrames st @ [nextFrameId st]"
  "nextFrameId (tick now st) = Suc (nextFrameId st)"
  "isVideoPlaying (tick now st) = isVideoPlaying st"
  "effectDep (tick now st) = effectDep st"
  "timelineClips (tick now st) = timelineClips st"
  "importedMedia (tick now st) = importedMedia st"
  by (simp_all add: tick_def requestAnimationFrame_def Let_def)

lemma cancelAnimationFrame_fields [simp]:
  "pendingFrames (cancelAnimationFrame h st) = filter (\<lambda>x. x \<noteq> h) (pendingFrames st)"
  "currentTimelineTime (cancelAnimationFrame h st) = currentTimelineTime st"
  "lastTickRef (cancelAnimationFrame h st) = lastTickRef st"
  "animationFrameRef (cancelAnimationFrame h st) = animationFrameRef st"
  "nextFrameId (cancelAnimationFrame h st) = nextFrameId st"
  "isVideoPlaying (cancelAnimationFrame h st) = isVideoPlaying st"
  "effectDep (cancelAnimationFrame h st) = effectDep st"
  "timelineClips (cancelAnimationFrame h st) = timelineClips st"
  "importedMedia (cancelAnimationFrame h st) = importedMedia st"
  by (simp_all add: cancelAnimationFrame_def)

lemma cancel_current_fields [simp]:
  "currentTimelineTime (cancel_current st) = currentTimelineTime st"
  "lastTickRef (cancel_current st) = lastTickRef st"
  "animationFrameRef (cancel_current st) = animationFrameRef st"
  "nextFrameId (cancel_current st) = nextFrameId st"
  "isVideoPlaying (cancel_current st) = isVideoPlaying st"
  "effectDep (cancel_current st) = effectDep st"
  "timelineClips (cancel_current st) = timelineClips st"
  "importedMedia (cancel_current st) = importedMedia st"
  by (simp_all add: cancel_current_def split: option.splits)

lemma cancel_current_pending:
  "pendingFrames (cancel_current st) =
     (case animationFrameRef st of
        None \<Rightarrow> pendingFrames st
      | Some h \<Rightarrow> if h \<noteq> 0 then filter (\<lambda>x. x \<noteq> h) (pendingFrames st) else pendingFrames st)"
  by (simp add: cancel_current_def split: option.splits)

lemma frames_ok_True_iff:
  "frames_ok True st \<longleftrightarrow>
     (\<exists>h. animationFrameRef st = Some h \<and> pendingFrames st = [h] \<and> 0 < h \<and> h < nextFrameId st)"
  by (cases "animationFrameRef st") (auto simp: frames_ok_def)

lemma frames_ok_False_iff:
  "frames_ok False st \<longleftrightarrow>
     0 < nextFrameId st \<and> pendingFrames st = [] \<and>
     pred_option (\<lambda>h. 0 < h \<and> h < nextFrameId st) (animationFrameRef st)"
  by (auto simp: frames_ok_def)

lemma frames_ok_cancel_current:
  "frames_ok d st \<Longrightarrow> pendingFrames (cancel_current st) = [] \<and> frames_ok False (cancel_current st)"
  by (auto simp: frames_ok_def cancel_current_pending split: option.splits if_splits)

lemma frames_ok_tick:
  "0 < nextFrameId st \<Longrightarrow> pendingFrames st = [] \<Longrightarrow> frames_ok True (tick now st)"
  by (simp add: frames_ok_def)

lemma frames_ok_fields:
  assumes "nextFrameId st' = nextFrameId st" "pendingFrames st' = pendingFrames st"
    "animationFrameRef st' = animationFrameRef st"
  shows "frames_ok d st' = frames_ok d st"
  using assms by (simp add: frames_ok_def)

lemma commit_fields [simp]:
  "isVideoPlaying (commit t0 t1 st) = isVideoPlaying st"
  "timelineClips (commit t0 t1 st) = timelineClips st"
  "importedMedia (commit t0 t1 st) = importedMedia st"
  by (simp_all add: commit_def effect_body_def effect_cleanup_def split: option.splits)

lemma commit_unchanged [simp]:
  "effectDep st = Some (isVideoPlaying st) \<Longrightarrow> commit t0 t1 st = st"
  by (simp add: commit_def)

lemma commit_started:
  assumes "effectDep st = Some False" and "isVideoPlaying st" and "frames_ok False st"
  shows "commit t0 t1 st =
     (tick t1 (cancel_current st\<lparr>lastTickRef := t0\<rparr>))\<lparr>effectDep := Some True\<rparr>"
  using assms by (simp add: commit_def effect_body_def effect_cleanup_def)

lemma commit_stopped:
  assumes "effectDep st = Some True" and "\<not> isVideoPlaying st"
  shows "commit t0 t1 st = (cancel_current (cancel_current st))\<lparr>effectDep := Some False\<rparr>"
  using assms by (simp add: commit_def effect_body_def effect_cleanup_def)

section \<open>The clock invariant\<close>

lemma clock_inv_commit:
  assumes "effectDep st = Some d" and "frames_ok d st"
  shows "clock_inv (commit t0 t1 st)"
proof (cases "d = isVideoPlaying st")
  case True
  with assms show ?thesis by (simp add: clock_inv_def)
next
  case False
  note fc = frames_ok_cancel_current [OF assms(2)]
  show ?thesis
  proof (cases "isVideoPlaying st")
    case True
    from fc have "frames_ok True (tick t1 (cancel_current st\<lparr>lastTickRef := t0\<rparr>))"
      by (intro frames_ok_tick) (simp_all add: frames_ok_def cancel_current_pending)
    with True False assms(1) show ?thesis
      by (simp add: clock_inv_def commit_def effect_body_def effect_cleanup_def
          frames_ok_def)
  next
    case playing: False
    from fc have "frames_ok False (cancel_current (cancel_current st))"
      by (blast dest: frames_ok_cancel_current)
    with playing False assms(1) show ?thesis
      by (simp add: clock_inv_def commit_def effect_body_def effect_cleanup_def
          frames_ok_def)
  qed
qed

lemma clock_inv_mount: "clock_inv (mount now t0 t1)"
  by (simp add: mount_def clock_inv_def commit_def effect_body_def frames_ok_def
      cancel_current_def app_state.extend_def init_app_def)

lemma clock_inv_run_frame:
  assumes "clock_inv st" and "h \<in> set (pendingFrames st)"
  shows "clock_inv (run_frame h now st)"
proof -
  from assms have playing: "isVideoPlaying st"
    by (cases "isVideoPlaying st") (auto simp: clock_inv_def frames_ok_False_iff)
  with assms have "animationFrameRef st = Some h" "pendingFrames st = [h]" "0 < nextFrameId st"
    by (auto simp: clock_inv_def frames_ok_True_iff)
  with assms(1) playing show ?thesis
    by (simp add: clock_inv_def frames_ok_True_iff run_frame_def)
qed

lemma handler_player_fields [simp]:
  fixes st :: player_state
  shows "nextFrameId (handleTimelinePlayPause st) = nextFrameId st"
    "pendingFrames (handleTimelinePlayPause st) = pendingFrames st"
    "effectDep (handleTimelinePlayPause st) = effectDep st"
    "nextFrameId (handleTimelineSeek t st) = nextFrameId st"
    "pendingFrames (handleTimelineSeek t st) = pendingFrames st"
    "effectDep (handleTimelineSeek t st) = effectDep st"
    "nextFrameId (handleTimelineClick x st) = nextFrameId st"
    "pendingFrames (handleTimelineClick x st) = pendingFrames st"
    "effectDep (handleTimelineClick x st) = effectDep st"
    "isVideoPlaying (handleTimelineClick x st) = isVideoPlaying st"
    "nextFrameId (addToTimeline m now st) = nextFrameId st"
    "pendingFrames (addToTimeline m now st) = pendingFrames st"
    "effectDep (addToTimeline m now st) = effectDep st"
    "nextFrameId (handleVideoImported m st) = nextFrameId st"
    "pendingFrames (handleVideoImported m st) = pendingFrames st"
    "effectDep (handleVideoImported m st) = effectDep st"
    "nextFrameId (handleMediaDelete i st) = nextFrameId st"
    "pendingFrames (handleMediaDelete i st) = pendingFrames st"
    "effectDep (handleMediaDelete i st) = effectDep st"
  by (simp_all add: handler_defs handleTimelineClick_def)

lemma handler_keeps_frames:
  fixes st :: player_state
  shows "effectDep (handleTimelinePlayPause st) = effectDep st \<and>
         frames_ok d (handleTimelinePlayPause st) = frames_ok d st"
    and "effectDep (handleTimelineSeek t st) = effectDep st \<and>
         frames_ok d (handleTimelineSeek t st) = frames_ok d st"
    and "effectDep (handleTimelineClick x st) = effectDep st \<and>
         frames_ok d (handleTimelineClick x st) = frames_ok d st"
    and "effectDep (addToTimeline m now st) = effectDep st \<and>
         frames_ok d (addToTimeline m now st) = frames_ok d st"
    and "effectDep (handleVideoImported m st) = effectDep st \<and>
         frames_ok d (handleVideoImported m st) = frames_ok d st"
    and "effectDep (handleMediaDelete i st) = effectDep st \<and>
         frames_ok d (handleMediaDelete i st) = frames_ok d st"
  by (simp_all add: handler_defs handleTimelineClick_def frames_ok_def)

lemma apply_edit_keeps_frames:
  fixes st :: player_state
  assumes "apply_edit e st = Inr st'"
  shows "effectDep st' = effectDep st \<and> frames_ok d st' = frames_ok d st"
proof (cases e)
  case (Reorder i j)
  with assms show ?thesis
    by (auto simp: frames_ok_def elim!: handleMediaReorder_InrD)
qed (use assms handler_keeps_frames in auto)

lemma clock_inv_commit_handler:
  assumes "clock_inv st" and "effectDep st' = effectDep st"
    and "frames_ok (isVideoPlaying st) st' = frames_ok (isVideoPlaying st) st"
  shows "clock_inv (commit t0 t1 st')"
  using assms by (intro clock_inv_commit [of _ "isVideoPlaying st"]) (simp_all add: clock_inv_def)

lemma clock_inv_step:
  assumes "step st ev st'" and "clock_inv st"
  shows "clock_inv st'"
  using assms
proof (induction rule: step.induct)
  case (step_edit e st st' t0 t1)
  with apply_edit_keeps_frames [OF step_edit.hyps(3)] show ?case
    by (intro clock_inv_commit_handler) simp_all
next
  case (step_frame h st now)
  then show ?case by (simp add: clock_inv_run_frame)
qed (simp_all add: clock_inv_commit_handler handler_keeps_frames handleVideoTimeUpdate_eq_seek)

lemma reachable_clock_inv: "reachable st \<Longrightarrow> clock_inv st"
  by (induction rule: reachable.induct) (auto intro: clock_inv_mount clock_inv_step)


section \<open>Steps as a function\<close>

lemma fire_step: "fire ev t0 t1 st = Some st' \<Longrightarrow> step st ev st'"
  by (cases ev) (auto intro: step.intros split: if_splits sum.splits)

lemma step_fire: "step st ev st' \<Longrightarrow> \<exists>t0 t1. fire ev t0 t1 st = Some st'"
proof (induction rule: step.induct)
  case (step_edit e st st' t0 t1)
  then have "fire (Edit e) t0 t1 st = Some (commit t0 t1 st')" by simp
  then show ?case by blast
next
  case (step_playpause t0 t1 st)
  then have "fire PlayPause t0 t1 st = Some (commit t0 t1 (handleTimelinePlayPause st))" by simp
  then show ?case by blast
next
  case (step_seek st t t0 t1)
  have "fire (Seek t) t0 t1 st = Some (commit t0 t1 (handleTimelineSeek t st))" by simp
  then show ?case by blast
next
  case (step_click st x t0 t1)
  have "fire (Click x) t0 t1 st = Some (commit t0 t1 (handleTimelineClick x st))" by simp
  then show ?case by blast
next
  case (step_video_time st t t0 t1)
  have "fire (VideoTime t) t0 t1 st = Some (commit t0 t1 (handleVideoTimeUpdate t st))" by simp
  then show ?case by blast
next
  case (step_frame h st now)
  then have "fire (Frame h now) 0 0 st = Some (run_frame h now st)" by simp
  then show ?case by blast
qed

lemma run_events_simps [simp]:
  "run_events [] st = Some st"
  "run_events (x # xs) st =
     (case fire (fst x) (fst (snd x)) (snd (snd x)) st of
        None \<Rightarrow> None
      | Some st' \<Rightarrow> run_events xs st')"
  by (simp_all add: run_events_def split: Option.bind_split)

lemma run_events_reachable:
  "reachable st \<Longrightarrow> run_events xs st = Some st' \<Longrightarrow> reachable st'"
  unfolding run_events_def
  by (erule run_opt_invariant [rotated]) (auto intro: reach_step fire_step)

section \<open>The play-head follows the wall clock\<close>

lemma clock_offset_tick [simp]: "clock_offset (tick now st) = clock_offset st"
  by (simp add: clock_offset_def diff_divide_distrib)

lemma clock_offset_run_frame [simp]: "clock_offset (run_frame h now st) = clock_offset st"
  by (simp add: run_frame_def) (simp add: clock_offset_def)

lemma clock_offset_next_frame [simp]: "clock_offset (next_frame now st) = clock_offset st"
  by (simp add: next_frame_def split: list.splits)

lemma clock_offset_run_frames [simp]: "clock_offset (run_frames ts st) = clock_offset st"
  by (induction ts arbitrary: st) simp_all

lemma clock_inv_playing_pending:
  "clock_inv st \<Longrightarrow> isVideoPlaying st \<Longrightarrow> \<exists>h. pendingFrames st = [h] \<and> animationFrameRef st = Some h"
  by (auto simp: clock_inv_def frames_ok_True_iff)

lemma clock_inv_paused_pending: "clock_inv st \<Longrightarrow> \<not> isVideoPlaying st \<Longrightarrow> pendingFrames st = []"
  by (simp add: clock_inv_def frames_ok_False_iff)

lemma next_frame_playing:
  assumes "clock_inv st" and "isVideoPlaying st"
  shows "clock_inv (next_frame now st) \<and> isVideoPlaying (next_frame now st) \<and>
         lastTickRef (next_frame now st) = now \<and>
         timelineClips (next_frame now st) = timelineClips st"
proof -
  from assms obtain h where "pendingFrames st = [h]" by (blast dest: clock_inv_playing_pending)
  with assms show ?thesis by (simp add: next_frame_def clock_inv_run_frame) (simp add: run_frame_def)
qed

lemma run_frames_playing:
  assumes "clock_inv st" and "isVideoPlaying st"
  shows "clock_inv (run_frames ts st) \<and> isVideoPlaying (run_frames ts st) \<and>
         lastTickRef (run_frames ts st) = (if ts = [] then lastTickRef st else last ts) \<and>
         timelineClips (run_frames ts st) = timelineClips st"
  using assms
proof (induction ts arbitrary: st)
  case Nil
  then show ?case by simp
next
  case (Cons now ts)
  from next_frame_playing [OF Cons.prems, of now] Cons.IH [of "next_frame now st"]
  show ?case by simp
qed

lemma run_frames_reachable:
  "reachable st \<Longrightarrow> reachable (run_frames ts st)"
proof (induction ts arbitrary: st)
  case Nil
  then show ?case by simp
next
  case (Cons now ts)
  note reach = Cons.prems and IH = Cons.IH
  have "reachable (next_frame now st)"
  proof (cases "pendingFrames st")
    case Nil
    with reach show ?thesis by (simp add: next_frame_def)
  next
    case (Cons h hs)
    then have "step st (Frame h now) (run_frame h now st)" by (intro step_frame) simp
    with reach have "reachable (run_frame h now st)" by (rule reach_step)
    with Cons show ?thesis by (simp add: next_frame_def)
  qed
  then show ?case by (simp add: IH)
qed

section \<open>The whole application keeps the timeline invariant\<close>

lemma app_inv_commit [simp]: "app_inv (commit t0 t1 st) = app_inv st"
  by (rule app_inv_fields) simp_all

lemma app_inv_run_frame [simp]: "app_inv (run_frame h now st) = app_inv st"
  by (rule app_inv_fields) (simp_all add: run_frame_def)

lemma app_inv_mount [simp]: "app_inv (mount now t0 t1)"
proof -
  have "app_inv (mount now t0 t1) = app_inv (init_app now)"
    by (rule app_inv_fields) (simp_all add: mount_def app_state.extend_def init_app_def)
  then show ?thesis by simp
qed

lemma app_inv_step: "step st ev st' \<Longrightarrow> app_inv st \<Longrightarrow> app_inv st'"
proof (induction rule: step.induct)
  case (step_edit e st st' t0 t1)
  then have "app_inv st'" by (blast intro: app_inv_apply_edit)
  then show ?case by simp
qed (simp_all add: app_inv_playpause app_inv_seek app_inv_click handleVideoTimeUpdate_eq_seek)

lemma reachable_app_inv: "reachable st \<Longrightarrow> app_inv st"
  by (induction rule: reachable.induct) (auto intro: app_inv_step)


section \<open>Starting and stopping\<close>

lemma play_pause_commit:
  assumes "clock_inv st"
  shows "isVideoPlaying st \<Longrightarrow>
           pendingFrames (commit t0 t1 (handleTimelinePlayPause st)) = [] \<and>
           currentTimelineTime (commit t0 t1 (handleTimelinePlayPause st)) = currentTimelineTime st"
    and "\<not> isVideoPlaying st \<Longrightarrow>
           pendingFrames (commit t0 t1 (handleTimelinePlayPause st)) = [nextFrameId st] \<and>
           lastTickRef (commit t0 t1 (handleTimelinePlayPause st)) = t1 \<and>
           currentTimelineTime (commit t0 t1 (handleTimelinePlayPause st)) =
             currentTimelineTime st + real_of_int (t1 - t0) / 1000"
proof -
  let ?st = "handleTimelinePlayPause st"
  from assms have dep: "effectDep ?st = Some (isVideoPlaying st)"
    and ok: "frames_ok (isVideoPlaying st) ?st"
    by (simp_all add: clock_inv_def handler_keeps_frames)
  note fc = frames_ok_cancel_current [OF ok]
  show "pendingFrames (commit t0 t1 ?st) = [] \<and>
        currentTimelineTime (commit t0 t1 ?st) = currentTimelineTime st" if "isVideoPlaying st"
    using that dep fc frames_ok_cancel_current [of False "cancel_current ?st"]
    by (simp add: commit_stopped)
  show "pendingFrames (commit t0 t1 ?st) = [nextFrameId st] \<and>
        lastTickRef (commit t0 t1 ?st) = t1 \<and>
        currentTimelineTime (commit t0 t1 ?st) =
          currentTimelineTime st + real_of_int (t1 - t0) / 1000" if "\<not> isVideoPlaying st"
    using that dep ok fc by (simp add: commit_started)
qed

lemma first_add_commit:
  assumes "clock_inv st" and "\<not> isVideoPlaying st" and "timelineClips st = []"
  shows "pendingFrames (commit t0 t1 (addToTimeline m now st)) = [nextFrameId st] \<and>
         lastTickRef (commit t0 t1 (addToTimeline m now st)) = t1 \<and>
         currentTimelineTime (commit t0 t1 (addToTimeline m now st)) =
           currentTimelineTime st + real_of_int (t1 - t0) / 1000"
proof -
  let ?st = "addToTimeline m now st"
  from assms have dep: "effectDep ?st = Some False" and ok: "frames_ok False ?st"
    and playing: "isVideoPlaying ?st"
    by (simp_all add: clock_inv_def handler_keeps_frames)
  from frames_ok_cancel_current [OF ok] dep ok playing show ?thesis
    by (simp add: commit_started)
qed

lemma apply_edit_time:
  fixes st :: player_state
  assumes "apply_edit e st = Inr st'"
  shows "currentTimelineTime st' = currentTimelineTime st"
  using assms by (cases e) (auto elim!: handleMediaReorder_InrD)

lemmas player_eval =
  mount_def playback_defs handler_defs handleTimelineClick_def pixelsPerSecond_def
  app_state.extend_def init_app_def Let_def reorder_def splice_start_def
  newClip_def clipEnd_def

section \<open>Properties\<close>

text \<open>
  Property C8 (invariant). In every reachable state of the application the effect
  has run for the current value of \<open>isVideoPlaying\<close>; while playing exactly one frame
  request is pending and \<open>animationFrameRef\<close> holds its handle; while paused no request
  is pending, so pausing has cancelled the callback.
\<close>

theorem pending_frame_iff_playing:
  assumes "reachable st"
  shows "clock_inv st \<and>
         length (pendingFrames st) = (if isVideoPlaying st then 1 else 0) \<and>
         set (pendingFrames st) \<subseteq> set_option (animationFrameRef st)"
proof -
  from assms have inv: "clock_inv st" by (rule reachable_clock_inv)
  then show ?thesis
    by (cases "isVideoPlaying st")
      (auto dest: clock_inv_playing_pending clock_inv_paused_pending)
qed

theorem pending_frame_iff_playing_witness:
  "pendingFrames (the (run_events
     [(Edit (Import (demo_media ''a'' 5 1)), 0, 0), (Edit (Add (demo_media ''a'' 5 1) 2), 1000, 1000),
      (Frame 1 2000, 0, 0), (PlayPause, 3000, 3000)] (mount 0 0 0))) = []"
proof -
  let ?evs = "[(Edit (Import (demo_media ''a'' 5 1)), 0, 0),
      (Edit (Add (demo_media ''a'' 5 1) 2), 1000, 1000),
      (Frame 1 2000, 0, 0), (PlayPause, 3000, 3000)]"
  have run: "\<exists>st. run_events ?evs (mount 0 0 0) = Some st \<and> \<not> isVideoPlaying st"
    by (simp add: player_eval)
  then obtain st where st: "run_events ?evs (mount 0 0 0) = Some st" "\<not> isVideoPlaying st"
    by blast
  have "reachable (mount 0 0 0)" by (rule reach_mount) simp
  then have "reachable st" using st(1) by (rule run_events_reachable)
  from pending_frame_iff_playing [OF this] st show ?thesis by simp
qed

text \<open>
  Property C3 (functional). While playing, a run of frame callbacks advances the
  play-head by exactly the wall-clock time between the last tick before the run and the
  last callback of the run, whatever the number and the spacing of the callbacks; the
  clock keeps playing.
\<close>

theorem frames_advance_by_wall_clock:
  assumes "reachable st" and "isVideoPlaying st" and "ts \<noteq> []"
  shows "currentTimelineTime (run_frames ts st) =
           currentTimelineTime st + real_of_int (last ts - lastTickRef st) / 1000 \<and>
         isVideoPlaying (run_frames ts st) \<and> reachable (run_frames ts st)"
proof -
  from assms(1) have "clock_inv st" by (rule reachable_clock_inv)
  from run_frames_playing [OF this assms(2), of ts] assms(3)
  have last: "lastTickRef (run_frames ts st) = last ts" and "isVideoPlaying (run_frames ts st)"
    by simp_all
  moreover have "clock_offset (run_frames ts st) = clock_offset st" by simp
  ultimately show ?thesis
    using assms(1) by (simp add: clock_offset_def run_frames_reachable diff_divide_distrib)
qed

theorem frames_advance_by_wall_clock_witness:
  "currentTimelineTime (run_frames [1016, 1033, 1500, 4000]
     (the (run_events [(PlayPause, 1000, 1000)] (mount 0 0 0)))) = 3"
proof -
  have run: "\<exists>st. run_events [(PlayPause, 1000, 1000)] (mount 0 0 0) = Some st \<and>
      isVideoPlaying st \<and> currentTimelineTime st = 0 \<and> lastTickRef st = 1000"
    by (simp add: player_eval)
  then obtain st where st: "run_events [(PlayPause, 1000, 1000)] (mount 0 0 0) = Some st"
    "isVideoPlaying st" "currentTimelineTime st = 0" "lastTickRef st = 1000"
    by blast
  have "reachable (mount 0 0 0)" by (rule reach_mount) simp
  then have "reachable st" using st(1) by (rule run_events_reachable)
  from frames_advance_by_wall_clock [OF this st(2), of "[1016, 1033, 1500, 4000]"] st
  show ?thesis by simp
qed

text \<open>
  Property C33 (safety). The play-head is not clamped to the timeline: there is a
  reachable state in which the application is still playing and the play-head lies
  beyond the end of the last clip.
\<close>

theorem playhead_not_clamped:
  "\<exists>st. reachable st \<and> isVideoPlaying st \<and>
        lastClipEndTime (timelineClips st) < currentTimelineTime st"
proof -
  let ?evs = "[(Edit (Import (demo_media ''a'' 5 1)), 0, 0),
      (Edit (Add (demo_media ''a'' 5 1) 2), 1000, 1000), (Frame 1 11000, 0, 0)]"
  have "\<exists>st. run_events ?evs (mount 0 0 0) = Some st \<and> isVideoPlaying st \<and>
      lastClipEndTime (timelineClips st) < currentTimelineTime st"
    by (simp add: player_eval)
  then obtain st where st: "run_events ?evs (mount 0 0 0) = Some st" "isVideoPlaying st"
    "lastClipEndTime (timelineClips st) < currentTimelineTime st"
    by blast
  have "reachable (mount 0 0 0)" by (rule reach_mount) simp
  then have "reachable st" using st(1) by (rule run_events_reachable)
  with st(2,3) show ?thesis by blast
qed

text \<open>
  Property C34 (safety). While the application is paused no frame callback can run,
  and a step that leaves it paused moves the play-head only when it is a seek, a
  click on the timeline or a time reported by the preview.
\<close>

theorem paused_playhead_fixed:
  assumes "reachable st" and "\<not> isVideoPlaying st" and "step st ev st'"
    and "\<not> isVideoPlaying st'"
  shows "(\<forall>h now. ev \<noteq> Frame h now) \<and>
         ((\<forall>t. ev \<noteq> Seek t \<and> ev \<noteq> VideoTime t) \<and> (\<forall>x. ev \<noteq> Click x) \<longrightarrow>
            currentTimelineTime st' = currentTimelineTime st)"
proof -
  from assms(1) have inv: "clock_inv st" by (rule reachable_clock_inv)
  from inv assms(2) have none: "pendingFrames st = []" by (rule clock_inv_paused_pending)
  from assms(3) inv have inv': "clock_inv st'" by (rule clock_inv_step)
  from assms(3,2,4) none inv show ?thesis
  proof (induction rule: step.induct)
    case (step_edit e st st' t0 t1)
    from apply_edit_keeps_frames [OF step_edit.hyps(3)] step_edit.prems
    have "effectDep st' = Some (isVideoPlaying st')" by (simp add: clock_inv_def)
    with apply_edit_time [OF step_edit.hyps(3)] show ?case by simp
  next
    case (step_playpause t0 t1 st)
    then show ?case by simp
  qed (simp_all add: handleVideoTimeUpdate_eq_seek)
qed

theorem paused_playhead_fixed_witness:
  "currentTimelineTime (commit 5 5 (handleVideoImported (demo_media ''a'' 5 1) (mount 0 0 0))) = 0"
proof -
  let ?st' = "commit 5 5 (handleVideoImported (demo_media ''a'' 5 1) (mount 0 0 0))"
  have r: "reachable (mount 0 0 0)" by (rule reach_mount) simp
  have p: "\<not> isVideoPlaying (mount 0 0 0)" "\<not> isVideoPlaying ?st'"
    "currentTimelineTime (mount 0 0 0) = 0"
    by (simp_all add: player_eval)
  have "step (mount 0 0 0) (Edit (Import (demo_media ''a'' 5 1))) ?st'"
    by (rule step_edit) simp_all
  from paused_playhead_fixed [OF r p(1) this p(2)] p(3) show ?thesis by simp
qed

text \<open>
  Play and pause: pausing cancels the pending frame request
  and leaves the play-head where it is; resuming requests one frame, restarts the tick
  reference at the current wall-clock time and adds only the time between the effect's
  two clock readings to the play-head, not the time spent paused.
\<close>

theorem play_pause_toggle:
  assumes "reachable st" and "step st PlayPause st'"
  shows "isVideoPlaying st' = (\<not> isVideoPlaying st) \<and>
         (isVideoPlaying st \<longrightarrow>
            pendingFrames st' = [] \<and> currentTimelineTime st' = currentTimelineTime st) \<and>
         (\<not> isVideoPlaying st \<longrightarrow>
            pendingFrames st' = [nextFrameId st] \<and>
            (\<exists>t0 t1. t0 \<le> t1 \<and> lastTickRef st' = t1 \<and>
               currentTimelineTime st' = currentTimelineTime st + real_of_int (t1 - t0) / 1000))"
proof -
  from assms(1) have inv: "clock_inv st" by (rule reachable_clock_inv)
  from assms(2) obtain t0 t1 where t: "t0 \<le> t1"
    and st': "st' = commit t0 t1 (handleTimelinePlayPause st)"
    by (auto elim: step.cases)
  from play_pause_commit [OF inv, of t0 t1] t show ?thesis
    unfolding st' by (cases "isVideoPlaying st") auto
qed

theorem play_pause_toggle_witness:
  "pendingFrames (commit 7 8 (handleTimelinePlayPause (mount 0 0 0))) = [1] \<and>
   isVideoPlaying (commit 7 8 (handleTimelinePlayPause (mount 0 0 0)))"
proof -
  have r: "reachable (mount 0 0 0)" by (rule reach_mount) simp
  have "step (mount 0 0 0) PlayPause (commit 7 8 (handleTimelinePlayPause (mount 0 0 0)))"
    by (rule step_playpause) simp
  from play_pause_toggle [OF r this] show ?thesis by (simp add: player_eval)
qed

text \<open>
  Adding the first clip starts playback: when the timeline
  is empty and the application is paused, \<open>Add to Timeline\<close> followed by the commit
  leaves the application playing with one pending frame request and one clip that
  starts at 0.
\<close>

theorem first_clip_starts_playback:
  assumes "reachable st" and "timelineClips st = []" and "\<not> isVideoPlaying st"
  shows "isVideoPlaying (commit t0 t1 (addToTimeline m now st)) \<and>
         pendingFrames (commit t0 t1 (addToTimeline m now st)) = [nextFrameId st] \<and>
         map startTime (timelineClips (commit t0 t1 (addToTimeline m now st))) = [0]"
  using first_add_commit [OF reachable_clock_inv [OF assms(1)] assms(3,2), of t0 t1 m now] assms(2)
  by simp

theorem first_clip_starts_playback_witness:
  "isVideoPlaying (commit 9 9 (addToTimeline (demo_media ''a'' 5 1) 2 (mount 0 0 0)))"
proof -
  have r: "reachable (mount 0 0 0)" by (rule reach_mount) simp
  from first_clip_starts_playback [OF r, of 9 9 "demo_media ''a'' 5 1" 2] show ?thesis
    by (simp add: player_eval)
qed


end
