(* ===== verification/Export.thy ===== *)
theory Export
  imports CF_Prelude
begin

text \<open>
  The render pipeline of the main process (\<open>src/public/electron.js\<close>): the handlers
  of the channels \<open>export-timeline\<close> (lines 484--537) and \<open>trim-video\<close> (lines
  460--482). The state is the part of the main process these handlers touch: the file
  system (a map from paths to contents), the media-engine commands that are running,
  the messages sent to the renderer, the promises that are settled, and the console
  log. A handler call is a function of the state; the events the engine emits later
  (\<open>progress\<close>, \<open>end\<close>, \<open>error\<close>) are the steps of an inductive relation. The media
  engine itself is outside the model: a command is the list of builder calls the
  handler makes, and the reader of the manifest (\<open>parse_manifest\<close>) is written from the
  documented format of the engine's concat input. The lemmas show that the manifest
  lists the sources in clip order and reads back as the normalised paths, what happens
  for a clip without a path, that the manifest is removed on both exits, that progress
  values are forwarded as they come, and that nothing prevents a second export while
  one is running.
\<close>

section \<open>Data\<close>

type_synonym path = string
type_synonym files = "path \<rightharpoonup> string"

text \<open>A clip as the handler receives it: only \<open>clip.media?.path\<close> and \<open>clip.path\<close>
  are read.\<close>

record ipc_media =
  im_path :: "string option"

record ipc_clip =
  ic_media :: "ipc_media option"
  ic_path :: "string option"

datatype outcome = Resolved string | Rejected js_error

text \<open>The builder calls on a media-engine command, in the order the handler makes them.\<close>

datatype ffmpeg_call =
    Input string
  | InputOptions "string list"
  | OutputOptions "string list"
  | Output string
  | SetStartTime real
  | SetDuration real
  | VideoCodec string
  | AudioCodec string

datatype job_kind = ExportJob | TrimJob

record job =
  job_id :: nat
  kind :: job_kind
  concatFile :: "path option"
  outputPath :: path
  command :: "ffmpeg_call list"

datatype log_entry = Warn string | Error string

record main_state =
  fs :: files
  jobs :: "job list"
  next_job :: nat
  sent :: "(string \<times> real option) list"
  settled :: "(nat \<times> outcome) list"
  console :: "log_entry list"

record export_args =
  clips :: "ipc_clip list"
  arg_outputPath :: path
  resolution :: "string option"

record trim_args =
  inputPath :: path
  trim_outputPath :: path
  trim_startTime :: real
  trim_duration :: real

section \<open>The manifest\<close>

definition filePath :: "ipc_clip \<Rightarrow> string option" where
  "filePath c = or_str (case ic_media c of None \<Rightarrow> None | Some m \<Rightarrow> im_path m) (ic_path c)"

definition normalize_sep :: "string \<Rightarrow> string" where
  "normalize_sep p = replace_all (CHR 0x5C) (CHR ''/'') p"

definition quoted :: "string \<Rightarrow> string" where
  "quoted p = ''file '' @ CHR 0x27 # p @ [CHR 0x27]"

text \<open>One line of the manifest; \<open>filePath.replace\<close> on \<open>undefined\<close> throws a
  \<open>TypeError\<close>.\<close>

definition concat_line :: "ipc_clip \<Rightarrow> js_error + string" where
  "concat_line c =
     (case filePath c of None \<Rightarrow> Inl TypeError | Some p \<Rightarrow> Inr (quoted (normalize_sep p)))"

text \<open>\<open>clips.map\<close> with a callback that may throw: the first failing clip ends it.\<close>

definition concat_lines :: "ipc_clip list \<Rightarrow> js_error + string list" where
  "concat_lines cs = map_throw concat_line cs"

definition concatContent :: "ipc_clip list \<Rightarrow> js_error + string" where
  "concatContent cs =
     (case concat_lines cs of Inl e \<Rightarrow> Inl e | Inr ls \<Rightarrow> Inr (join [CHR 0x0A] ls))"

definition concat_name :: "path \<Rightarrow> millis \<Rightarrow> path" where
  "concat_name tmp now = tmp @ ''/'' @ ''concat_'' @ toString now @ ''.txt''"

section \<open>The file system\<close>

datatype fs_result = Written | WriteFails string

definition writeFileSync :: "path \<Rightarrow> string \<Rightarrow> fs_result \<Rightarrow> files \<Rightarrow> js_error + files" where
  "writeFileSync p content r f =
     (case r of Written \<Rightarrow> Inr (f(p \<mapsto> content)) | WriteFails msg \<Rightarrow> Inl (FsError msg))"

definition unlinkSync :: "path \<Rightarrow> files \<Rightarrow> js_error + files" where
  "unlinkSync p f = (if p \<in> dom f then Inr (f(p := None)) else Inl (FsError ''ENOENT''))"

section \<open>The handlers\<close>

definition export_command :: "path \<Rightarrow> path \<Rightarrow> string option \<Rightarrow> ffmpeg_call list" where
  "export_command manifest out res =
     [Input manifest,
      InputOptions [''-f concat'', ''-safe 0''],
      OutputOptions [''-c:v libx264'', ''-preset fast'', ''-crf 23'',
        ''-s '' @ (case res of None \<Rightarrow> ''1920x1080'' | Some r \<Rightarrow> r),
        ''-c:a aac'', ''-movflags +faststart''],
      Output out]"

definition trim_command :: "trim_args \<Rightarrow> ffmpeg_call list" where
  "trim_command a =
     [Input (inputPath a), SetStartTime (trim_startTime a), SetDuration (trim_duration a),
      VideoCodec ''copy'', AudioCodec ''copy'', Output (trim_outputPath a)]"

definition spawn :: "job_kind \<Rightarrow> path option \<Rightarrow> path \<Rightarrow> ffmpeg_call list \<Rightarrow> main_state \<Rightarrow> main_state" where
  "spawn k manifest out cmd st =
     st\<lparr>jobs := jobs st @
          [\<lparr>job_id = next_job st, kind = k, concatFile = manifest, outputPath = out,
            command = cmd\<rparr>],
        next_job := Suc (next_job st)\<rparr>"

text \<open>
  \<open>export-timeline\<close>, up to the point where the promise is returned. \<open>tmp\<close> is
  \<open>app.getPath('temp')\<close>, \<open>now\<close> is \<open>Date.now()\<close>, \<open>w\<close> says whether the write
  succeeds. An exception inside the \<open>try\<close> is logged and thrown again: the call is
  rejected and no engine command is started.
\<close>

definition exportTimeline ::
  "path \<Rightarrow> millis \<Rightarrow> fs_result \<Rightarrow> export_args \<Rightarrow> main_state \<Rightarrow> main_state \<times> (js_error + nat)" where
  "exportTimeline tmp now w a st =
     (let manifest = concat_name tmp now in
      case concatContent (clips a) of
        Inl e \<Rightarrow> (st\<lparr>console := console st @ [Error ''Error exporting timeline:'']\<rparr>, Inl e)
      | Inr content \<Rightarrow>
          (case writeFileSync manifest content w (fs st) of
             Inl e \<Rightarrow> (st\<lparr>console := console st @ [Error ''Error exporting timeline:'']\<rparr>, Inl e)
           | Inr f \<Rightarrow>
               (spawn ExportJob (Some manifest) (arg_outputPath a)
                  (export_command manifest (arg_outputPath a) (resolution a))
                  (st\<lparr>fs := f\<rparr>),
                Inr (next_job st))))"

definition trimVideo :: "trim_args \<Rightarrow> main_state \<Rightarrow> main_state \<times> (js_error + nat)" where
  "trimVideo a st = (spawn TrimJob None (trim_outputPath a) (trim_command a) st, Inr (next_job st))"

section \<open>Events of a running command\<close>

definition progress_channel :: "job_kind \<Rightarrow> string" where
  "progress_channel k = (case k of ExportJob \<Rightarrow> ''export-progress'' | TrimJob \<Rightarrow> ''trim-progress'')"

text \<open>\<open>progress\<close>: the percentage is sent on when the sender exists and is not
  destroyed (\<open>alive\<close>).\<close>

definition on_progress :: "job \<Rightarrow> real option \<Rightarrow> bool \<Rightarrow> main_state \<Rightarrow> main_state" where
  "on_progress j percent alive st =
     (if alive then st\<lparr>sent := sent st @ [(progress_channel (kind j), percent)]\<rparr> else st)"

text \<open>The manifest is removed; a failing removal is a warning and nothing else.\<close>

definition remove_manifest :: "job \<Rightarrow> main_state \<Rightarrow> main_state" where
  "remove_manifest j st =
     (case concatFile j of
        None \<Rightarrow> st
      | Some p \<Rightarrow>
          (case unlinkSync p (fs st) of
             Inr f \<Rightarrow> st\<lparr>fs := f\<rparr>
           | Inl e \<Rightarrow> st\<lparr>console := console st @ [Warn ''Could not delete concat file:'']\<rparr>))"

definition settle :: "job \<Rightarrow> outcome \<Rightarrow> main_state \<Rightarrow> main_state" where
  "settle j r st =
     st\<lparr>jobs := filter (\<lambda>x. job_id x \<noteq> job_id j) (jobs st),
        settled := settled st @ [(job_id j, r)]\<rparr>"

definition on_end :: "job \<Rightarrow> main_state \<Rightarrow> main_state" where
  "on_end j st = settle j (Resolved (outputPath j)) (remove_manifest j st)"

definition on_error :: "job \<Rightarrow> string \<Rightarrow> main_state \<Rightarrow> main_state" where
  "on_error j msg st = settle j (Rejected (EngineError msg)) (remove_manifest j st)"

datatype engine_event =
    Progress nat "real option" bool
  | End nat
  | Failed nat string

inductive engine_step :: "main_state \<Rightarrow> engine_event \<Rightarrow> main_state \<Rightarrow> bool" where
  ev_progress: "j \<in> set (jobs st) \<Longrightarrow>
     engine_step st (Progress (job_id j) percent alive) (on_progress j percent alive st)"
| ev_end: "j \<in> set (jobs st) \<Longrightarrow> engine_step st (End (job_id j)) (on_end j st)"
| ev_failed: "j \<in> set (jobs st) \<Longrightarrow> engine_step st (Failed (job_id j) msg) (on_error j msg st)"

text \<open>The same step as a function: the event is for the first running command with
  that identifier; \<open>None\<close> when there is none.\<close>

definition find_job :: "nat \<Rightarrow> main_state \<Rightarrow> job option" where
  "find_job i st = List.find (\<lambda>j. job_id j = i) (jobs st)"

primrec engine_fire :: "engine_event \<Rightarrow> main_state \<Rightarrow> main_state option" where
  "engine_fire (Progress i percent alive) st =
     map_option (\<lambda>j. on_progress j percent alive st) (find_job i st)"
| "engine_fire (End i) st = map_option (\<lambda>j. on_end j st) (find_job i st)"
| "engine_fire (Failed i msg) st = map_option (\<lambda>j. on_error j msg st) (find_job i st)"

definition engine_run :: "engine_event list \<Rightarrow> main_state \<Rightarrow> main_state option" where
  "engine_run = run_opt engine_fire"

definition init_main :: "files \<Rightarrow> main_state" where
  "init_main f = \<lparr>fs = f, jobs = [], next_job = 0, sent = [], settled = [], console = []\<rparr>"

section \<open>Specification: reading a manifest, well-formed states\<close>

text \<open>
  The reader of the engine's concat input, as far as the handler relies on it: one
  entry per non-empty line, of the form \<open>file '...'\<close>, where the text between the
  quotes holds no quote (a quote ends the quoted text).
\<close>

definition parse_line :: "string \<Rightarrow> string option" where
  "parse_line l =
     (if prefix (''file '' @ [CHR 0x27]) l \<and> 7 \<le> length l \<and> last l = CHR 0x27
         \<and> CHR 0x27 \<notin> set (butlast (drop 6 l))
      then Some (butlast (drop 6 l)) else None)"

primrec those_lines :: "string list \<Rightarrow> string list option" where
  "those_lines [] = Some []"
| "those_lines (l # ls) =
     (case parse_line l of
        None \<Rightarrow> None
      | Some p \<Rightarrow> map_option ((#) p) (those_lines ls))"

definition parse_manifest :: "string \<Rightarrow> string list option" where
  "parse_manifest content = those_lines (filter (\<lambda>l. l \<noteq> []) (split_on (CHR 0x0A) content))"

definition plain_path :: "string \<Rightarrow> bool" where
  "plain_path p \<longleftrightarrow> CHR 0x27 \<notin> set p \<and> CHR 0x0A \<notin> set p"

text \<open>
  Handler calls and engine events together are the steps of the main process. The
  identifiers handed out so far are those of the running commands and of the settled
  promises; \<open>main_inv\<close> says that no identifier is in both or twice in one, and that
  they are exactly the numbers below \<open>next_job\<close>.
\<close>

datatype main_event =
    InvokeExport path millis fs_result export_args
  | InvokeTrim trim_args
  | Engine engine_event

inductive main_step :: "main_state \<Rightarrow> main_event \<Rightarrow> main_state \<Rightarrow> bool" where
  step_export: "main_step st (InvokeExport tmp now w a) (fst (exportTimeline tmp now w a st))"
| step_trim: "main_step st (InvokeTrim a) (fst (trimVideo a st))"
| step_engine: "engine_step st e st' \<Longrightarrow> main_step st (Engine e) st'"

inductive main_reachable :: "main_state \<Rightarrow> bool" where
  main_init: "main_reachable (init_main f)"
| main_next: "main_reachable st \<Longrightarrow> main_step st e st' \<Longrightarrow> main_reachable st'"

definition ids :: "main_state \<Rightarrow> nat list" where
  "ids st = map job_id (jobs st) @ map fst (settled st)"

definition main_inv :: "main_state \<Rightarrow> bool" where
  "main_inv st \<longleftrightarrow> distinct (ids st) \<and> set (ids st) = {..<next_job st}"

primrec progress_of :: "nat \<Rightarrow> engine_event \<Rightarrow> bool" where
  "progress_of i (Progress k percent alive) = (k = i)"
| "progress_of i (End k) = False"
| "progress_of i (Failed k msg) = False"

primrec forwarded :: "engine_event \<Rightarrow> real option list" where
  "forwarded (Progress k percent alive) = (if alive then [percent] else [])"
| "forwarded (End k) = []"
| "forwarded (Failed k msg) = []"

text \<open>The events that end a command.\<close>

primrec final_event :: "engine_event \<Rightarrow> bool" where
  "final_event (Progress i percent alive) = False"
| "final_event (End i) = True"
| "final_event (Failed i msg) = True"

section \<open>Lemmas: the manifest\<close>

lemmas export_defs =
  filePath_def normalize_sep_def quoted_def concat_line_def concatContent_def concat_name_def
  writeFileSync_def unlinkSync_def export_command_def trim_command_def spawn_def
  exportTimeline_def trimVideo_def progress_channel_def on_progress_def remove_manifest_def
  settle_def on_end_def on_error_def find_job_def init_main_def

lemma quoted_nonempty [simp]: "quoted p \<noteq> []"
  by (simp add: quoted_def)

lemma newline_quoted [simp]: "CHR 0x0A \<in> set (quoted p) \<longleftrightarrow> CHR 0x0A \<in> set p"
  by (auto simp: quoted_def)

lemma parse_line_quoted:
  "parse_line (quoted p) = (if CHR 0x27 \<in> set p then None else Some p)"
  by (simp add: parse_line_def quoted_def)

lemma plain_path_normalize: "plain_path p \<Longrightarrow> plain_path (normalize_sep p)"
  using replace_all_set [of "CHR 0x5C" "CHR ''/''" p]
  by (auto simp: plain_path_def normalize_sep_def)

lemma normalize_sep_no_backslash: "CHR 0x5C \<notin> set (normalize_sep p)"
  by (simp add: normalize_sep_def replace_all_absent)

lemma normalize_sep_idem [simp]: "normalize_sep (normalize_sep p) = normalize_sep p"
  by (simp add: normalize_sep_def replace_all_idem)

lemma concat_line_cases:
  "concat_line c = Inl TypeError \<and> filePath c = None \<or>
   (\<exists>p. filePath c = Some p \<and> concat_line c = Inr (quoted (normalize_sep p)))"
  by (cases "filePath c") (simp_all add: concat_line_def)

lemma concat_lines_Inr_iff:
  "concat_lines cs = Inr ls \<longleftrightarrow> map concat_line cs = map Inr ls"
  by (simp add: concat_lines_def map_throw_Inr_iff)

lemma concat_lines_paths:
  assumes "map filePath cs = map Some ps"
  shows "concat_lines cs = Inr (map (\<lambda>p. quoted (normalize_sep p)) ps)"
proof -
  from assms have "map concat_line cs = map Inr (map (\<lambda>p. quoted (normalize_sep p)) ps)"
    by (induction cs arbitrary: ps) (auto simp: concat_line_def)
  then show ?thesis by (simp add: concat_lines_Inr_iff)
qed

lemma concat_lines_Inl_iff:
  "concat_lines cs = Inl e \<longleftrightarrow> e = TypeError \<and> (\<exists>c \<in> set cs. filePath c = None)"
proof
  assume "concat_lines cs = Inl e"
  then obtain c where "c \<in> set cs" "concat_line c = Inl e"
    unfolding concat_lines_def by (blast dest: map_throw_InlD)
  then show "e = TypeError \<and> (\<exists>c \<in> set cs. filePath c = None)"
    using concat_line_cases [of c] by auto
next
  assume "e = TypeError \<and> (\<exists>c \<in> set cs. filePath c = None)"
  then obtain c where c: "c \<in> set cs" "concat_line c = Inl TypeError" and e: "e = TypeError"
    by (auto simp: concat_line_def)
  from map_throw_some_Inl [of c cs concat_line TypeError] c
  obtain e' where e': "concat_lines cs = Inl e'"
    by (auto simp: concat_lines_def)
  then obtain c' where "c' \<in> set cs" "concat_line c' = Inl e'"
    unfolding concat_lines_def by (blast dest: map_throw_InlD)
  then have "e' = TypeError" using concat_line_cases [of c'] by auto
  with e e' show "concat_lines cs = Inl e" by simp
qed

lemma concatContent_Inl_iff:
  "concatContent cs = Inl e \<longleftrightarrow> e = TypeError \<and> (\<exists>c \<in> set cs. filePath c = None)"
  unfolding concat_lines_Inl_iff [symmetric]
  by (auto simp: concatContent_def split: sum.splits)

lemma those_lines_quoted:
  "list_all (\<lambda>p. CHR 0x27 \<notin> set p) ps \<Longrightarrow> those_lines (map quoted ps) = Some ps"
  by (induction ps) (simp_all add: parse_line_quoted)

lemma parse_manifest_join:
  assumes "list_all plain_path ps"
  shows "parse_manifest (join [CHR 0x0A] (map quoted ps)) = Some ps"
proof (cases "ps = []")
  case True
  then show ?thesis by (simp add: parse_manifest_def)
next
  case False
  from assms have nl: "\<forall>l \<in> set (map quoted ps). CHR 0x0A \<notin> set l"
    by (auto simp: list_all_iff plain_path_def)
  from assms have q: "list_all (\<lambda>p. CHR 0x27 \<notin> set p) ps"
    by (auto simp: list_all_iff plain_path_def)
  from False nl have "split_on (CHR 0x0A) (join [CHR 0x0A] (map quoted ps)) = map quoted ps"
    by (intro split_on_join) simp_all
  moreover have "filter (\<lambda>l. l \<noteq> []) (map quoted ps) = map quoted ps"
    by (simp add: filter_map o_def)
  ultimately show ?thesis using q by (simp add: parse_manifest_def those_lines_quoted)
qed

section \<open>Lemmas: handlers and engine events\<close>

lemma spawn_fields [simp]:
  "jobs (spawn k m out cmd st) =
     jobs st @ [\<lparr>job_id = next_job st, kind = k, concatFile = m, outputPath = out, command = cmd\<rparr>]"
  "next_job (spawn k m out cmd st) = Suc (next_job st)"
  "fs (spawn k m out cmd st) = fs st"
  "sent (spawn k m out cmd st) = sent st"
  "settled (spawn k m out cmd st) = settled st"
  "console (spawn k m out cmd st) = console st"
  by (simp_all add: spawn_def)

lemma settle_fields [simp]:
  "jobs (settle j r st) = filter (\<lambda>x. job_id x \<noteq> job_id j) (jobs st)"
  "settled (settle j r st) = settled st @ [(job_id j, r)]"
  "next_job (settle j r st) = next_job st"
  "fs (settle j r st) = fs st"
  "sent (settle j r st) = sent st"
  "console (settle j r st) = console st"
  by (simp_all add: settle_def)

lemma on_progress_fields [simp]:
  "jobs (on_progress j p alive st) = jobs st"
  "settled (on_progress j p alive st) = settled st"
  "next_job (on_progress j p alive st) = next_job st"
  "fs (on_progress j p alive st) = fs st"
  "console (on_progress j p alive st) = console st"
  "sent (on_progress j p alive st) =
     sent st @ (if alive then [(progress_channel (kind j), p)] else [])"
  by (simp_all add: on_progress_def)

lemma remove_manifest_fields [simp]:
  "jobs (remove_manifest j st) = jobs st"
  "settled (remove_manifest j st) = settled st"
  "next_job (remove_manifest j st) = next_job st"
  "sent (remove_manifest j st) = sent st"
  by (simp_all add: remove_manifest_def unlinkSync_def split: option.splits)

lemma remove_manifest_fs:
  "fs (remove_manifest j st) = (case concatFile j of None \<Rightarrow> fs st | Some p \<Rightarrow> (fs st)(p := None))"
  by (auto simp: remove_manifest_def unlinkSync_def split: option.splits)

lemma remove_manifest_console:
  "console (remove_manifest j st) =
     console st @ (case concatFile j of
        None \<Rightarrow> []
      | Some p \<Rightarrow> if p \<in> dom (fs st) then [] else [Warn ''Could not delete concat file:''])"
  by (auto simp: remove_manifest_def unlinkSync_def split: option.splits)

lemma ids_simps [simp]:
  "ids (spawn k m out cmd st) = map job_id (jobs st) @ next_job st # map fst (settled st)"
  "ids (on_progress j p alive st) = ids st"
  "ids (remove_manifest j st) = ids st"
  "ids (st\<lparr>fs := f\<rparr>) = ids st"
  "ids (st\<lparr>console := c\<rparr>) = ids st"
  by (simp_all add: ids_def)

lemma main_inv_init: "main_inv (init_main f)"
  by (simp add: main_inv_def ids_def init_main_def)

lemma main_inv_frame [simp]:
  "main_inv (st\<lparr>fs := f\<rparr>) = main_inv st"
  "main_inv (st\<lparr>console := c\<rparr>) = main_inv st"
  "main_inv (on_progress j p alive st) = main_inv st"
  "main_inv (remove_manifest j st) = main_inv st"
  by (simp_all add: main_inv_def)

lemma main_inv_spawn: "main_inv st \<Longrightarrow> main_inv (spawn k m out cmd st)"
  by (auto simp: main_inv_def ids_def lessThan_Suc)

lemma filter_other_ids:
  assumes "distinct (map job_id js)" and "j \<in> set js"
  shows "mset (map job_id (filter (\<lambda>x. job_id x \<noteq> job_id j) js)) + {#job_id j#}
         = mset (map job_id js)"
  using assms
proof (induction js)
  case Nil
  then show ?case by simp
next
  case (Cons a js)
  show ?case
  proof (cases "a = j")
    case True
    with Cons.prems have "\<forall>x \<in> set js. job_id x \<noteq> job_id j" by (auto simp: image_iff)
    then have "filter (\<lambda>x. job_id x \<noteq> job_id j) js = js" by (simp add: filter_id_conv)
    with True show ?thesis by simp
  next
    case False
    with Cons.prems have "j \<in> set js" "job_id a \<noteq> job_id j" "distinct (map job_id js)"
      by auto
    with Cons.IH show ?thesis by simp
  qed
qed

lemma ids_settle:
  assumes "distinct (map job_id (jobs st))" and "j \<in> set (jobs st)"
  shows "mset (ids (settle j r st)) = mset (ids st)"
  using filter_other_ids [OF assms] by (simp add: ids_def)

lemma main_inv_settle:
  assumes "main_inv st" and "j \<in> set (jobs st)"
  shows "main_inv (settle j r st)"
proof -
  from assms(1) have "distinct (map job_id (jobs st))" by (simp add: main_inv_def ids_def)
  then have m: "mset (ids (settle j r st)) = mset (ids st)" using assms(2) by (rule ids_settle)
  from m have "distinct (ids (settle j r st)) = distinct (ids st)" by (rule mset_eq_imp_distinct_iff)
  moreover from m have "set (ids (settle j r st)) = set (ids st)" by (rule mset_eq_setD)
  ultimately show ?thesis using assms(1) by (simp add: main_inv_def)
qed

lemma exportTimeline_ok:
  assumes "concatContent (clips a) = Inr content"
  shows "exportTimeline tmp now Written a st =
     (spawn ExportJob (Some (concat_name tmp now)) (arg_outputPath a)
        (export_command (concat_name tmp now) (arg_outputPath a) (resolution a))
        (st\<lparr>fs := (fs st)(concat_name tmp now \<mapsto> content)\<rparr>),
      Inr (next_job st))"
  using assms by (simp add: exportTimeline_def writeFileSync_def Let_def)

lemma exportTimeline_no_path:
  assumes "c \<in> set (clips a)" and "filePath c = None"
  shows "exportTimeline tmp now w a st =
     (st\<lparr>console := console st @ [Error ''Error exporting timeline:'']\<rparr>, Inl TypeError)"
proof -
  from assms have "concatContent (clips a) = Inl TypeError"
    by (auto simp: concatContent_Inl_iff)
  then show ?thesis by (simp add: exportTimeline_def Let_def)
qed

lemma exportTimeline_write_fails:
  assumes "concatContent (clips a) = Inr content"
  shows "exportTimeline tmp now (WriteFails msg) a st =
     (st\<lparr>console := console st @ [Error ''Error exporting timeline:'']\<rparr>, Inl (FsError msg))"
  using assms by (simp add: exportTimeline_def writeFileSync_def Let_def)

lemma exportTimeline_Inl_frame:
  assumes "exportTimeline tmp now w a st = (st', Inl e)"
  shows "fs st' = fs st \<and> jobs st' = jobs st \<and> next_job st' = next_job st
     \<and> settled st' = settled st \<and> sent st' = sent st"
  using assms
  by (auto simp: exportTimeline_def writeFileSync_def Let_def split: sum.splits fs_result.splits)

lemma main_inv_exportTimeline [cf_inv]: "main_inv st \<Longrightarrow> main_inv (fst (exportTimeline tmp now w a st))"
  by (auto simp: exportTimeline_def Let_def intro!: main_inv_spawn split: sum.splits)

lemma main_inv_trimVideo [cf_inv]: "main_inv st \<Longrightarrow> main_inv (fst (trimVideo a st))"
  by (simp add: trimVideo_def main_inv_spawn)

lemma main_inv_on_end [cf_inv]: "main_inv st \<Longrightarrow> j \<in> set (jobs st) \<Longrightarrow> main_inv (on_end j st)"
  by (simp add: on_end_def main_inv_settle)

lemma main_inv_on_error [cf_inv]: "main_inv st \<Longrightarrow> j \<in> set (jobs st) \<Longrightarrow> main_inv (on_error j msg st)"
  by (simp add: on_error_def main_inv_settle)

lemma main_inv_engine_step: "engine_step st e st' \<Longrightarrow> main_inv st \<Longrightarrow> main_inv st'"
  by (induction rule: engine_step.induct) (simp_all add: cf_inv)

lemma main_inv_main_step: "main_step st e st' \<Longrightarrow> main_inv st \<Longrightarrow> main_inv st'"
  by (induction rule: main_step.induct)
    (simp_all add: cf_inv main_inv_engine_step)

lemma main_reachable_inv: "main_reachable st \<Longrightarrow> main_inv st"
  by (induction rule: main_reachable.induct) (auto intro: main_inv_init main_inv_main_step)

lemma find_job_SomeD: "find_job i st = Some j \<Longrightarrow> j \<in> set (jobs st) \<and> job_id j = i"
  by (auto simp: find_job_def find_Some_iff)

lemma find_distinct:
  "distinct (map f xs) \<Longrightarrow> x \<in> set xs \<Longrightarrow> List.find (\<lambda>y. f y = f x) xs = Some x"
  by (induction xs) (auto simp: image_iff)

lemma find_job_running:
  "main_inv st \<Longrightarrow> j \<in> set (jobs st) \<Longrightarrow> find_job (job_id j) st = Some j"
  by (simp add: find_job_def main_inv_def ids_def find_distinct)

lemma engine_fire_step: "engine_fire e st = Some st' \<Longrightarrow> engine_step st e st'"
  by (cases e) (auto dest!: find_job_SomeD intro: engine_step.intros)

lemma engine_step_fire: "engine_step st e st' \<Longrightarrow> main_inv st \<Longrightarrow> engine_fire e st = Some st'"
  by (induction rule: engine_step.induct) (simp_all add: find_job_running)

lemma on_end_fields:
  "fs (on_end j st) = (case concatFile j of None \<Rightarrow> fs st | Some p \<Rightarrow> (fs st)(p := None))"
  "jobs (on_end j st) = filter (\<lambda>x. job_id x \<noteq> job_id j) (jobs st)"
  "settled (on_end j st) = settled st @ [(job_id j, Resolved (outputPath j))]"
  "sent (on_end j st) = sent st"
  "next_job (on_end j st) = next_job st"
  by (simp_all add: on_end_def remove_manifest_fs)

lemma on_error_fields:
  "fs (on_error j msg st) = (case concatFile j of None \<Rightarrow> fs st | Some p \<Rightarrow> (fs st)(p := None))"
  "jobs (on_error j msg st) = filter (\<lambda>x. job_id x \<noteq> job_id j) (jobs st)"
  "settled (on_error j msg st) = settled st @ [(job_id j, Rejected (EngineError msg))]"
  "sent (on_error j msg st) = sent st"
  "next_job (on_error j msg st) = next_job st"
  by (simp_all add: on_error_def remove_manifest_fs)

lemma engine_run_simps [simp]:
  "engine_run [] st = Some st"
  "engine_run (e # es) st = (case engine_fire e st of None \<Rightarrow> None | Some st' \<Rightarrow> engine_run es st')"
  by (simp_all add: engine_run_def split: Option.bind_split)

lemma engine_run_append:
  "engine_run (es @ es') st = (case engine_run es st of None \<Rightarrow> None | Some st' \<Rightarrow> engine_run es' st')"
  by (simp add: engine_run_def run_opt_append split: Option.bind_split)

lemma on_progress_eq:
  "on_progress j p alive st =
     st\<lparr>sent := sent st @ map (Pair (progress_channel (kind j))) (forwarded (Progress i p alive))\<rparr>"
  by (simp add: on_progress_def)

lemma engine_run_progress:
  assumes "main_inv st" and "j \<in> set (jobs st)" and "list_all (progress_of (job_id j)) es"
  shows "engine_run es st =
     Some (st\<lparr>sent := sent st @ map (Pair (progress_channel (kind j))) (concat (map forwarded es))\<rparr>)"
  using assms
proof (induction es arbitrary: st)
  case Nil
  then show ?case by simp
next
  case (Cons e es)
  from Cons.prems(3) obtain p alive where e: "e = Progress (job_id j) p alive"
    by (cases e) auto
  let ?st = "on_progress j p alive st"
  let ?chan = "Pair (progress_channel (kind j))"
  from Cons.prems have 1: "engine_fire e st = Some ?st" by (simp add: e find_job_running)
  from Cons.prems have 2: "engine_run es ?st =
     Some (?st\<lparr>sent := sent ?st @ map (Pair (progress_channel (kind j))) (concat (map forwarded es))\<rparr>)"
    by (intro Cons.IH) simp_all
  have 3: "?st\<lparr>sent := sent ?st @ map ?chan (concat (map forwarded es))\<rparr>
      = st\<lparr>sent := sent st @ map ?chan (concat (map forwarded (e # es)))\<rparr>"
    by (simp add: e on_progress_def)
  from 1 2 3 show ?case by simp
qed

lemma running_id_less: 
  assumes "main_inv st" and "j \<in> set (jobs st)"
  shows "job_id j < next_job st"
proof -
  from assms(2) have "job_id j \<in> set (ids st)" by (simp add: ids_def)
  with assms(1) show ?thesis by (simp add: main_inv_def)
qed

lemma settled_id_less: 
  assumes "main_inv st" and "(i, r) \<in> set (settled st)"
  shows "i < next_job st"
proof -
  from assms(2) have "i \<in> set (ids st)" by (force simp: ids_def)
  with assms(1) show ?thesis by (simp add: main_inv_def)
qed

lemma running_ids_below:
  "main_inv st \<Longrightarrow> filter (\<lambda>x. job_id x \<noteq> next_job st) (jobs st) = jobs st"
  by (auto simp: filter_id_conv dest: running_id_less)

lemma init_main_fields [simp]:
  "fs (init_main f) = f" "jobs (init_main f) = []" "next_job (init_main f) = 0"
  "sent (init_main f) = []" "settled (init_main f) = []" "console (init_main f) = []"
  by (simp_all add: init_main_def)

section \<open>Properties\<close>

text \<open>
  Property C4 (roundtrip). When every clip has a path (\<open>clip.media.path\<close>, or
  \<open>clip.path\<close> when that is missing or empty) and no path holds a quote or a line
  break, \<open>export-timeline\<close> builds a manifest, and reading the manifest gives one
  entry per clip, in the order of the clips, each the clip's path with every backslash
  replaced by a slash.
\<close>

theorem manifest_round_trip:
  assumes "map filePath cs = map Some ps" and "list_all plain_path ps"
  shows "\<exists>content. concatContent cs = Inr content
           \<and> parse_manifest content = Some (map normalize_sep ps)"
proof -
  from assms(2) have "list_all plain_path (map normalize_sep ps)"
    by (simp add: list_all_iff plain_path_normalize)
  then have "parse_manifest (join [CHR 0x0A] (map quoted (map normalize_sep ps)))
      = Some (map normalize_sep ps)"
    by (rule parse_manifest_join)
  with concat_lines_paths [OF assms(1)] show ?thesis
    by (simp add: concatContent_def o_def)
qed

theorem manifest_round_trip_witness:
  "\<exists>content.
     concatContent
       [\<lparr>ic_media = Some \<lparr>im_path = Some [CHR ''C'', CHR '':'', CHR 0x5C, CHR ''a'']\<rparr>, ic_path = None\<rparr>,
        \<lparr>ic_media = Some \<lparr>im_path = None\<rparr>, ic_path = Some ''/b''\<rparr>] = Inr content
     \<and> parse_manifest content = Some [''C:/a'', ''/b'']"
  using manifest_round_trip
    [of "[\<lparr>ic_media = Some \<lparr>im_path = Some [CHR ''C'', CHR '':'', CHR 0x5C, CHR ''a'']\<rparr>, ic_path = None\<rparr>,
          \<lparr>ic_media = Some \<lparr>im_path = None\<rparr>, ic_path = Some ''/b''\<rparr>]"
        "[[CHR ''C'', CHR '':'', CHR 0x5C, CHR ''a''], ''/b'']"]
  by (simp add: filePath_def plain_path_def normalize_sep_def replace_all_def)

text \<open>
  Property C16 (error). A clip with neither \<open>media.path\<close> nor \<open>path\<close> makes
  \<open>export-timeline\<close> fail with a \<open>TypeError\<close> before anything is written: the file
  system, the running commands and the messages sent are as before, and the only trace
  is one line on the error console.
\<close>

theorem missing_path_rejected:
  assumes "c \<in> set (clips a)" and "filePath c = None"
  shows "snd (exportTimeline tmp now w a st) = Inl TypeError
     \<and> fst (exportTimeline tmp now w a st)
         = st\<lparr>console := console st @ [Error ''Error exporting timeline:'']\<rparr>"
  using exportTimeline_no_path [OF assms] by simp

theorem missing_path_rejected_witness:
  "snd (exportTimeline ''/tmp'' 7 Written
      \<lparr>clips = [\<lparr>ic_media = Some \<lparr>im_path = None\<rparr>, ic_path = None\<rparr>],
        arg_outputPath = ''out.mp4'', resolution = None\<rparr> (init_main Map.empty)) = Inl TypeError
   \<and> fst (exportTimeline ''/tmp'' 7 Written
      \<lparr>clips = [\<lparr>ic_media = Some \<lparr>im_path = None\<rparr>, ic_path = None\<rparr>],
        arg_outputPath = ''out.mp4'', resolution = None\<rparr> (init_main Map.empty))
     = (init_main Map.empty)\<lparr>console := [Error ''Error exporting timeline:'']\<rparr>"
  using missing_path_rejected
    [of "\<lparr>ic_media = Some \<lparr>im_path = None\<rparr>, ic_path = None\<rparr>"
        "\<lparr>clips = [\<lparr>ic_media = Some \<lparr>im_path = None\<rparr>, ic_path = None\<rparr>],
          arg_outputPath = ''out.mp4'', resolution = None\<rparr>"
        "''/tmp''" 7 Written "init_main Map.empty"]
  by (simp add: filePath_def init_main_def)

text \<open>
  Property C6 (safety). An export that starts in a well-formed state, receives any
  number of progress events and then ends or fails leaves no manifest behind: the file
  system is the one before the call without the manifest's path, the command is no
  longer running, its promise is settled (resolved with the output path after
  \<open>end\<close>, rejected after \<open>error\<close>), and no warning is logged.
\<close>

theorem manifest_removed:
  assumes "main_inv st" and "concatContent (clips a) = Inr content"
    and "list_all (progress_of (next_job st)) es"
    and "final = End (next_job st) \<and> r = Resolved (arg_outputPath a)
       \<or> final = Failed (next_job st) msg \<and> r = Rejected (EngineError msg)"
  shows "\<exists>st'. engine_run (es @ [final]) (fst (exportTimeline tmp now Written a st)) = Some st'
     \<and> fs st' = (fs st)(concat_name tmp now := None)
     \<and> jobs st' = jobs st
     \<and> settled st' = settled st @ [(next_job st, r)]
     \<and> console st' = console st"
proof -
  let ?m = "concat_name tmp now"
  let ?j = "\<lparr>job_id = next_job st, kind = ExportJob, concatFile = Some ?m,
    outputPath = arg_outputPath a,
    command = export_command ?m (arg_outputPath a) (resolution a)\<rparr>"
  let ?st1 = "fst (exportTimeline tmp now Written a st)"
  have st1: "?st1 = spawn ExportJob (Some ?m) (arg_outputPath a)
      (export_command ?m (arg_outputPath a) (resolution a)) (st\<lparr>fs := (fs st)(?m \<mapsto> content)\<rparr>)"
    by (simp add: exportTimeline_ok [OF assms(2)])
  have inv1: "main_inv ?st1" using assms(1) by (rule main_inv_exportTimeline)
  have j: "?j \<in> set (jobs ?st1)" by (simp add: st1)
  let ?st2 = "?st1\<lparr>sent := sent ?st1 @ map (Pair (progress_channel (kind ?j))) (concat (map forwarded es))\<rparr>"
  from assms(3) have "engine_run es ?st1 = Some ?st2"
    by (intro engine_run_progress [OF inv1 j]) simp
  moreover have "find_job (next_job st) ?st2 = Some ?j"
    using find_job_running [OF inv1 j] by (simp add: find_job_def)
  ultimately have run: "engine_run (es @ [final]) ?st1 =
      Some (if final = End (next_job st) then on_end ?j ?st2 else on_error ?j msg ?st2)"
    using assms(4) by (auto simp: engine_run_append)
  from assms(1,4) show ?thesis unfolding run
    by (auto simp: st1 on_end_def on_error_def remove_manifest_fs remove_manifest_console
        running_ids_below)
qed

theorem manifest_removed_witness:
  "\<exists>st'. engine_run ([Progress 0 (Some 40) True] @ [Failed 0 ''no such file''])
       (fst (exportTimeline ''/tmp'' 7 Written
          \<lparr>clips = [\<lparr>ic_media = None, ic_path = Some ''a.mp4''\<rparr>],
            arg_outputPath = ''out.mp4'', resolution = None\<rparr> (init_main Map.empty))) = Some st'
     \<and> fs st' = Map.empty
     \<and> jobs st' = []
     \<and> settled st' = [(0, Rejected (EngineError ''no such file''))]
     \<and> console st' = []"
  using manifest_removed
    [of "init_main Map.empty"
        "\<lparr>clips = [\<lparr>ic_media = None, ic_path = Some ''a.mp4''\<rparr>],
          arg_outputPath = ''out.mp4'', resolution = None\<rparr>"
        "quoted ''a.mp4''" "[Progress 0 (Some 40) True]" "Failed 0 ''no such file''"
        "Rejected (EngineError ''no such file'')" "''no such file''" "''/tmp''" 7]
  by (simp add: main_inv_init concatContent_def concat_lines_def concat_line_def filePath_def normalize_sep_def
      replace_all_def)



text \<open>
  Property C35 (functional). While a command runs, the percentages of its progress
  events are sent to the renderer unchanged and in order, on the channel of its kind,
  except those that arrive when the sender is gone; nothing is added, so the last
  value sent is whatever the engine reported last.
\<close>

theorem progress_forwarded:
  assumes "main_inv st" and "j \<in> set (jobs st)" and "list_all (progress_of (job_id j)) es"
  shows "\<exists>st'. engine_run es st = Some st'
     \<and> sent st' = sent st @ map (Pair (progress_channel (kind j))) (concat (map forwarded es))
     \<and> fs st' = fs st \<and> jobs st' = jobs st \<and> settled st' = settled st"
  using engine_run_progress [OF assms] by simp

theorem progress_forwarded_witness:
  "\<exists>st'. engine_run [Progress 0 (Some 10) True, Progress 0 None True, Progress 0 (Some 99) False,
        Progress 0 (Some 42) True]
       (fst (trimVideo \<lparr>inputPath = ''a.mp4'', trim_outputPath = ''b.mp4'',
          trim_startTime = 1, trim_duration = 2\<rparr> (init_main Map.empty))) = Some st'
     \<and> sent st' = [(''trim-progress'', Some 10), (''trim-progress'', None), (''trim-progress'', Some 42)]"
proof -
  let ?a = "\<lparr>inputPath = ''a.mp4'', trim_outputPath = ''b.mp4'',
    trim_startTime = 1, trim_duration = 2\<rparr>"
  let ?st = "fst (trimVideo ?a (init_main Map.empty))"
  let ?j = "\<lparr>job_id = 0, kind = TrimJob, concatFile = None, outputPath = ''b.mp4'',
    command = trim_command ?a\<rparr>"
  let ?es = "[Progress 0 (Some 10) True, Progress 0 None True, Progress 0 (Some 99) False,
    Progress 0 (Some 42) True]"
  have inv: "main_inv ?st" by (rule main_inv_trimVideo [OF main_inv_init])
  have j: "?j \<in> set (jobs ?st)" by (simp add: trimVideo_def)
  have es: "list_all (progress_of (job_id ?j)) ?es" by simp
  from progress_forwarded [OF inv j es] obtain st' where run: "engine_run ?es ?st = Some st'"
    and s: "sent st' = sent ?st @ map (Pair (progress_channel (kind ?j))) (concat (map forwarded ?es))"
    by blast
  from s have "sent st' =
      [(''trim-progress'', Some 10), (''trim-progress'', None), (''trim-progress'', Some 42)]"
    by (simp add: progress_channel_def trimVideo_def)
  with run show ?thesis by blast
qed

text \<open>
  Property C36 (safety). A second export is accepted while one is running, and two
  exports started in the same millisecond share one manifest: both commands run, the
  file holds the clips of the second call only, and when the first command ends it
  removes the file the second one was given.
\<close>

theorem concurrent_exports_share_manifest:
  "\<exists>st j1 j2. main_reachable st \<and> jobs st = [j1, j2] \<and> job_id j1 \<noteq> job_id j2
     \<and> concatFile j1 = Some ''/tmp/concat_7.txt'' \<and> concatFile j2 = Some ''/tmp/concat_7.txt''
     \<and> fs st ''/tmp/concat_7.txt'' = Some (quoted ''b.mp4'')
     \<and> fs (on_end j1 st) ''/tmp/concat_7.txt'' = None
     \<and> j2 \<in> set (jobs (on_end j1 st))"
proof -
  let ?a = "\<lparr>clips = [\<lparr>ic_media = None, ic_path = Some ''a.mp4''\<rparr>],
    arg_outputPath = ''out1.mp4'', resolution = None\<rparr>"
  let ?b = "\<lparr>clips = [\<lparr>ic_media = None, ic_path = Some ''b.mp4''\<rparr>],
    arg_outputPath = ''out2.mp4'', resolution = None\<rparr>"
  let ?st1 = "fst (exportTimeline ''/tmp'' 7 Written ?a (init_main Map.empty))"
  let ?st2 = "fst (exportTimeline ''/tmp'' 7 Written ?b ?st1)"
  have a: "concatContent (clips ?a) = Inr (quoted ''a.mp4'')"
    and b: "concatContent (clips ?b) = Inr (quoted ''b.mp4'')"
    by (simp_all add: concatContent_def concat_lines_def concat_line_def filePath_def normalize_sep_def
        replace_all_def)
  have n: "concat_name ''/tmp'' 7 = ''/tmp/concat_7.txt''"
    by (simp add: concat_name_def toString_eval)
  have "main_reachable ?st2"
    by (intro main_next [OF _ step_export] main_init)
  moreover have "jobs ?st2 =
     [\<lparr>job_id = 0, kind = ExportJob, concatFile = Some ''/tmp/concat_7.txt'', outputPath = ''out1.mp4'',
        command = export_command ''/tmp/concat_7.txt'' ''out1.mp4'' None\<rparr>,
      \<lparr>job_id = 1, kind = ExportJob, concatFile = Some ''/tmp/concat_7.txt'', outputPath = ''out2.mp4'',
        command = export_command ''/tmp/concat_7.txt'' ''out2.mp4'' None\<rparr>]"
    by (simp add: exportTimeline_ok [OF a] exportTimeline_ok [OF b] n)
  moreover have "fs ?st2 ''/tmp/concat_7.txt'' = Some (quoted ''b.mp4'')"
    by (simp add: exportTimeline_ok [OF a] exportTimeline_ok [OF b] n)
  ultimately show ?thesis
    by (intro exI [of _ ?st2]) (simp add: on_end_fields)
qed

text \<open>
  Paths are written between quotes without escaping: for a path
  that holds a quote the manifest is written, but it is not a list of quoted entries
  any more, and a path that holds a line break gives two lines for one clip.
\<close>

theorem quote_breaks_manifest:
  "concatContent [\<lparr>ic_media = None, ic_path = Some [CHR ''a'', CHR 0x27, CHR ''b'']\<rparr>]
     = Inr (quoted [CHR ''a'', CHR 0x27, CHR ''b''])
   \<and> parse_manifest (quoted [CHR ''a'', CHR 0x27, CHR ''b'']) = None
   \<and> concatContent [\<lparr>ic_media = None, ic_path = Some [CHR ''a'', CHR 0x0A, CHR ''b'']\<rparr>]
     = Inr (quoted [CHR ''a'', CHR 0x0A, CHR ''b''])
   \<and> length (split_on (CHR 0x0A) (quoted [CHR ''a'', CHR 0x0A, CHR ''b''])) = 2"
  by (simp add: concatContent_def concat_lines_def concat_line_def filePath_def normalize_sep_def replace_all_def
      parse_manifest_def parse_line_def quoted_def)

lemma length_filter_other_ids:
  assumes "distinct (map job_id js)" and "j \<in> set js"
  shows "Suc (length (filter (\<lambda>x. job_id x \<noteq> job_id j) js)) = length js"
  using arg_cong [OF filter_other_ids [OF assms], of size] by (simp flip: mset_filter)

lemma engine_fire_jobs:
  assumes "main_inv st" and "engine_fire e st = Some st'"
  shows "main_inv st' \<and> length (jobs st') + (if final_event e then 1 else 0) = length (jobs st)"
proof -
  from assms(2) have step: "engine_step st e st'" by (rule engine_fire_step)
  then have inv: "main_inv st'" using assms(1) by (rule main_inv_engine_step)
  from assms(1) have d: "distinct (map job_id (jobs st))" by (simp add: main_inv_def ids_def)
  from step d have "length (jobs st') + (if final_event e then 1 else 0) = length (jobs st)"
    by (induction rule: engine_step.induct)
      (simp_all add: on_end_fields on_error_fields length_filter_other_ids)
  with inv show ?thesis by simp
qed



end
