(* ===== verification/Capture.thy ===== *)
theory Capture
  imports CF_Prelude "HOL-Library.Word"
begin

text \<open>
  The screen recorder (\<open>src/src/components/ScreenRecorder.js\<close>) and the two handlers
  of the main process made for it (\<open>get-screen-sources\<close>, \<open>start-screen-recording\<close> in
  \<open>src/public/electron.js\<close>). The state is the
  component's React state and refs together with the browser objects they point to:
  the capture streams, the \<open>MediaRecorder\<close> objects, the interval timers and the object
  URLs. Each handler of the component is a function on this state; the \<open>await\<close> in
  \<open>startRecording\<close> splits it into the request and its continuation. The events of the
  browser (a capture request resolves or is rejected, a recorder delivers data, a
  recorder fires \<open>stop\<close>, a timer fires) and the clicks the rendered buttons allow are
  the steps of an inductive relation. A recorder delivers data while it records and
  once more after \<open>stop()\<close>, and fires \<open>stop\<close> after that; this protocol is taken from
  the MediaRecorder interface the component relies on. The lemmas show what a session
  delivers and releases, which facts hold in every reachable state, and which
  resources are left behind when a start fails or is requested twice.
\<close>

section \<open>Data\<close>

type_synonym byte = "8 word"
type_synonym blob = "byte list"

record source =
  src_id :: string
  src_name :: string
  src_thumbnail :: string
  src_type :: string

text \<open>A capture source as the desktop capturer of the main process lists it.\<close>

record desktop_source =
  ds_id :: string
  ds_name :: string
  ds_thumbnail :: string

record stream =
  stream_source :: string
  live :: bool

datatype rec_phase = Recording | Flushing | Drained | Stopped

record recorder =
  rec_stream :: nat
  phase :: rec_phase

text \<open>The phases in the order a recorder goes through them.\<close>

fun phase_rank :: "rec_phase \<Rightarrow> nat" where
  "phase_rank Recording = 0"
| "phase_rank Flushing = 1"
| "phase_rank Drained = 2"
| "phase_rank Stopped = 3"

instantiation rec_phase :: linorder
begin

definition less_eq_rec_phase :: "rec_phase \<Rightarrow> rec_phase \<Rightarrow> bool" where
  "less_eq_rec_phase p q \<longleftrightarrow> phase_rank p \<le> phase_rank q"

definition less_rec_phase :: "rec_phase \<Rightarrow> rec_phase \<Rightarrow> bool" where
  "less_rec_phase p q \<longleftrightarrow> phase_rank p < phase_rank q"

instance
proof
  fix x y :: rec_phase
  show "x \<le> y \<Longrightarrow> y \<le> x \<Longrightarrow> x = y"
    by (cases x; cases y) (simp_all add: less_eq_rec_phase_def)
qed (auto simp: less_eq_rec_phase_def less_rec_phase_def)

end

record recording_file =
  rf_name :: string
  rf_size :: nat
  rf_type :: string
  rf_url :: nat
  rf_blob :: blob
  rf_isRecording :: bool

record recorder_state =
  isRecording :: bool
  screenSources :: "source list"
  selectedSource :: "source option"
  recordingTime :: nat
  showSourceSelector :: bool
  mediaRecorderRef :: "nat option"
  streamRef :: "nat option"
  chunksRef :: "blob list"
  timerRef :: "nat option"
  streams :: "stream list"
  recorders :: "recorder list"
  timers :: "nat list"
  next_timer :: nat
  urls :: "nat list"
  next_url :: nat
  pending :: "string list"
  delivered :: "recording_file list"
  alerts :: "string list"

definition init_recorder :: recorder_state where
  "init_recorder =
     \<lparr>isRecording = False, screenSources = [], selectedSource = None, recordingTime = 0,
      showSourceSelector = False, mediaRecorderRef = None, streamRef = None, chunksRef = [],
      timerRef = None, streams = [], recorders = [], timers = [], next_timer = 1, urls = [],
      next_url = 0, pending = [], delivered = [], alerts = []\<rparr>"

section \<open>Browser objects\<close>

definition stop_tracks :: "nat \<Rightarrow> stream list \<Rightarrow> stream list" where
  "stop_tracks s ss = (if s < length ss then ss[s := (ss ! s)\<lparr>live := False\<rparr>] else ss)"

definition set_phase :: "nat \<Rightarrow> rec_phase \<Rightarrow> recorder list \<Rightarrow> recorder list" where
  "set_phase r p rs = (if r < length rs then rs[r := (rs ! r)\<lparr>phase := p\<rparr>] else rs)"

definition phase_of :: "nat \<Rightarrow> recorder list \<Rightarrow> rec_phase option" where
  "phase_of r rs = (if r < length rs then Some (phase (rs ! r)) else None)"

definition remove_nth :: "nat \<Rightarrow> 'a list \<Rightarrow> 'a list" where
  "remove_nth i xs = take i xs @ drop (Suc i) xs"

section \<open>Handlers\<close>

text \<open>
  The handler of \<open>get-screen-sources\<close> in \<open>src/public/electron.js\<close>: the sources
  the capturer lists, each with its kind read off the identifier; an empty list when
  the capturer fails (\<open>None\<close>).
\<close>

definition mapSource :: "desktop_source \<Rightarrow> source" where
  "mapSource d =
     \<lparr>src_id = ds_id d, src_name = ds_name d, src_thumbnail = ds_thumbnail d,
      src_type = (if prefix ''screen:'' (ds_id d) then ''screen'' else ''window'')\<rparr>"

definition getScreenSources :: "desktop_source list option \<Rightarrow> source list" where
  "getScreenSources r = (case r of None \<Rightarrow> [] | Some ds \<Rightarrow> map mapSource ds)"

definition loadScreenSources :: "bool \<Rightarrow> source list \<Rightarrow> recorder_state \<Rightarrow> recorder_state" where
  "loadScreenSources electron srcs st = (if electron then st\<lparr>screenSources := srcs\<rparr> else st)"

definition selectSource :: "source \<Rightarrow> recorder_state \<Rightarrow> recorder_state" where
  "selectSource s st = st\<lparr>selectedSource := Some s, showSourceSelector := False\<rparr>"

definition toggleSelector :: "recorder_state \<Rightarrow> recorder_state" where
  "toggleSelector st = st\<lparr>showSourceSelector := \<not> showSourceSelector st\<rparr>"

text \<open>\<open>startRecording\<close> up to the \<open>await\<close>: without a selected source the selector
  opens; with one, a capture request for that source is under way.\<close>

definition startRecording :: "recorder_state \<Rightarrow> recorder_state" where
  "startRecording st =
     (case selectedSource st of
        None \<Rightarrow> st\<lparr>showSourceSelector := True\<rparr>
      | Some s \<Rightarrow> st\<lparr>pending := pending st @ [src_id s]\<rparr>)"

text \<open>
  The continuation when request \<open>i\<close> resolves with a new stream. \<open>supported\<close> says
  whether the \<open>MediaRecorder\<close> constructor accepts the stream and the mime type; when it
  throws, the \<open>catch\<close> block reports the error and nothing after line 59 runs.
\<close>

definition gum_resolved :: "nat \<Rightarrow> bool \<Rightarrow> recorder_state \<Rightarrow> recorder_state" where
  "gum_resolved i supported st =
     (let sid = length (streams st);
          st1 = st\<lparr>pending := remove_nth i (pending st),
                   streams := streams st @ [\<lparr>stream_source = pending st ! i, live = True\<rparr>],
                   streamRef := Some sid\<rparr>
      in if \<not> supported
         then st1\<lparr>alerts := alerts st1 @ [''Failed to start recording: '']\<rparr>
         else st1\<lparr>recorders := recorders st1 @ [\<lparr>rec_stream = sid, phase = Recording\<rparr>],
                  mediaRecorderRef := Some (length (recorders st1)),
                  chunksRef := [],
                  isRecording := True,
                  recordingTime := 0,
                  timerRef := Some (next_timer st1),
                  timers := next_timer st1 # timers st1,
                  next_timer := Suc (next_timer st1)\<rparr>)"

definition gum_rejected :: "nat \<Rightarrow> recorder_state \<Rightarrow> recorder_state" where
  "gum_rejected i st =
     st\<lparr>pending := remove_nth i (pending st),
        alerts := alerts st @ [''Failed to start recording: '']\<rparr>"

definition ondataavailable :: "blob \<Rightarrow> recorder_state \<Rightarrow> recorder_state" where
  "ondataavailable d st = (if 0 < length d then st\<lparr>chunksRef := chunksRef st @ [d]\<rparr> else st)"

text \<open>\<open>onstop\<close>: \<open>stamp\<close> is the text of \<open>new Date().toLocaleString()\<close>.\<close>

definition recordingFile :: "string \<Rightarrow> nat \<Rightarrow> blob \<Rightarrow> recording_file" where
  "recordingFile stamp url b =
     \<lparr>rf_name = ''Screen Recording '' @ stamp @ ''.webm'', rf_size = length b,
      rf_type = ''video/webm'', rf_url = url, rf_blob = b, rf_isRecording = True\<rparr>"

definition onstop :: "string \<Rightarrow> recorder_state \<Rightarrow> recorder_state" where
  "onstop stamp st =
     (let b = concat (chunksRef st);
          url = next_url st;
          st1 = st\<lparr>urls := url # urls st, next_url := Suc url\<rparr>;
          st2 = st1\<lparr>delivered := delivered st1 @ [recordingFile stamp url b]\<rparr>;
          st3 = (case streamRef st2 of
                   None \<Rightarrow> st2
                 | Some s \<Rightarrow> st2\<lparr>streams := stop_tracks s (streams st2)\<rparr>)
      in st3\<lparr>urls := removeAll url (urls st3)\<rparr>)"

definition stopRecording :: "recorder_state \<Rightarrow> recorder_state" where
  "stopRecording st =
     (let st1 = (case mediaRecorderRef st of
                   None \<Rightarrow> st
                 | Some r \<Rightarrow>
                     if phase_of r (recorders st) = Some Recording
                     then st\<lparr>recorders := set_phase r Flushing (recorders st)\<rparr> else st);
          st2 = st1\<lparr>isRecording := False, recordingTime := 0\<rparr>
      in case timerRef st2 of
           None \<Rightarrow> st2
         | Some t \<Rightarrow> if t \<noteq> 0 then st2\<lparr>timers := removeAll t (timers st2)\<rparr> else st2)"

definition timer_tick :: "recorder_state \<Rightarrow> recorder_state" where
  "timer_tick st = st\<lparr>recordingTime := recordingTime st + 1\<rparr>"

definition padStart :: "nat \<Rightarrow> char \<Rightarrow> string \<Rightarrow> string" where
  "padStart n c s = replicate (n - length s) c @ s"

definition formatTime :: "nat \<Rightarrow> string" where
  "formatTime seconds =
     padStart 2 (CHR ''0'') (toString (int (seconds div 60))) @ '':''
       @ padStart 2 (CHR ''0'') (toString (int (seconds mod 60)))"

section \<open>What the component shows\<close>

text \<open>The recording indicator is rendered while recording and shows the elapsed
  time; the label of the selected source is rendered when one is selected.\<close>

definition indicator :: "recorder_state \<Rightarrow> string option" where
  "indicator st = (if isRecording st then Some (''REC '' @ formatTime (recordingTime st)) else None)"

definition selected_label :: "recorder_state \<Rightarrow> string option" where
  "selected_label st = map_option (\<lambda>s. ''Selected: '' @ src_name s) (selectedSource st)"

section \<open>The \<open>start-screen-recording\<close> channel\<close>

text \<open>The handler of the main process answers with the identifier it was given; its
  body cannot throw.\<close>

record start_answer =
  sa_success :: bool
  sa_sourceId :: "string option"

definition startScreenRecording_handler :: "string option \<Rightarrow> start_answer" where
  "startScreenRecording_handler sourceId = \<lparr>sa_success = True, sa_sourceId = sourceId\<rparr>"

section \<open>Events\<close>

text \<open>
  A recorder that records delivers data when its time slice ends; after \<open>stop()\<close> it
  delivers the rest once (\<open>Flushing\<close> to \<open>Drained\<close>) and then fires \<open>stop\<close>.
\<close>

definition rec_data :: "nat \<Rightarrow> blob \<Rightarrow> recorder_state \<Rightarrow> recorder_state" where
  "rec_data r d st =
     (let st1 = ondataavailable d st
      in if phase_of r (recorders st) = Some Flushing
         then st1\<lparr>recorders := set_phase r Drained (recorders st1)\<rparr> else st1)"

definition rec_stopped :: "nat \<Rightarrow> string \<Rightarrow> recorder_state \<Rightarrow> recorder_state" where
  "rec_stopped r stamp st =
     (let st1 = onstop stamp st in st1\<lparr>recorders := set_phase r Stopped (recorders st1)\<rparr>)"

datatype rec_event =
    LoadSources bool "source list"
  | ClickStart
  | ClickSelect
  | ClickSource source
  | ClickStop
  | GumResolved nat bool
  | GumRejected nat
  | Data nat blob
  | StopEvent nat string
  | Tick nat

text \<open>The guard of an event: the button is rendered, the request is under way, the
  recorder is in a phase that produces the event, the timer is active.\<close>

fun enabled :: "rec_event \<Rightarrow> recorder_state \<Rightarrow> bool" where
  "enabled (LoadSources e srcs) st = True"
| "enabled ClickStart st = (\<not> isRecording st)"
| "enabled ClickSelect st = (\<not> isRecording st)"
| "enabled (ClickSource s) st = (showSourceSelector st \<and> s \<in> set (screenSources st))"
| "enabled ClickStop st = isRecording st"
| "enabled (GumResolved i ok) st = (i < length (pending st))"
| "enabled (GumRejected i) st = (i < length (pending st))"
| "enabled (Data r d) st = (phase_of r (recorders st) = Some Recording \<or> phase_of r (recorders st) = Some Flushing)"
| "enabled (StopEvent r stamp) st = (phase_of r (recorders st) = Some Drained)"
| "enabled (Tick t) st = (t \<in> set (timers st))"

fun effect :: "rec_event \<Rightarrow> recorder_state \<Rightarrow> recorder_state" where
  "effect (LoadSources e srcs) st = loadScreenSources e srcs st"
| "effect ClickStart st = startRecording st"
| "effect ClickSelect st = toggleSelector st"
| "effect (ClickSource s) st = selectSource s st"
| "effect ClickStop st = stopRecording st"
| "effect (GumResolved i ok) st = gum_resolved i ok st"
| "effect (GumRejected i) st = gum_rejected i st"
| "effect (Data r d) st = rec_data r d st"
| "effect (StopEvent r stamp) st = rec_stopped r stamp st"
| "effect (Tick t) st = timer_tick st"

inductive rec_step :: "recorder_state \<Rightarrow> rec_event \<Rightarrow> recorder_state \<Rightarrow> bool" where
  rec_stepI: "enabled e st \<Longrightarrow> rec_step st e (effect e st)"

inductive rec_reachable :: "recorder_state \<Rightarrow> bool" where
  rec_init: "rec_reachable init_recorder"
| rec_next: "rec_reachable st \<Longrightarrow> rec_step st e st' \<Longrightarrow> rec_reachable st'"

definition rec_run :: "rec_event list \<Rightarrow> recorder_state \<Rightarrow> recorder_state option" where
  "rec_run = run_opt (guard enabled effect)"

section \<open>Specification: well-formed states\<close>

text \<open>
  \<open>flag_inv\<close>: the component shows "recording" exactly when the recorder it points
  to records. \<open>timer_inv\<close>: exactly then the timer it points to is active; timer
  identifiers are positive and below the next one. \<open>url_inv\<close>: no object URL is
  live, and every delivered file carries the size of its data. \<open>chunks_inv\<close>: no
  stored chunk is empty. \<open>refs_inv\<close>: the refs and the recorders point to objects
  that exist.
\<close>

definition flag_inv :: "recorder_state \<Rightarrow> bool" where
  "flag_inv st \<longleftrightarrow>
     isRecording st =
       (Option.bind (mediaRecorderRef st) (\<lambda>r. phase_of r (recorders st)) = Some Recording)"

definition timer_inv :: "recorder_state \<Rightarrow> bool" where
  "timer_inv st \<longleftrightarrow>
     isRecording st = (timerRef st \<in> Some ` set (timers st))
     \<and> list_all (\<lambda>t. 0 < t \<and> t < next_timer st) (timers st) \<and> 0 < next_timer st"

definition url_inv :: "recorder_state \<Rightarrow> bool" where
  "url_inv st \<longleftrightarrow>
     urls st = []
     \<and> list_all (\<lambda>f. rf_url f < next_url st \<and> rf_size f = length (rf_blob f)) (delivered st)"

definition chunks_inv :: "recorder_state \<Rightarrow> bool" where
  "chunks_inv st \<longleftrightarrow> list_all (\<lambda>d. d \<noteq> []) (chunksRef st)"

definition refs_inv :: "recorder_state \<Rightarrow> bool" where
  "refs_inv st \<longleftrightarrow>
     pred_option (\<lambda>r. r < length (recorders st)) (mediaRecorderRef st)
     \<and> pred_option (\<lambda>s. s < length (streams st)) (streamRef st)
     \<and> list_all (\<lambda>r. rec_stream r < length (streams st)) (recorders st)"

definition rec_inv :: "recorder_state \<Rightarrow> bool" where
  "rec_inv st \<longleftrightarrow> flag_inv st \<and> timer_inv st \<and> url_inv st \<and> chunks_inv st \<and> refs_inv st"

text \<open>A state with nothing under way: not recording, no capture request pending, every
  recorder stopped, every stream ended, no timer active.\<close>

definition idle :: "recorder_state \<Rightarrow> bool" where
  "idle st \<longleftrightarrow>
     \<not> isRecording st \<and> pending st = [] \<and> list_all (\<lambda>r. phase r = Stopped) (recorders st)
     \<and> list_all (\<lambda>s. \<not> live s) (streams st) \<and> timers st = []"

lemmas capture_defs =
  init_recorder_def stop_tracks_def set_phase_def phase_of_def remove_nth_def
  mapSource_def getScreenSources_def loadScreenSources_def selectSource_def toggleSelector_def startRecording_def gum_resolved_def
  gum_rejected_def ondataavailable_def recordingFile_def onstop_def stopRecording_def
  timer_tick_def rec_data_def rec_stopped_def

lemmas rec_inv_defs = rec_inv_def flag_inv_def timer_inv_def url_inv_def chunks_inv_def refs_inv_def

section \<open>Lemmas: browser objects\<close>

lemma length_stop_tracks [simp]: "length (stop_tracks s ss) = length ss"
  by (simp add: stop_tracks_def)

lemma length_set_phase [simp]: "length (set_phase r p rs) = length rs"
  by (simp add: set_phase_def)

lemma rec_stream_set_phase [simp]:
  "map rec_stream (set_phase r p rs) = map rec_stream rs"
  by (simp add: set_phase_def map_update list_update_same_conv)

lemma nth_set_phase:
  "k < length rs \<Longrightarrow> phase (set_phase r p rs ! k) = (if k = r then p else phase (rs ! k))"
  by (simp add: set_phase_def nth_list_update)

lemma live_stop_tracks:
  "k < length ss \<Longrightarrow> live (stop_tracks s ss ! k) = (k \<noteq> s \<and> live (ss ! k))"
  by (auto simp: stop_tracks_def nth_list_update)

lemma length_remove_nth [simp]: "i < length xs \<Longrightarrow> length (remove_nth i xs) = length xs - 1"
  by (simp add: remove_nth_def)

lemma remove_nth_single [simp]: "remove_nth 0 [x] = []"
  by (simp add: remove_nth_def)

lemma concat_filter_nonempty [simp]: "concat (filter (\<lambda>d. d \<noteq> []) ds) = concat ds"
  by (induction ds) simp_all

section \<open>Lemmas: each event keeps the state well formed\<close>

lemma rec_inv_init: "rec_inv init_recorder"
  by (auto simp: rec_inv_defs init_recorder_def)

lemma rec_inv_loadScreenSources [cf_inv]: "rec_inv st \<Longrightarrow> rec_inv (loadScreenSources e srcs st)"
  by (auto simp: rec_inv_defs loadScreenSources_def)

lemma rec_inv_selectSource [cf_inv]: "rec_inv st \<Longrightarrow> rec_inv (selectSource s st)"
  by (auto simp: rec_inv_defs selectSource_def)

lemma rec_inv_toggleSelector [cf_inv]: "rec_inv st \<Longrightarrow> rec_inv (toggleSelector st)"
  by (auto simp: rec_inv_defs toggleSelector_def)

lemma rec_inv_startRecording [cf_inv]: "rec_inv st \<Longrightarrow> rec_inv (startRecording st)"
  by (cases "selectedSource st") (auto simp: rec_inv_defs startRecording_def)

lemma rec_inv_gum_rejected [cf_inv]: "rec_inv st \<Longrightarrow> rec_inv (gum_rejected i st)"
  by (auto simp: rec_inv_defs gum_rejected_def)

lemma rec_inv_timer_tick [cf_inv]: "rec_inv st \<Longrightarrow> rec_inv (timer_tick st)"
  by (auto simp: rec_inv_defs timer_tick_def)

lemma rec_inv_ondataavailable [cf_inv]: "rec_inv st \<Longrightarrow> rec_inv (ondataavailable d st)"
  by (auto simp: rec_inv_defs ondataavailable_def)


lemma phase_of_set_phase:
  "phase_of k (set_phase r p rs) = (if k = r \<and> r < length rs then Some p else phase_of k rs)"
  by (simp add: phase_of_def set_phase_def nth_list_update)

lemma phase_of_append:
  "phase_of k (rs @ [x]) = (if k = length rs then Some (phase x) else phase_of k rs)"
  by (simp add: phase_of_def nth_append)

lemma phase_of_SomeD: "phase_of k rs = Some p \<Longrightarrow> k < length rs"
  by (simp add: phase_of_def split: if_splits)

lemma list_all_rec_stream_set_phase [simp]:
  "list_all (\<lambda>r. rec_stream r < n) (set_phase k p rs) = list_all (\<lambda>r. rec_stream r < n) rs"
proof -
  have h: "list_all (\<lambda>r. rec_stream r < n) xs = list_all (\<lambda>s. s < n) (map rec_stream xs)" for xs
    by (simp add: list_all_iff)
  show ?thesis unfolding h by simp
qed

lemma rec_inv_gum_resolved [cf_inv]:
  assumes "rec_inv st"
  shows "rec_inv (gum_resolved i ok st)"
proof -
  from assms have "list_all (\<lambda>r. rec_stream r < Suc (length (streams st))) (recorders st)"
    and "list_all (\<lambda>t. 0 < t \<and> t < Suc (next_timer st)) (timers st)"
    by (auto simp: rec_inv_defs list_all_iff)
  with assms show ?thesis
    by (cases ok) (auto simp: rec_inv_defs gum_resolved_def Let_def phase_of_append)
qed

lemma rec_inv_onstop:
  assumes "rec_inv st"
  shows "rec_inv (onstop stamp st)"
proof -
  from assms have "list_all (\<lambda>f. rf_url f < Suc (next_url st) \<and> rf_size f = length (rf_blob f))
      (delivered st)"
    by (auto simp: rec_inv_defs list_all_iff)
  with assms show ?thesis
    by (cases "streamRef st") (auto simp: rec_inv_defs onstop_def Let_def recordingFile_def)
qed

lemma rec_inv_set_phase:
  assumes "rec_inv st" and "phase_of r (recorders st) \<noteq> Some Recording" and "p \<noteq> Recording"
  shows "rec_inv (st\<lparr>recorders := set_phase r p (recorders st)\<rparr>)"
  using assms
  by (cases "mediaRecorderRef st") (auto simp: rec_inv_defs phase_of_set_phase)

lemma rec_inv_rec_data [cf_inv]:
  assumes "rec_inv st"
  shows "rec_inv (rec_data r d st)"
proof -
  have inv: "rec_inv (ondataavailable d st)" using assms by (rule rec_inv_ondataavailable)
  have rs: "recorders (ondataavailable d st) = recorders st" by (simp add: ondataavailable_def)
  show ?thesis
  proof (cases "phase_of r (recorders st) = Some Flushing")
    case True
    then have "phase_of r (recorders (ondataavailable d st)) \<noteq> Some Recording" by (simp add: rs)
    with inv have "rec_inv ((ondataavailable d st)
        \<lparr>recorders := set_phase r Drained (recorders (ondataavailable d st))\<rparr>)"
      by (rule rec_inv_set_phase) simp
    with True show ?thesis by (simp add: rec_data_def Let_def)
  next
    case False
    with inv show ?thesis by (simp add: rec_data_def Let_def)
  qed
qed

lemma recorders_onstop [simp]: "recorders (onstop stamp st) = recorders st"
  by (cases "streamRef st") (simp_all add: onstop_def Let_def)

lemma rec_inv_rec_stopped [cf_inv]:
  assumes "rec_inv st" and "phase_of r (recorders st) = Some Drained"
  shows "rec_inv (rec_stopped r stamp st)"
proof -
  have inv: "rec_inv (onstop stamp st)" using assms(1) by (rule rec_inv_onstop)
  from assms(2) have "phase_of r (recorders (onstop stamp st)) \<noteq> Some Recording" by simp
  with inv have "rec_inv ((onstop stamp st)
      \<lparr>recorders := set_phase r Stopped (recorders (onstop stamp st))\<rparr>)"
    by (rule rec_inv_set_phase) simp
  then show ?thesis by (simp add: rec_stopped_def Let_def)
qed

lemma list_all_removeAll [simp]: "list_all P xs \<Longrightarrow> list_all P (removeAll x xs)"
  by (simp add: list_all_iff)

lemma rec_inv_stopRecording [cf_inv]:
  assumes "rec_inv st"
  shows "rec_inv (stopRecording st)"
proof -
  from assms have "0 \<notin> set (timers st)" by (auto simp: rec_inv_defs list_all_iff)
  with assms show ?thesis
    by (cases "mediaRecorderRef st"; cases "timerRef st")
      (auto simp: rec_inv_defs stopRecording_def Let_def phase_of_set_phase dest: phase_of_SomeD)
qed

lemma rec_inv_effect: "rec_inv st \<Longrightarrow> enabled e st \<Longrightarrow> rec_inv (effect e st)"
  by (cases e) (simp_all add: cf_inv)

lemma rec_inv_step: "rec_step st e st' \<Longrightarrow> rec_inv st \<Longrightarrow> rec_inv st'"
  by (induction rule: rec_step.induct) (rule rec_inv_effect)

lemma rec_reachable_inv: "rec_reachable st \<Longrightarrow> rec_inv st"
  by (induction rule: rec_reachable.induct) (auto intro: rec_inv_init rec_inv_step)

lemma rec_run_simps [simp]:
  "rec_run [] st = Some st"
  "rec_run (e # es) st = (if enabled e st then rec_run es (effect e st) else None)"
  by (simp_all add: rec_run_def guard_def)

lemma rec_run_invariant:
  assumes "rec_run es st = Some st'" and "I st"
    and "\<And>e s. I s \<Longrightarrow> enabled e s \<Longrightarrow> I (effect e s)"
  shows "I st'"
  using assms unfolding rec_run_def by (rule run_guard_invariant)

inductive_simps rec_step_iff: "rec_step st e st'"

lemma rec_run_step:
  "rec_run (e # es) st = Some st' \<longleftrightarrow> (\<exists>st1. rec_step st e st1 \<and> rec_run es st1 = Some st')"
  by (auto simp: rec_step_iff)

lemma rec_run_reachable:
  "rec_reachable st \<Longrightarrow> rec_run es st = Some st' \<Longrightarrow> rec_reachable st'"
  by (erule rec_run_invariant [rotated]) (auto intro: rec_next rec_stepI)

lemma rec_run_append:
  "rec_run (es @ es') st = (case rec_run es st of None \<Rightarrow> None | Some st1 \<Rightarrow> rec_run es' st1)"
  by (simp add: rec_run_def run_opt_append split: Option.bind_split)

section \<open>Lemmas: a recording session\<close>

lemma rec_data_recording:
  "phase_of r (recorders st) = Some Recording \<Longrightarrow> rec_data r d st = ondataavailable d st"
  by (simp add: rec_data_def Let_def)

lemma recorders_ondataavailable [simp]: "recorders (ondataavailable d st) = recorders st"
  by (simp add: ondataavailable_def)

lemma rec_run_data:
  assumes "phase_of r (recorders st) = Some Recording"
  shows "rec_run (map (Data r) ds) st
     = Some (st\<lparr>chunksRef := chunksRef st @ filter (\<lambda>d. d \<noteq> []) ds\<rparr>)"
  using assms
proof (induction ds arbitrary: st)
  case Nil
  then show ?case by simp
next
  case (Cons d ds)
  from Cons.prems have "phase_of r (recorders (ondataavailable d st)) = Some Recording" by simp
  from Cons.IH [OF this] Cons.prems show ?case
    by (simp add: rec_data_recording) (simp add: ondataavailable_def)
qed

lemma phase_of_set_phase_same:
  "phase_of r rs = Some q \<Longrightarrow> phase_of r (set_phase r p rs) = Some p"
  by (simp add: phase_of_set_phase phase_of_SomeD)

lemma recorders_stopRecording:
  "recorders (stopRecording st) =
     (if Option.bind (mediaRecorderRef st) (\<lambda>r. phase_of r (recorders st)) = Some Recording
      then set_phase (the (mediaRecorderRef st)) Flushing (recorders st) else recorders st)"
  by (cases "mediaRecorderRef st"; cases "timerRef st") (simp_all add: stopRecording_def Let_def)

lemma phase_after_stopRecording:
  assumes "mediaRecorderRef st = Some r" and "phase_of r (recorders st) = Some Recording"
  shows "phase_of r (recorders (stopRecording st)) = Some Flushing"
  using assms by (simp add: recorders_stopRecording phase_of_set_phase_same)

lemma phase_after_final_data:
  assumes "phase_of r (recorders st) = Some Flushing"
  shows "phase_of r (recorders (rec_data r d st)) = Some Drained"
  using assms by (simp add: rec_data_def Let_def phase_of_set_phase_same)

lemma fresh_timer: "rec_inv st \<Longrightarrow> next_timer st \<notin> set (timers st)"
  by (auto simp: rec_inv_defs list_all_iff)

lemma startRecording_selected:
  "selectedSource st = Some s \<Longrightarrow> startRecording st = st\<lparr>pending := pending st @ [src_id s]\<rparr>"
  by (simp add: startRecording_def)

lemma gum_resolved_ok:
  "gum_resolved i True st =
     st\<lparr>pending := remove_nth i (pending st),
        streams := streams st @ [\<lparr>stream_source = pending st ! i, live = True\<rparr>],
        streamRef := Some (length (streams st)),
        recorders := recorders st @ [\<lparr>rec_stream = length (streams st), phase = Recording\<rparr>],
        mediaRecorderRef := Some (length (recorders st)),
        chunksRef := [], isRecording := True, recordingTime := 0,
        timerRef := Some (next_timer st),
        timers := next_timer st # timers st,
        next_timer := Suc (next_timer st)\<rparr>"
  by (simp add: gum_resolved_def Let_def)

lemma gum_resolved_unsupported:
  "gum_resolved i False st =
     st\<lparr>pending := remove_nth i (pending st),
        streams := streams st @ [\<lparr>stream_source = pending st ! i, live = True\<rparr>],
        streamRef := Some (length (streams st)),
        alerts := alerts st @ [''Failed to start recording: '']\<rparr>"
  by (simp add: gum_resolved_def Let_def)

lemma stopRecording_recording:
  assumes "mediaRecorderRef st = Some r" and "phase_of r (recorders st) = Some Recording"
    and "timerRef st = Some t" and "t \<noteq> 0"
  shows "stopRecording st =
     st\<lparr>recorders := set_phase r Flushing (recorders st), isRecording := False,
        recordingTime := 0, timers := removeAll t (timers st)\<rparr>"
  using assms by (simp add: stopRecording_def Let_def)

lemma rec_data_flushing:
  assumes "phase_of r (recorders st) = Some Flushing"
  shows "rec_data r d st =
     st\<lparr>chunksRef := chunksRef st @ filter (\<lambda>d. d \<noteq> []) [d],
        recorders := set_phase r Drained (recorders st)\<rparr>"
  using assms by (simp add: rec_data_def Let_def ondataavailable_def)

lemma rec_stopped_eq:
  assumes "streamRef st = Some s"
  shows "rec_stopped r stamp st =
     st\<lparr>next_url := Suc (next_url st),
        delivered := delivered st @ [recordingFile stamp (next_url st) (concat (chunksRef st))],
        streams := stop_tracks s (streams st),
        urls := removeAll (next_url st) (urls st),
        recorders := set_phase r Stopped (recorders st)\<rparr>"
  using assms by (simp add: rec_stopped_def onstop_def Let_def)

lemma set_phase_set_phase [simp]: "set_phase r p (set_phase r q rs) = set_phase r p rs"
  by (simp add: set_phase_def)

text \<open>From a state that records: data events, the stop click, the last data and the
  \<open>stop\<close> event.\<close>

lemma session_finish:
  assumes "isRecording st" and r: "mediaRecorderRef st = Some r"
    and p: "phase_of r (recorders st) = Some Recording"
    and t: "timerRef st = Some t" "t \<noteq> 0" and s: "streamRef st = Some s"
  shows "rec_run (map (Data r) ds @ [ClickStop, Data r d, StopEvent r stamp]) st
     = Some (st\<lparr>chunksRef := chunksRef st @ filter (\<lambda>d. d \<noteq> []) (ds @ [d]),
          isRecording := False, recordingTime := 0,
          timers := removeAll t (timers st),
          next_url := Suc (next_url st),
          delivered := delivered st @
            [recordingFile stamp (next_url st) (concat (chunksRef st) @ concat (ds @ [d]))],
          streams := stop_tracks s (streams st),
          urls := removeAll (next_url st) (urls st),
          recorders := set_phase r Stopped (recorders st)\<rparr>)"
proof -
  let ?st3 = "st\<lparr>chunksRef := chunksRef st @ filter (\<lambda>d. d \<noteq> []) ds\<rparr>"
  let ?st4 = "?st3\<lparr>recorders := set_phase r Flushing (recorders st), isRecording := False,
    recordingTime := 0, timers := removeAll t (timers st)\<rparr>"
  let ?st5 = "?st4\<lparr>chunksRef := chunksRef st @ filter (\<lambda>d. d \<noteq> []) (ds @ [d]),
    recorders := set_phase r Drained (recorders st)\<rparr>"
  let ?st6 = "?st5\<lparr>next_url := Suc (next_url st),
    delivered := delivered st @
      [recordingFile stamp (next_url st) (concat (chunksRef st) @ concat (ds @ [d]))],
    streams := stop_tracks s (streams st),
    urls := removeAll (next_url st) (urls st),
    recorders := set_phase r Stopped (recorders st)\<rparr>"
  have 2: "rec_run (map (Data r) ds) st = Some ?st3" using p by (rule rec_run_data)
  have a: "stopRecording ?st3 = ?st4"
    using r p t stopRecording_recording [of ?st3 r t] by simp
  have p4: "phase_of r (recorders ?st4) = Some Flushing"
    using p by (simp add: phase_of_set_phase_same)
  have b: "rec_data r d ?st4 = ?st5" using rec_data_flushing [OF p4, of d] by simp
  have p5: "phase_of r (recorders ?st5) = Some Drained"
    using p by (simp add: phase_of_set_phase_same)
  have c: "rec_stopped r stamp ?st5 = ?st6" using s rec_stopped_eq [of ?st5 s r stamp] by simp
  have e1: "isRecording ?st3" using assms(1) by simp
  have e2: "phase_of r (recorders ?st4) = Some Recording \<or> phase_of r (recorders ?st4) = Some Flushing"
    using p4 by (rule disjI2)
  have 3: "rec_run [ClickStop, Data r d, StopEvent r stamp] ?st3 = Some ?st6"
    by (simp only: rec_run_simps enabled.simps effect.simps e1 e2 p5 a b c simp_thms if_True)
  have "rec_run (map (Data r) ds @ [ClickStop, Data r d, StopEvent r stamp]) st = Some ?st6"
    by (simp only: rec_run_append 2 3 option.case)
  then show ?thesis by simp
qed

lemma remove_nth_snoc [simp]: "remove_nth (length xs) (xs @ [x]) = xs"
  by (simp add: remove_nth_def)

lemma session_start:
  assumes "\<not> isRecording st" and "selectedSource st = Some s"
  shows "rec_run [ClickStart, GumResolved (length (pending st)) True] st =
     Some (st\<lparr>pending := pending st,
        streams := streams st @ [\<lparr>stream_source = src_id s, live = True\<rparr>],
        streamRef := Some (length (streams st)),
        recorders := recorders st @ [\<lparr>rec_stream = length (streams st), phase = Recording\<rparr>],
        mediaRecorderRef := Some (length (recorders st)),
        chunksRef := [], isRecording := True, recordingTime := 0,
        timerRef := Some (next_timer st),
        timers := next_timer st # timers st,
        next_timer := Suc (next_timer st)\<rparr>)"
  using assms by (simp add: startRecording_selected gum_resolved_ok)

lemma stop_tracks_last [simp]:
  "stop_tracks (length ss) (ss @ [x]) = ss @ [x\<lparr>live := False\<rparr>]"
  by (simp add: stop_tracks_def)

lemma set_phase_last [simp]:
  "set_phase (length rs) p (rs @ [x]) = rs @ [x\<lparr>phase := p\<rparr>]"
  by (simp add: set_phase_def)

lemma session_run:
  assumes inv: "rec_inv st" and idle: "\<not> isRecording st" and sel: "selectedSource st = Some s"
  shows "rec_run ([ClickStart, GumResolved (length (pending st)) True]
           @ map (Data (length (recorders st))) ds
           @ [ClickStop, Data (length (recorders st)) d, StopEvent (length (recorders st)) stamp]) st
     = Some (st\<lparr>isRecording := False, recordingTime := 0,
          mediaRecorderRef := Some (length (recorders st)),
          streamRef := Some (length (streams st)),
          chunksRef := filter (\<lambda>d. d \<noteq> []) (ds @ [d]),
          timerRef := Some (next_timer st),
          streams := streams st @ [\<lparr>stream_source = src_id s, live = False\<rparr>],
          recorders := recorders st @ [\<lparr>rec_stream = length (streams st), phase = Stopped\<rparr>],
          next_timer := Suc (next_timer st),
          next_url := Suc (next_url st),
          delivered := delivered st @ [recordingFile stamp (next_url st) (concat (ds @ [d]))]\<rparr>)"
proof -
  let ?r = "length (recorders st)"
  let ?st2 = "st\<lparr>pending := pending st,
        streams := streams st @ [\<lparr>stream_source = src_id s, live = True\<rparr>],
        streamRef := Some (length (streams st)),
        recorders := recorders st @ [\<lparr>rec_stream = length (streams st), phase = Recording\<rparr>],
        mediaRecorderRef := Some (length (recorders st)),
        chunksRef := [], isRecording := True, recordingTime := 0,
        timerRef := Some (next_timer st),
        timers := next_timer st # timers st,
        next_timer := Suc (next_timer st)\<rparr>"
  have 1: "rec_run [ClickStart, GumResolved (length (pending st)) True] st = Some ?st2"
    using idle sel by (rule session_start)
  from inv have t: "next_timer st \<noteq> 0" "next_timer st \<notin> set (timers st)" "urls st = []"
    by (auto simp: rec_inv_defs list_all_iff)
  have 2: "rec_run (map (Data ?r) ds @ [ClickStop, Data ?r d, StopEvent ?r stamp]) ?st2 = Some
     (?st2\<lparr>chunksRef := chunksRef ?st2 @ filter (\<lambda>d. d \<noteq> []) (ds @ [d]),
          isRecording := False, recordingTime := 0,
          timers := removeAll (next_timer st) (timers ?st2),
          next_url := Suc (next_url ?st2),
          delivered := delivered ?st2 @
            [recordingFile stamp (next_url ?st2) (concat (chunksRef ?st2) @ concat (ds @ [d]))],
          streams := stop_tracks (length (streams st)) (streams ?st2),
          urls := removeAll (next_url ?st2) (urls ?st2),
          recorders := set_phase ?r Stopped (recorders ?st2)\<rparr>)"
    using t(1) by (intro session_finish) (simp_all add: phase_of_append)
  show ?thesis
    unfolding rec_run_append [of "[ClickStart, GumResolved (length (pending st)) True]"] 1 option.case 2
    using t by simp
qed

lemma rec_run_inv: "rec_inv st \<Longrightarrow> rec_run es st = Some st' \<Longrightarrow> rec_inv st'"
  by (erule rec_run_invariant [rotated]) (auto intro: rec_inv_effect)

lemma init_recorder_fields [simp]:
  "isRecording init_recorder = False" "pending init_recorder = []"
  "recorders init_recorder = []" "streams init_recorder = []" "timers init_recorder = []"
  "delivered init_recorder = []" "next_url init_recorder = 0" "next_timer init_recorder = 1"
  "urls init_recorder = []" "selectedSource init_recorder = None"
  by (simp_all add: init_recorder_def)

lemma selectSource_fields [simp]:
  "isRecording (selectSource s st) = isRecording st" "pending (selectSource s st) = pending st"
  "recorders (selectSource s st) = recorders st" "streams (selectSource s st) = streams st"
  "timers (selectSource s st) = timers st" "delivered (selectSource s st) = delivered st"
  "next_url (selectSource s st) = next_url st" "next_timer (selectSource s st) = next_timer st"
  "urls (selectSource s st) = urls st" "selectedSource (selectSource s st) = Some s"
  by (simp_all add: selectSource_def)

lemma idle_init: "idle init_recorder"
  by (simp add: idle_def)

lemma idle_selectSource [simp]: "idle (selectSource s st) = idle st"
  by (simp add: idle_def)

section \<open>Properties\<close>

text \<open>
  Property C5 (functional). A session started with a source selected (start click, the
  capture request resolves, the recorder delivers the chunks \<open>ds\<close>, stop click, the
  recorder delivers its last chunk \<open>d\<close> and fires \<open>stop\<close>) hands exactly one file to
  \<open>onRecordingComplete\<close>: its data is the concatenation of all chunks in the order they
  arrived, its size is the length of that data and its type is \<open>video/webm\<close>. Empty
  chunks are not stored, which does not change the data.
\<close>

theorem recording_is_chunks_in_order:
  assumes "rec_inv st" and "\<not> isRecording st" and "selectedSource st = Some s"
  shows "\<exists>st'. rec_run ([ClickStart, GumResolved (length (pending st)) True]
           @ map (Data (length (recorders st))) ds
           @ [ClickStop, Data (length (recorders st)) d, StopEvent (length (recorders st)) stamp]) st
         = Some st'
     \<and> delivered st' = delivered st @
          [\<lparr>rf_name = ''Screen Recording '' @ stamp @ ''.webm'', rf_size = length (concat (ds @ [d])),
            rf_type = ''video/webm'', rf_url = next_url st, rf_blob = concat (ds @ [d]),
            rf_isRecording = True\<rparr>]
     \<and> chunksRef st' = filter (\<lambda>d. d \<noteq> []) (ds @ [d])"
  unfolding session_run [OF assms] by (simp add: recordingFile_def)

theorem recording_is_chunks_in_order_witness:
  "\<exists>st'. rec_run ([ClickStart, GumResolved 0 True] @ map (Data 0) [[1, 2], [], [3]]
           @ [ClickStop, Data 0 [4], StopEvent 0 ''today''])
        (selectSource \<lparr>src_id = ''screen:0'', src_name = ''Screen'', src_thumbnail = '''', src_type = ''screen''\<rparr> init_recorder)
         = Some st'
     \<and> delivered st' =
          [\<lparr>rf_name = ''Screen Recording today.webm'', rf_size = 4,
            rf_type = ''video/webm'', rf_url = 0, rf_blob = [1, 2, 3, 4], rf_isRecording = True\<rparr>]
     \<and> chunksRef st' = [[1, 2], [3], [4]]"
  using recording_is_chunks_in_order
    [of "selectSource \<lparr>src_id = ''screen:0'', src_name = ''Screen'', src_thumbnail = '''', src_type = ''screen''\<rparr> init_recorder"
        "\<lparr>src_id = ''screen:0'', src_name = ''Screen'', src_thumbnail = '''', src_type = ''screen''\<rparr>"
        "[[1, 2], [], [3]]" "[4]" "''today''",
     OF rec_inv_selectSource [OF rec_inv_init]]
  by (simp add: eval_nat_numeral del: rec_run_simps)

text \<open>
  Property C19 (safety). Such a session releases what it took: if nothing was under
  way before (no recording, no pending request, every recorder stopped, every stream
  ended, no timer), then nothing is under way after it, the object URL made for the
  file is revoked, and the state is well formed again.
\<close>

theorem session_releases_resources:
  assumes "rec_inv st" and "idle st" and "selectedSource st = Some s"
  shows "\<exists>st'. rec_run ([ClickStart, GumResolved (length (pending st)) True]
           @ map (Data (length (recorders st))) ds
           @ [ClickStop, Data (length (recorders st)) d, StopEvent (length (recorders st)) stamp]) st
         = Some st'
     \<and> idle st' \<and> rec_inv st' \<and> urls st' = [] \<and> recordingTime st' = 0"
proof -
  from assms(2) have n: "\<not> isRecording st" by (simp add: idle_def)
  let ?es = "[ClickStart, GumResolved (length (pending st)) True]
           @ map (Data (length (recorders st))) ds
           @ [ClickStop, Data (length (recorders st)) d, StopEvent (length (recorders st)) stamp]"
  from session_run [OF assms(1) n assms(3), of ds d stamp]
  obtain st' where run: "rec_run ?es st = Some st'"
    and st': "streams st' = streams st @ [\<lparr>stream_source = src_id s, live = False\<rparr>]"
      "recorders st' = recorders st @ [\<lparr>rec_stream = length (streams st), phase = Stopped\<rparr>]"
      "timers st' = timers st" "pending st' = pending st" "\<not> isRecording st'"
      "recordingTime st' = 0"
    by simp
  from assms(1) run have inv: "rec_inv st'" by (rule rec_run_inv)
  from assms(2) have "idle st'" by (simp add: idle_def st')
  with run inv st'(6) show ?thesis by (auto simp: rec_inv_def url_inv_def)
qed

theorem session_releases_resources_witness:
  "\<exists>st'. rec_run ([ClickStart, GumResolved 0 True] @ map (Data 0) [[1, 2], [], [3]]
           @ [ClickStop, Data 0 [4], StopEvent 0 ''today''])
        (selectSource \<lparr>src_id = ''screen:0'', src_name = ''Screen'', src_thumbnail = '''', src_type = ''screen''\<rparr> init_recorder)
         = Some st'
     \<and> idle st' \<and> rec_inv st' \<and> urls st' = [] \<and> recordingTime st' = 0"
  using session_releases_resources
    [of "selectSource \<lparr>src_id = ''screen:0'', src_name = ''Screen'', src_thumbnail = '''', src_type = ''screen''\<rparr> init_recorder"
        "\<lparr>src_id = ''screen:0'', src_name = ''Screen'', src_thumbnail = '''', src_type = ''screen''\<rparr>"
        "[[1, 2], [], [3]]" "[4]" "''today''",
     OF rec_inv_selectSource [OF rec_inv_init]]
  by (simp add: idle_init del: rec_run_simps)

lemma map_phase_set_phase: "map phase (set_phase r p rs) = (map phase rs)[r := p]"
  by (simp add: set_phase_def map_update list_update_beyond)

lemma map_live_stop_tracks: "map live (stop_tracks s ss) = (map live ss)[s := False]"
  by (simp add: stop_tracks_def map_update list_update_beyond)

text \<open>
  Property C18 (invariant). In every state the recorder component reaches, it shows
  "recording" exactly when the recorder it points to records and exactly when the
  timer it points to is active; no object URL is live, every delivered file carries
  the size of its data, no stored chunk is empty, and every ref points to an object
  that exists.
\<close>

theorem recorder_invariant:
  assumes "rec_reachable st"
  shows "rec_inv st"
  using assms by (rule rec_reachable_inv)

theorem recorder_invariant_witness:
  "rec_inv (startRecording (selectSource \<lparr>src_id = ''screen:0'', src_name = ''Screen'',
      src_thumbnail = '''', src_type = ''screen''\<rparr> (toggleSelector (loadScreenSources True
        [\<lparr>src_id = ''screen:0'', src_name = ''Screen'', src_thumbnail = '''', src_type = ''screen''\<rparr>] init_recorder))))"
proof -
  let ?s = "\<lparr>src_id = ''screen:0'', src_name = ''Screen'', src_thumbnail = '''', src_type = ''screen''\<rparr>"
  have "rec_run [LoadSources True [?s], ClickSelect, ClickSource ?s, ClickStart] init_recorder
      = Some (startRecording (selectSource ?s (toggleSelector (loadScreenSources True [?s]
          init_recorder))))"
    by (simp add: selectSource_def toggleSelector_def loadScreenSources_def init_recorder_def)
  with rec_init have "rec_reachable (startRecording (selectSource ?s (toggleSelector
      (loadScreenSources True [?s] init_recorder))))"
    by (rule rec_run_reachable)
  then show ?thesis by (rule recorder_invariant)
qed

text \<open>
  Property C39 (safety). When the capture request resolves but the recorder cannot be
  created, the error is reported and the new stream is left as it is: it stays live,
  the component does not show "recording", and the stop button, the only control that
  leads to stopping a stream, is not rendered.
\<close>

theorem failed_start_leaks_stream:
  assumes "idle st" and "selectedSource st = Some s"
  shows "\<exists>st'. rec_run [ClickStart, GumResolved 0 False] st = Some st'
     \<and> streams st' = streams st @ [\<lparr>stream_source = src_id s, live = True\<rparr>]
     \<and> \<not> idle st' \<and> \<not> enabled ClickStop st' \<and> recorders st' = recorders st
     \<and> alerts st' = alerts st @ [''Failed to start recording: '']"
  using assms
  by (simp add: idle_def startRecording_selected gum_resolved_unsupported)

theorem failed_start_leaks_stream_witness:
  "\<exists>st'. rec_run [ClickStart, GumResolved 0 False]
       (selectSource \<lparr>src_id = ''screen:0'', src_name = ''Screen'', src_thumbnail = '''', src_type = ''screen''\<rparr> init_recorder)
       = Some st'
     \<and> streams st' = [\<lparr>stream_source = ''screen:0'', live = True\<rparr>]
     \<and> \<not> idle st' \<and> \<not> enabled ClickStop st' \<and> recorders st' = []
     \<and> alerts st' = [''Failed to start recording: '']"
  using failed_start_leaks_stream
    [of "selectSource \<lparr>src_id = ''screen:0'', src_name = ''Screen'', src_thumbnail = '''', src_type = ''screen''\<rparr> init_recorder"
        "\<lparr>src_id = ''screen:0'', src_name = ''Screen'', src_thumbnail = '''', src_type = ''screen''\<rparr>"]
  by (simp add: idle_init del: rec_run_simps) (simp add: init_recorder_def selectSource_def)

text \<open>
  Two start clicks before the first capture request resolves
  give two streams, two recorders and two timers, while the refs keep only the second
  of each. After the stop click and the second recorder's \<open>stop\<close> event the component
  shows "not recording", yet the first recorder still records, its stream is live and
  its timer is active.
\<close>

theorem double_start_leaks:
  "\<exists>st. rec_reachable st \<and> \<not> isRecording st \<and> pending st = []
     \<and> mediaRecorderRef st = Some 1 \<and> map phase (recorders st) = [Recording, Stopped]
     \<and> map live (streams st) = [True, False] \<and> timers st = [1]"
proof -
  let ?s = "\<lparr>src_id = ''screen:0'', src_name = ''Screen'', src_thumbnail = '''', src_type = ''screen''\<rparr>"
  let ?es = "[LoadSources True [?s], ClickSelect, ClickSource ?s, ClickStart, ClickStart,
    GumResolved 0 True, GumResolved 0 True]"
  let ?st = "gum_resolved 0 True (gum_resolved 0 True (startRecording (startRecording
    (selectSource ?s (toggleSelector (loadScreenSources True [?s] init_recorder))))))"
  note defs = gum_resolved_ok startRecording_selected selectSource_def toggleSelector_def
    loadScreenSources_def init_recorder_def remove_nth_def phase_of_def
  have run: "rec_run ?es init_recorder = Some ?st"
    by (simp add: defs)
  have st: "isRecording ?st" "mediaRecorderRef ?st = Some 1"
    "phase_of 1 (recorders ?st) = Some Recording" "timerRef ?st = Some 2" "streamRef ?st = Some 1"
    "map phase (recorders ?st) = [Recording, Recording]" "map live (streams ?st) = [True, True]"
    "timers ?st = [2, 1]" "pending ?st = []"
    by (simp_all add: defs)
  from session_finish [OF st(1,2,3,4) _ st(5), of "[]" "[]" "''today''"]
  obtain st' where fin: "rec_run [ClickStop, Data 1 [], StopEvent 1 ''today''] ?st = Some st'"
    and st': "\<not> isRecording st'" "pending st' = pending ?st" "mediaRecorderRef st' = mediaRecorderRef ?st"
      "recorders st' = set_phase 1 Stopped (recorders ?st)" "streams st' = stop_tracks 1 (streams ?st)"
      "timers st' = removeAll 2 (timers ?st)"
    by (simp del: rec_run_simps)
  from run fin have "rec_run (?es @ [ClickStop, Data 1 [], StopEvent 1 ''today'']) init_recorder = Some st'"
    by (simp only: rec_run_append option.case)
  with rec_init have "rec_reachable st'" by (rule rec_run_reachable)
  moreover from st(6) have "map phase (set_phase 1 Stopped (recorders ?st)) = [Recording, Stopped]"
    by (simp add: map_phase_set_phase)
  moreover from st(7) have "map live (stop_tracks 1 (streams ?st)) = [True, False]"
    by (simp add: map_live_stop_tracks)
  ultimately show ?thesis using st' st(2,8,9) by (intro exI [of _ st']) simp
qed

section \<open>Lemmas: the time display\<close>

lemma toString_nonneg: "toString (int n) = toString_nat n"
  by (simp add: toString_def)

lemma toString_nat_small: "n < 10 \<Longrightarrow> toString_nat n = [digit_char n]"
  by (simp add: toString_nat.simps)

lemma toString_nat_two:
  "10 \<le> n \<Longrightarrow> n < 100 \<Longrightarrow> toString_nat n = [digit_char (n div 10), digit_char (n mod 10)]"
  by (subst toString_nat.simps) (simp add: toString_nat_small)

lemma padStart_two:
  "n < 100 \<Longrightarrow> padStart 2 (CHR ''0'') (toString_nat n) = [digit_char (n div 10), digit_char (n mod 10)]"
  by (cases "n < 10") (simp_all add: padStart_def toString_nat_small toString_nat_two digit_char_def)

lemma parse_nat_two:
  "a < 10 \<Longrightarrow> b < 10 \<Longrightarrow> parse_nat [digit_char a, digit_char b] = 10 * a + b"
  by (simp add: parse_nat_def)

lemma padStart_long: "n \<le> length s \<Longrightarrow> padStart n c s = s"
  by (simp add: padStart_def)

lemma formatTime_small:
  assumes "n < 6000"
  shows "formatTime n = [digit_char (n div 60 div 10), digit_char (n div 60 mod 10), CHR '':'',
     digit_char (n mod 60 div 10), digit_char (n mod 60 mod 10)]"
proof -
  from assms have "n div 60 < 100" by simp
  moreover have "n mod 60 < 100" using mod_less_divisor [of 60 n] by simp
  ultimately show ?thesis by (simp add: formatTime_def toString_nonneg padStart_two)
qed

text \<open>
  For a recording shorter than a hundred minutes the time is
  shown as two digits, a colon and two digits, and the minutes and seconds read back
  from the text give the number of seconds counted.
\<close>

theorem formatTime_reads_back:
  assumes "n < 6000"
  shows "length (formatTime n) = 5 \<and> formatTime n ! 2 = CHR '':''
     \<and> 60 * parse_nat (take 2 (formatTime n)) + parse_nat (drop 3 (formatTime n)) = n"
proof -
  have "n div 60 div 10 < 10" using assms by simp
  moreover have "n div 60 mod 10 < 10" "n mod 60 div 10 < 10" "n mod 60 mod 10 < 10" by simp_all
  ultimately show ?thesis
    by (simp add: formatTime_small [OF assms] parse_nat_two)
qed

theorem formatTime_reads_back_witness:
  "length (formatTime 75) = 5 \<and> formatTime 75 ! 2 = CHR '':''
     \<and> 60 * parse_nat (take 2 (formatTime 75)) + parse_nat (drop 3 (formatTime 75)) = 75
     \<and> formatTime 75 = ''01:15''"
  using formatTime_reads_back [of 75] by (simp add: formatTime_small digit_char_def)

lemma indicator_counts_ticks:
  assumes "isRecording st"
  shows "indicator ((timer_tick ^^ n) st) = Some (''REC '' @ formatTime (recordingTime st + n))"
proof -
  have "isRecording ((timer_tick ^^ n) st) = isRecording st \<and>
        recordingTime ((timer_tick ^^ n) st) = recordingTime st + n"
    by (induction n) (simp_all add: timer_tick_def)
  with assms show ?thesis by (simp add: indicator_def)
qed

lemma length_padStart: "length (padStart n c s) = max n (length s)"
  by (simp add: padStart_def)

lemma length_formatTime:
  "length (formatTime n) = max 2 (length (toString_nat (n div 60))) + 3"
proof -
  have "n mod 60 < 100" by simp
  then have "length (toString_nat (n mod 60)) \<le> 2" by (simp only: length_toString_nat_le_2)
  then show ?thesis by (simp add: formatTime_def length_padStart toString_nonneg)
qed

text \<open>
  Property C40 (bounds). The elapsed time is shown with two digits for the minutes and
  two for the seconds, five characters in all, exactly while the recording is shorter
  than 100 minutes; from 6000 seconds on the minutes take more digits and the text
  grows, and it is never shorter than five characters.
\<close>

theorem formatTime_width:
  "(length (formatTime n) = 5 \<longleftrightarrow> n < 6000) \<and> 5 \<le> length (formatTime n)"
proof -
  have "length (toString_nat (n div 60)) \<le> 2 \<longleftrightarrow> n < 6000"
    by (simp add: length_toString_nat_le_2 div_less_iff_less_mult)
  then show ?thesis by (auto simp: length_formatTime max_def)
qed

section \<open>Lemmas: the phases of a recorder\<close>

lemma phase_le_simps [simp]:
  "Recording \<le> p" "p \<le> Stopped" "Flushing \<le> Drained"
  by (cases p; simp add: less_eq_rec_phase_def)+

lemma set_phase_mono:
  assumes "q < length rs" and "phase (rs ! r) \<le> p"
  shows "phase (rs ! q) \<le> phase (set_phase r p rs ! q)"
  using assms by (simp add: nth_set_phase)

lemma effect_phases:
  assumes "enabled e s" and "q < length (recorders s)"
  shows "q < length (recorders (effect e s)) \<and>
         phase (recorders s ! q) \<le> phase (recorders (effect e s) ! q)"
proof (cases e)
  case ClickStop
  with assms show ?thesis
    by (cases "mediaRecorderRef s")
      (auto simp: recorders_stopRecording phase_of_def nth_set_phase split: if_splits)
next
  case (GumResolved i ok)
  with assms show ?thesis by (simp add: gum_resolved_def Let_def nth_append)
next
  case (Data r d)
  with assms show ?thesis by (auto simp: rec_data_def Let_def phase_of_def set_phase_mono)
next
  case (StopEvent r stamp)
  with assms show ?thesis by (simp add: rec_stopped_def Let_def recorders_onstop set_phase_mono)
qed (use assms in \<open>simp_all add: loadScreenSources_def startRecording_def toggleSelector_def
      selectSource_def gum_rejected_def timer_tick_def split: option.splits\<close>)



end
