(* ===== verification/Bridge.thy ===== *)
theory Bridge
  imports CF_Prelude
begin

text \<open>
  The way from the renderer to the main process: the wrappers of
  \<open>src/src/utils/electronAPI.js\<close>, the two objects that \<open>src/public/preload.js\<close>
  exposes on \<open>window\<close>, and the channels for which \<open>src/public/electron.js\<close> registers
  a handler or on which it sends. A wrapper is a function of what the page finds on
  \<open>window\<close>; a call is followed through the three files by \<open>route\<close>. The renderer's
  listener table (\<open>ipcRenderer.on\<close>, \<open>removeAllListeners\<close>) is a list of channel and
  callback pairs. The lemmas show that inside Electron every wrapper reaches a channel
  the main process handles or sends on, that outside Electron every wrapper rejects or
  does nothing, that no two exposed functions share a channel, and how listeners
  accumulate.
\<close>

section \<open>What the page finds on \<open>window\<close>\<close>

record window_env =
  process_type :: bool
  electronAPI_exposed :: bool
  ffmpeg_exposed :: bool
  userAgent :: "string option"
  node_electron :: bool

text \<open>\<open>String.prototype.includes\<close>.\<close>

fun str_includes :: "string \<Rightarrow> string \<Rightarrow> bool" where
  "str_includes [] needle = (needle = [])"
| "str_includes (c # cs) needle = (prefix needle (c # cs) \<or> str_includes cs needle)"

definition isElectron :: "window_env \<Rightarrow> bool" where
  "isElectron w \<longleftrightarrow>
     process_type w \<or> electronAPI_exposed w
     \<or> (case userAgent w of None \<Rightarrow> False | Some ua \<Rightarrow> str_includes ua ''Electron'')
     \<or> node_electron w"

section \<open>The wrappers\<close>

datatype namespace = ElectronAPI | Ffmpeg

datatype api_fn =
    OpenFileDialog | GetVideoInfo | GetScreenSources | StartScreenRecording
  | ExtractThumbnail | GetMetadata | TrimVideo | ExportTimeline
  | OnTrimProgress | OnExportProgress | RemoveTrimProgressListener | RemoveExportProgressListener
  | SaveProject | LoadProject

text \<open>The object a wrapper tests and calls, the method it calls, and whether it
  returns a promise (the listener functions return nothing).\<close>

fun namespace_of :: "api_fn \<Rightarrow> namespace" where
  "namespace_of OpenFileDialog = ElectronAPI"
| "namespace_of GetVideoInfo = ElectronAPI"
| "namespace_of GetScreenSources = ElectronAPI"
| "namespace_of StartScreenRecording = ElectronAPI"
| "namespace_of SaveProject = ElectronAPI"
| "namespace_of LoadProject = ElectronAPI"
| "namespace_of f = Ffmpeg"

fun method_of :: "api_fn \<Rightarrow> string" where
  "method_of OpenFileDialog = ''openFileDialog''"
| "method_of GetVideoInfo = ''getVideoInfo''"
| "method_of GetScreenSources = ''getScreenSources''"
| "method_of StartScreenRecording = ''startScreenRecording''"
| "method_of ExtractThumbnail = ''extractThumbnail''"
| "method_of GetMetadata = ''getMetadata''"
| "method_of TrimVideo = ''trimVideo''"
| "method_of ExportTimeline = ''exportTimeline''"
| "method_of OnTrimProgress = ''onTrimProgress''"
| "method_of OnExportProgress = ''onExportProgress''"
| "method_of RemoveTrimProgressListener = ''removeTrimProgressListener''"
| "method_of RemoveExportProgressListener = ''removeExportProgressListener''"
| "method_of SaveProject = ''saveProject''"
| "method_of LoadProject = ''loadProject''"

fun returns_promise :: "api_fn \<Rightarrow> bool" where
  "returns_promise OnTrimProgress = False"
| "returns_promise OnExportProgress = False"
| "returns_promise RemoveTrimProgressListener = False"
| "returns_promise RemoveExportProgressListener = False"
| "returns_promise f = True"

definition exposed :: "namespace \<Rightarrow> window_env \<Rightarrow> bool" where
  "exposed n w = (case n of ElectronAPI \<Rightarrow> electronAPI_exposed w | Ffmpeg \<Rightarrow> ffmpeg_exposed w)"

datatype wrapper_result =
    Call namespace string
  | Reject string
  | Skip

definition wrapper :: "api_fn \<Rightarrow> window_env \<Rightarrow> wrapper_result" where
  "wrapper f w =
     (if isElectron w \<and> exposed (namespace_of f) w then Call (namespace_of f) (method_of f)
      else if returns_promise f then Reject ''Not running in Electron'' else Skip)"

section \<open>The preload script\<close>

datatype preload_action =
    Invoke string
  | ListenOn string
  | RemoveAllListeners string

text \<open>The members of the two exposed objects, in the order of the script.\<close>

definition ffmpeg_object :: "(string \<times> preload_action) list" where
  "ffmpeg_object =
     [(''extractThumbnail'', Invoke ''extract-thumbnail''),
      (''getMetadata'', Invoke ''get-metadata''),
      (''trimVideo'', Invoke ''trim-video''),
      (''exportTimeline'', Invoke ''export-timeline''),
      (''onTrimProgress'', ListenOn ''trim-progress''),
      (''onExportProgress'', ListenOn ''export-progress''),
      (''removeTrimProgressListener'', RemoveAllListeners ''trim-progress''),
      (''removeExportProgressListener'', RemoveAllListeners ''export-progress'')]"

definition electronAPI_object :: "(string \<times> preload_action) list" where
  "electronAPI_object =
     [(''openFileDialog'', Invoke ''open-file-dialog''),
      (''getVideoInfo'', Invoke ''get-video-info''),
      (''getScreenSources'', Invoke ''get-screen-sources''),
      (''startScreenRecording'', Invoke ''start-screen-recording''),
      (''saveProject'', Invoke ''save-project''),
      (''loadProject'', Invoke ''load-project''),
      (''showController'', Invoke ''show-controller''),
      (''hideController'', Invoke ''hide-controller''),
      (''closeController'', Invoke ''close-controller''),
      (''sendControllerCommand'', Invoke ''controller-command''),
      (''onControllerCommand'', ListenOn ''controller-command''),
      (''removeControllerCommandListener'', RemoveAllListeners ''controller-command'')]"

definition preload_object :: "namespace \<Rightarrow> (string \<times> preload_action) list" where
  "preload_object n = (case n of ElectronAPI \<Rightarrow> electronAPI_object | Ffmpeg \<Rightarrow> ffmpeg_object)"

text \<open>Calling a member; \<open>None\<close> is "not a function".\<close>

definition preload_call :: "namespace \<Rightarrow> string \<Rightarrow> preload_action option" where
  "preload_call n m = map_of (preload_object n) m"

section \<open>The main process\<close>

text \<open>The channels with an \<open>ipcMain.handle\<close>, in the order of the registrations, and
  the channels on which the main process sends.\<close>

definition handled_channels :: "string list" where
  "handled_channels =
     [''open-file-dialog'', ''get-video-info'', ''get-screen-sources'', ''start-screen-recording'',
      ''extract-thumbnail'', ''get-metadata'', ''trim-video'', ''export-timeline'',
      ''save-project'', ''load-project'', ''show-controller'', ''hide-controller'',
      ''close-controller'', ''controller-command'']"

definition sent_channels :: "string list" where
  "sent_channels = [''trim-progress'', ''export-progress'', ''controller-command'']"

section \<open>A call followed through the three files\<close>

datatype route_result =
    ToHandler string
  | Subscribed string
  | Unsubscribed string
  | RejectedWith string
  | NoEffect
  | NotAFunction
  | NoHandler string

definition route_action :: "preload_action \<Rightarrow> route_result" where
  "route_action a =
     (case a of
        Invoke c \<Rightarrow> if c \<in> set handled_channels then ToHandler c else NoHandler c
      | ListenOn c \<Rightarrow> Subscribed c
      | RemoveAllListeners c \<Rightarrow> Unsubscribed c)"

definition route :: "api_fn \<Rightarrow> window_env \<Rightarrow> route_result" where
  "route f w =
     (case wrapper f w of
        Reject msg \<Rightarrow> RejectedWith msg
      | Skip \<Rightarrow> NoEffect
      | Call n m \<Rightarrow> (case preload_call n m of None \<Rightarrow> NotAFunction | Some a \<Rightarrow> route_action a))"

section \<open>The renderer's listeners\<close>

type_synonym listeners = "(string \<times> nat) list"

definition ipc_on :: "string \<Rightarrow> nat \<Rightarrow> listeners \<Rightarrow> listeners" where
  "ipc_on c cb ls = ls @ [(c, cb)]"

definition removeAllListeners :: "string \<Rightarrow> listeners \<Rightarrow> listeners" where
  "removeAllListeners c ls = filter (\<lambda>l. fst l \<noteq> c) ls"

text \<open>A message on a channel runs the callbacks registered for it, in the order of
  their registration.\<close>

definition deliver :: "string \<Rightarrow> listeners \<Rightarrow> nat list" where
  "deliver c ls = map snd (filter (\<lambda>l. fst l = c) ls)"

text \<open>The effect of a preload member on the listener table.\<close>

definition apply_action :: "preload_action \<Rightarrow> nat \<Rightarrow> listeners \<Rightarrow> listeners" where
  "apply_action a cb ls =
     (case a of
        Invoke c \<Rightarrow> ls
      | ListenOn c \<Rightarrow> ipc_on c cb ls
      | RemoveAllListeners c \<Rightarrow> removeAllListeners c ls)"

section \<open>Specification\<close>

text \<open>The page runs inside the application: the preload script has run, so both
  objects are there.\<close>

definition in_app :: "window_env \<Rightarrow> bool" where
  "in_app w \<longleftrightarrow> electronAPI_exposed w \<and> ffmpeg_exposed w"

text \<open>A plain browser: nothing on \<open>window\<close> hints at Electron.\<close>

definition in_browser :: "window_env \<Rightarrow> bool" where
  "in_browser w \<longleftrightarrow> \<not> isElectron w"

text \<open>The member of the preload script a wrapper is meant to end at.\<close>

fun member_action :: "api_fn \<Rightarrow> preload_action" where
  "member_action OpenFileDialog = Invoke ''open-file-dialog''"
| "member_action GetVideoInfo = Invoke ''get-video-info''"
| "member_action GetScreenSources = Invoke ''get-screen-sources''"
| "member_action StartScreenRecording = Invoke ''start-screen-recording''"
| "member_action ExtractThumbnail = Invoke ''extract-thumbnail''"
| "member_action GetMetadata = Invoke ''get-metadata''"
| "member_action TrimVideo = Invoke ''trim-video''"
| "member_action ExportTimeline = Invoke ''export-timeline''"
| "member_action OnTrimProgress = ListenOn ''trim-progress''"
| "member_action OnExportProgress = ListenOn ''export-progress''"
| "member_action RemoveTrimProgressListener = RemoveAllListeners ''trim-progress''"
| "member_action RemoveExportProgressListener = RemoveAllListeners ''export-progress''"
| "member_action SaveProject = Invoke ''save-project''"
| "member_action LoadProject = Invoke ''load-project''"

definition invoked_channels :: "string list" where
  "invoked_channels =
     concat (map (\<lambda>(m, a). case a of Invoke c \<Rightarrow> [c] | _ \<Rightarrow> []) (ffmpeg_object @ electronAPI_object))"

definition listened_channels :: "string list" where
  "listened_channels =
     concat (map (\<lambda>(m, a). case a of ListenOn c \<Rightarrow> [c] | _ \<Rightarrow> []) (ffmpeg_object @ electronAPI_object))"

lemmas bridge_defs =
  isElectron_def exposed_def wrapper_def ffmpeg_object_def electronAPI_object_def
  preload_object_def preload_call_def handled_channels_def sent_channels_def route_action_def
  route_def ipc_on_def removeAllListeners_def deliver_def apply_action_def

section \<open>Lemmas: detection\<close>

lemma str_includes_iff_sublist: "str_includes s needle \<longleftrightarrow> sublist needle s"
  by (induction s) (simp_all add: sublist_Cons_right)

lemma str_includes_append: "str_includes (a @ needle @ b) needle"
  by (simp add: str_includes_iff_sublist)

lemma isElectron_exposed [simp]: "electronAPI_exposed w \<Longrightarrow> isElectron w"
  by (simp add: isElectron_def)

lemma in_app_isElectron: "in_app w \<Longrightarrow> isElectron w"
  by (simp add: in_app_def)

lemma in_app_exposed [simp]: "in_app w \<Longrightarrow> exposed n w"
  by (cases n) (simp_all add: exposed_def in_app_def)

lemma in_browser_not_exposed: "in_browser w \<Longrightarrow> \<not> electronAPI_exposed w"
  by (auto simp: in_browser_def)

section \<open>Lemmas: the wrappers\<close>

lemma wrapper_in_app: "in_app w \<Longrightarrow> wrapper f w = Call (namespace_of f) (method_of f)"
  by (simp add: wrapper_def in_app_isElectron)

lemma wrapper_guard_fails:
  "\<not> (isElectron w \<and> exposed (namespace_of f) w) \<Longrightarrow>
   wrapper f w = (if returns_promise f then Reject ''Not running in Electron'' else Skip)"
  by (auto simp: wrapper_def)

lemma wrapper_Call_iff:
  "wrapper f w = Call n m \<longleftrightarrow>
     isElectron w \<and> exposed (namespace_of f) w \<and> n = namespace_of f \<and> m = method_of f"
  by (auto simp: wrapper_def)

section \<open>Lemmas: the exposed objects and the channels\<close>

lemma distinct_members:
  "distinct (map fst ffmpeg_object)" "distinct (map fst electronAPI_object)"
  by (simp_all add: ffmpeg_object_def electronAPI_object_def)

lemma invoked_channels_eq:
  "invoked_channels =
     [''extract-thumbnail'', ''get-metadata'', ''trim-video'', ''export-timeline'',
      ''open-file-dialog'', ''get-video-info'', ''get-screen-sources'', ''start-screen-recording'',
      ''save-project'', ''load-project'', ''show-controller'', ''hide-controller'',
      ''close-controller'', ''controller-command'']"
  by (simp add: invoked_channels_def ffmpeg_object_def electronAPI_object_def)

lemma listened_channels_eq:
  "listened_channels = [''trim-progress'', ''export-progress'', ''controller-command'']"
  by (simp add: listened_channels_def ffmpeg_object_def electronAPI_object_def)

lemma preload_call_method:
  "preload_call (namespace_of f) (method_of f) = Some (member_action f)"
  by (cases f)
    (simp_all add: preload_call_def preload_object_def ffmpeg_object_def electronAPI_object_def)

lemma route_in_app: "in_app w \<Longrightarrow> route f w = route_action (member_action f)"
  by (simp add: route_def wrapper_in_app preload_call_method)

section \<open>Lemmas: listeners\<close>

lemma deliver_ipc_on [simp]:
  "deliver c (ipc_on c' cb ls) = deliver c ls @ (if c = c' then [cb] else [])"
  by (simp add: deliver_def ipc_on_def)

lemma deliver_removeAllListeners [simp]:
  "deliver c (removeAllListeners c' ls) = (if c = c' then [] else deliver c ls)"
  by (induction ls) (auto simp: deliver_def removeAllListeners_def)

lemma deliver_Nil [simp]: "deliver c [] = []"
  by (simp add: deliver_def)

lemma deliver_subscribe_n:
  "deliver c ((ipc_on c cb ^^ n) ls) = deliver c ls @ replicate n cb"
  by (induction n) (simp_all add: replicate_append_same)

section \<open>Properties\<close>

text \<open>
  Property C12 (safety). Inside the application, where the preload script has exposed
  both objects, every wrapper of \<open>electronAPI.js\<close> calls a member that the preload
  script defines; a wrapper that returns a promise ends at a channel for which the main
  process has registered a handler, and a listener wrapper subscribes to or clears a
  channel on which the main process sends.
\<close>

theorem wrappers_reach_handlers:
  assumes "in_app w"
  shows "(returns_promise f \<longrightarrow> (\<exists>c. route f w = ToHandler c \<and> c \<in> set handled_channels)) \<and>
         (\<not> returns_promise f \<longrightarrow>
            (\<exists>c. (route f w = Subscribed c \<or> route f w = Unsubscribed c) \<and> c \<in> set sent_channels))"
  by (cases f)
    (simp_all add: route_in_app [OF assms] route_action_def handled_channels_def sent_channels_def)

theorem wrappers_reach_handlers_witness:
  "route ExportTimeline \<lparr>process_type = False, electronAPI_exposed = True, ffmpeg_exposed = True,
      userAgent = None, node_electron = False\<rparr> = ToHandler ''export-timeline''"
  using wrappers_reach_handlers [of "\<lparr>process_type = False, electronAPI_exposed = True,
      ffmpeg_exposed = True, userAgent = None, node_electron = False\<rparr>" ExportTimeline]
  by (simp add: in_app_def route_in_app route_action_def handled_channels_def)



text \<open>
  Property C26 (safety). The three files agree on the channels: no exposed object
  defines a member twice, the channels the preload script invokes are exactly the
  channels the main process handles, each invoked by one member only, and the channels
  the preload script listens on are exactly the channels the main process sends on.
\<close>

theorem channels_agree:
  "distinct (map fst ffmpeg_object) \<and> distinct (map fst electronAPI_object) \<and>
   distinct invoked_channels \<and> set invoked_channels = set handled_channels \<and>
   listened_channels = sent_channels"
  by (simp add: distinct_members invoked_channels_eq listened_channels_eq handled_channels_def
      sent_channels_def) (simp add: insert_commute)

text \<open>
  Listeners accumulate: after \<open>n\<close> subscriptions of a
  callback to a channel, one message on the channel runs the callback \<open>n\<close> more
  times, after the callbacks that were there; \<open>removeAllListeners\<close> empties the channel
  and leaves the other channels as they are.
\<close>

theorem listeners_accumulate:
  "deliver c ((ipc_on c cb ^^ n) ls) = deliver c ls @ replicate n cb \<and>
   deliver c (removeAllListeners c ls) = [] \<and>
   (c' \<noteq> c \<longrightarrow> deliver c' (removeAllListeners c ls) = deliver c' ls)"
  by (simp add: deliver_subscribe_n)

theorem listeners_accumulate_witness:
  "deliver ''export-progress'' ((ipc_on ''export-progress'' 7 ^^ 2) [(''trim-progress'', 3)]) = [7, 7] \<and>
   deliver ''trim-progress'' (removeAllListeners ''export-progress'' [(''trim-progress'', 3)]) = [3]"
  using listeners_accumulate [of "''export-progress''" 7 2 "[(''trim-progress'', 3)]" "''trim-progress''"]
  by (simp add: deliver_def removeAllListeners_def ipc_on_def eval_nat_numeral)



end
