(* ===== verification/Windows.thy ===== *)
theory Windows
  imports CF_Prelude
begin

text \<open>
  The windows of the main process (\<open>src/public/electron.js\<close>): \<open>createWindow\<close>,
  \<open>createControllerWindow\<close>, the handlers the two windows register for \<open>closed\<close>,
  \<open>close\<close> and \<open>ready-to-show\<close>, the application events \<open>window-all-closed\<close> and
  \<open>activate\<close>, and the handlers of the channels \<open>show-controller\<close>, \<open>hide-controller\<close>,
  \<open>close-controller\<close> and \<open>controller-command\<close>. The state holds the two variables
  \<open>mainWindow\<close> and \<open>controllerWindow\<close> and the windows that exist. A request to close
  a window runs the window's \<open>close\<close> handler first; a handler that prevents the default
  keeps the window, otherwise the window is destroyed and its \<open>closed\<close> handler runs.
  \<open>app.quit()\<close> asks every window to close and ends the application when none is left.
  This is the window protocol of Electron as the handlers rely on it. The application
  menu is the template of the source as data; choosing an item runs its click handler.
  The lemmas show which windows the variables refer to in every reachable state, that
  commands reach the main window exactly when there is one, that closing the controller
  loses the window without destroying it, and that the application can be ended exactly
  when it has no controller window.
\<close>

section \<open>State\<close>

datatype win_kind = MainWin | ControllerWin

record window =
  wkind :: win_kind
  visible :: bool
  destroyed :: bool

record win_state =
  mainWindow :: "nat option"
  controllerWindow :: "nat option"
  wins :: "window list"
  darwin :: bool
  quit :: bool
  commands :: "(nat \<times> string) list"

definition init_wins :: "bool \<Rightarrow> win_state" where
  "init_wins mac =
     \<lparr>mainWindow = None, controllerWindow = None, wins = [], darwin = mac, quit = False,
      commands = []\<rparr>"

section \<open>Window operations\<close>

definition set_visible :: "nat \<Rightarrow> bool \<Rightarrow> window list \<Rightarrow> window list" where
  "set_visible w v ws = (if w < length ws then ws[w := (ws ! w)\<lparr>visible := v\<rparr>] else ws)"

definition destroy :: "nat \<Rightarrow> window list \<Rightarrow> window list" where
  "destroy w ws =
     (if w < length ws then ws[w := (ws ! w)\<lparr>visible := False, destroyed := True\<rparr>] else ws)"

definition win_live :: "window \<Rightarrow> bool" where
  "win_live x \<longleftrightarrow> \<not> destroyed x"

text \<open>\<open>BrowserWindow.getAllWindows()\<close>: the indices of the windows that exist.\<close>

definition getAllWindows :: "win_state \<Rightarrow> nat list" where
  "getAllWindows st = filter (\<lambda>w. win_live (wins st ! w)) [0..<length (wins st)]"

section \<open>Creating windows\<close>

text \<open>\<open>createWindow\<close>: the new window is created with \<open>show: false\<close>.\<close>

definition createWindow :: "win_state \<Rightarrow> win_state" where
  "createWindow st =
     st\<lparr>wins := wins st @ [\<lparr>wkind = MainWin, visible = False, destroyed = False\<rparr>],
        mainWindow := Some (length (wins st))\<rparr>"

text \<open>The \<open>ready-to-show\<close> handler shows what \<open>mainWindow\<close> holds at that time.\<close>

definition on_ready_to_show :: "win_state \<Rightarrow> win_state" where
  "on_ready_to_show st =
     (case mainWindow st of None \<Rightarrow> st | Some w \<Rightarrow> st\<lparr>wins := set_visible w True (wins st)\<rparr>)"

text \<open>\<open>createControllerWindow\<close>: an existing controller is focused; otherwise a window
  is created, which is shown at once.\<close>

definition createControllerWindow :: "win_state \<Rightarrow> win_state" where
  "createControllerWindow st =
     (case controllerWindow st of
        Some c \<Rightarrow> st
      | None \<Rightarrow>
          st\<lparr>wins := wins st @ [\<lparr>wkind = ControllerWin, visible = True, destroyed = False\<rparr>],
             controllerWindow := Some (length (wins st))\<rparr>)"

section \<open>Closing windows\<close>

text \<open>
  The handlers a window has registered: the controller's \<open>close\<close> handler prevents
  the default and hides the window; the \<open>closed\<close> handlers clear the variable of their
  kind.
\<close>

definition on_closed :: "win_kind \<Rightarrow> win_state \<Rightarrow> win_state" where
  "on_closed k st =
     (case k of MainWin \<Rightarrow> st\<lparr>mainWindow := None\<rparr> | ControllerWin \<Rightarrow> st\<lparr>controllerWindow := None\<rparr>)"

text \<open>
  What a request to close window \<open>w\<close> does to the window: the controller's \<open>close\<close>
  handler prevents the close and hides the window; a main window is destroyed and its
  \<open>closed\<close> handler runs.
\<close>

definition request_close :: "nat \<Rightarrow> win_state \<Rightarrow> win_state" where
  "request_close w st =
     (if w < length (wins st) \<and> win_live (wins st ! w) then
        (case wkind (wins st ! w) of
           ControllerWin \<Rightarrow> st\<lparr>wins := set_visible w False (wins st)\<rparr>
         | MainWin \<Rightarrow> on_closed MainWin (st\<lparr>wins := destroy w (wins st)\<rparr>))
      else st)"

text \<open>\<open>app.quit()\<close>: every window is asked to close; the application ends when none
  is left, and \<open>window-all-closed\<close> is not emitted on this way.\<close>

definition app_quit :: "win_state \<Rightarrow> win_state" where
  "app_quit st =
     (let st1 = fold request_close (getAllWindows st) st
      in if getAllWindows st1 = [] then st1\<lparr>quit := True\<rparr> else st1)"

text \<open>\<open>window-all-closed\<close>: quit unless on macOS.\<close>

definition on_window_all_closed :: "win_state \<Rightarrow> win_state" where
  "on_window_all_closed st = (if \<not> darwin st then app_quit st else st)"

text \<open>A request to close window \<open>w\<close> by the user or by \<open>w.close()\<close>;
  \<open>window-all-closed\<close> follows when the last window has gone.\<close>

definition close_window :: "nat \<Rightarrow> win_state \<Rightarrow> win_state" where
  "close_window w st =
     (if w < length (wins st) \<and> win_live (wins st ! w) then
        (let st1 = request_close w st
         in if getAllWindows st1 = [] then on_window_all_closed st1 else st1)
      else st)"

text \<open>\<open>activate\<close>: a window is created when none exists.\<close>

definition on_activate :: "win_state \<Rightarrow> win_state" where
  "on_activate st = (if length (getAllWindows st) = 0 then createWindow st else st)"

section \<open>The controller channels\<close>

definition show_controller :: "win_state \<Rightarrow> win_state" where
  "show_controller st =
     (let st1 = createControllerWindow st
      in case controllerWindow st1 of
           None \<Rightarrow> st1
         | Some c \<Rightarrow> st1\<lparr>wins := set_visible c True (wins st1)\<rparr>)"

definition hide_controller :: "win_state \<Rightarrow> win_state" where
  "hide_controller st =
     (case controllerWindow st of
        None \<Rightarrow> st
      | Some c \<Rightarrow> st\<lparr>wins := set_visible c False (wins st)\<rparr>)"

definition close_controller :: "win_state \<Rightarrow> win_state" where
  "close_controller st =
     (case controllerWindow st of
        None \<Rightarrow> st
      | Some c \<Rightarrow> (close_window c st)\<lparr>controllerWindow := None\<rparr>)"

definition controller_command :: "string \<Rightarrow> win_state \<Rightarrow> win_state" where
  "controller_command cmd st =
     (case mainWindow st of
        None \<Rightarrow> st
      | Some w \<Rightarrow> st\<lparr>commands := commands st @ [(w, cmd)]\<rparr>)"

section \<open>The application menu\<close>

datatype menu_click = NoClick | QuitClick

datatype menu_item =
    Item string string menu_click
  | Role string
  | Separator

text \<open>The template: for each submenu its label and its items; an item has a label, an
  accelerator and a click handler. The handlers of \<open>New Project\<close>, \<open>Open Project\<close> and
  \<open>Export Video\<close> are empty.\<close>

definition template :: "bool \<Rightarrow> (string \<times> menu_item list) list" where
  "template mac =
     [(''File'',
        [Item ''New Project'' ''CmdOrCtrl+N'' NoClick,
         Item ''Open Project'' ''CmdOrCtrl+O'' NoClick,
         Separator,
         Item ''Export Video'' ''CmdOrCtrl+E'' NoClick,
         Separator,
         Item ''Quit'' (if mac then ''Cmd+Q'' else ''Ctrl+Q'') QuitClick]),
      (''Edit'',
        [Role ''undo'', Role ''redo'', Separator, Role ''cut'', Role ''copy'', Role ''paste'']),
      (''View'',
        [Role ''reload'', Role ''forceReload'', Role ''toggleDevTools'', Separator,
         Role ''resetZoom'', Role ''zoomIn'', Role ''zoomOut'', Separator,
         Role ''togglefullscreen''])]"

fun item_label :: "menu_item \<Rightarrow> string option" where
  "item_label (Item l a c) = Some l"
| "item_label x = None"

fun item_click :: "menu_item \<Rightarrow> menu_click" where
  "item_click (Item l a c) = c"
| "item_click x = NoClick"

text \<open>The click handler of the item with a label, if the menu has such an item.\<close>

definition click_of :: "bool \<Rightarrow> string \<Rightarrow> menu_click option" where
  "click_of mac l =
     map_option item_click
       (List.find (\<lambda>i. item_label i = Some l) (concat (map snd (template mac))))"

definition menu_click :: "string \<Rightarrow> win_state \<Rightarrow> win_state" where
  "menu_click l st =
     (case click_of (darwin st) l of
        Some QuitClick \<Rightarrow> app_quit st
      | _ \<Rightarrow> st)"

section \<open>Events\<close>

datatype win_event =
    Ready
  | ReadyToShow
  | UserClose nat
  | Activate
  | ShowController
  | HideController
  | CloseController
  | ControllerCommand string
  | MenuClick string

text \<open>\<open>app.whenReady\<close> happens once, before any window exists; \<open>ready-to-show\<close> comes
  from a main window that exists and is not shown yet; a request on a controller
  channel comes from a window that exists; a menu item can be chosen once the
  application is ready; after \<open>quit\<close> nothing happens.\<close>

fun win_enabled :: "win_event \<Rightarrow> win_state \<Rightarrow> bool" where
  "win_enabled Ready st = (wins st = [] \<and> \<not> quit st)"
| "win_enabled ReadyToShow st =
     (\<not> quit st \<and> (case mainWindow st of None \<Rightarrow> False | Some w \<Rightarrow> w < length (wins st) \<and> \<not> visible (wins st ! w)))"
| "win_enabled (UserClose w) st = (\<not> quit st \<and> w < length (wins st) \<and> win_live (wins st ! w))"
| "win_enabled Activate st = (\<not> quit st \<and> darwin st \<and> wins st \<noteq> [])"
| "win_enabled (MenuClick l) st = (\<not> quit st \<and> wins st \<noteq> [] \<and> click_of (darwin st) l \<noteq> None)"
| "win_enabled e st = (\<not> quit st \<and> getAllWindows st \<noteq> [])"

fun win_effect :: "win_event \<Rightarrow> win_state \<Rightarrow> win_state" where
  "win_effect Ready st = createWindow st"
| "win_effect ReadyToShow st = on_ready_to_show st"
| "win_effect (UserClose w) st = close_window w st"
| "win_effect Activate st = on_activate st"
| "win_effect ShowController st = show_controller st"
| "win_effect HideController st = hide_controller st"
| "win_effect CloseController st = close_controller st"
| "win_effect (ControllerCommand cmd) st = controller_command cmd st"
| "win_effect (MenuClick l) st = menu_click l st"

inductive win_step :: "win_state \<Rightarrow> win_event \<Rightarrow> win_state \<Rightarrow> bool" where
  win_stepI: "win_enabled e st \<Longrightarrow> win_step st e (win_effect e st)"

inductive win_reachable :: "win_state \<Rightarrow> bool" where
  win_init: "win_reachable (init_wins mac)"
| win_next: "win_reachable st \<Longrightarrow> win_step st e st' \<Longrightarrow> win_reachable st'"

definition win_run :: "win_event list \<Rightarrow> win_state \<Rightarrow> win_state option" where
  "win_run = run_opt (guard win_enabled win_effect)"

section \<open>Specification\<close>

text \<open>The live windows of a kind.\<close>

definition is_live :: "win_kind \<Rightarrow> window \<Rightarrow> bool" where
  "is_live k x \<longleftrightarrow> win_live x \<and> wkind x = k"

definition live_in :: "win_kind \<Rightarrow> window list \<Rightarrow> nat list" where
  "live_in k ws = filter (\<lambda>w. is_live k (ws ! w)) [0..<length ws]"

definition live_of :: "win_kind \<Rightarrow> win_state \<Rightarrow> nat list" where
  "live_of k st = live_in k (wins st)"

text \<open>
  \<open>win_inv\<close>: a window is the live main window exactly when \<open>mainWindow\<close> holds it;
  \<open>controllerWindow\<close> holds a live controller window or nothing; a destroyed window is
  not visible; every forwarded command went to a main window.
\<close>

definition win_inv :: "win_state \<Rightarrow> bool" where
  "win_inv st \<longleftrightarrow>
     list_all (\<lambda>w. is_live MainWin (wins st ! w) = (mainWindow st = Some w)) [0..<length (wins st)]
     \<and> pred_option (\<lambda>w. w < length (wins st)) (mainWindow st)
     \<and> pred_option (\<lambda>c. c < length (wins st) \<and> is_live ControllerWin (wins st ! c))
          (controllerWindow st)
     \<and> list_all (\<lambda>x. destroyed x \<longrightarrow> \<not> visible x) (wins st)
     \<and> list_all (\<lambda>(w, cmd). w < length (wins st) \<and> wkind (wins st ! w) = MainWin) (commands st)"

text \<open>The controller windows that exist and that no variable refers to.\<close>

definition orphans :: "win_state \<Rightarrow> nat list" where
  "orphans st = filter (\<lambda>w. Some w \<noteq> controllerWindow st) (live_of ControllerWin st)"

text \<open>The application runs without a main window and has no way to get one: not on
  macOS, not quit, no main window, and a controller window that keeps it alive.\<close>

definition headless :: "win_state \<Rightarrow> bool" where
  "headless st \<longleftrightarrow>
     \<not> darwin st \<and> \<not> quit st \<and> mainWindow st = None \<and> live_of MainWin st = []
     \<and> live_of ControllerWin st \<noteq> []"

text \<open>The application runs and has a controller window: as the lemmas show, it can
  then no longer be ended.\<close>

definition unquittable :: "win_state \<Rightarrow> bool" where
  "unquittable st \<longleftrightarrow> \<not> quit st \<and> live_of ControllerWin st \<noteq> []"

lemmas win_defs =
  init_wins_def set_visible_def destroy_def win_live_def getAllWindows_def createWindow_def
  on_ready_to_show_def createControllerWindow_def on_closed_def request_close_def app_quit_def
  on_window_all_closed_def close_window_def on_activate_def show_controller_def hide_controller_def
  close_controller_def controller_command_def

section \<open>Lemmas: windows by index\<close>

lemma length_set_visible [simp]: "length (set_visible w v ws) = length ws"
  by (simp add: set_visible_def)

lemma length_destroy [simp]: "length (destroy w ws) = length ws"
  by (simp add: destroy_def)

lemma nth_set_visible:
  "j < length ws \<Longrightarrow> set_visible w v ws ! j = (if j = w then (ws ! j)\<lparr>visible := v\<rparr> else ws ! j)"
  by (simp add: set_visible_def nth_list_update)

lemma nth_destroy:
  "j < length ws \<Longrightarrow>
   destroy w ws ! j = (if j = w then (ws ! j)\<lparr>visible := False, destroyed := True\<rparr> else ws ! j)"
  by (simp add: destroy_def nth_list_update)

lemma is_live_set_visible [simp]:
  "j < length ws \<Longrightarrow> is_live k (set_visible w v ws ! j) = is_live k (ws ! j)"
  by (simp add: nth_set_visible is_live_def win_live_def)

lemma is_live_destroy:
  "j < length ws \<Longrightarrow> is_live k (destroy w ws ! j) = (j \<noteq> w \<and> is_live k (ws ! j))"
  by (simp add: nth_destroy is_live_def win_live_def)

lemma wkind_set_visible [simp]:
  "j < length ws \<Longrightarrow> wkind (set_visible w v ws ! j) = wkind (ws ! j)"
  by (simp add: nth_set_visible)

lemma wkind_destroy [simp]: "j < length ws \<Longrightarrow> wkind (destroy w ws ! j) = wkind (ws ! j)"
  by (simp add: nth_destroy)

lemma filter_upt_snoc:
  "filter (\<lambda>i. P i ((xs @ [x]) ! i)) [0..<length (xs @ [x])] =
     filter (\<lambda>i. P i (xs ! i)) [0..<length xs] @ (if P (length xs) x then [length xs] else [])"
proof -
  have "filter (\<lambda>i. P i ((xs @ [x]) ! i)) [0..<length xs] = filter (\<lambda>i. P i (xs ! i)) [0..<length xs]"
    by (rule filter_cong) (simp_all add: nth_append)
  then show ?thesis by simp
qed

lemma filter_upt_cong:
  assumes "length ys = length xs" and "\<And>i. i < length xs \<Longrightarrow> P i (ys ! i) = Q i (xs ! i)"
  shows "filter (\<lambda>i. P i (ys ! i)) [0..<length ys] = filter (\<lambda>i. Q i (xs ! i)) [0..<length xs]"
  unfolding assms(1) by (rule filter_cong) (simp_all add: assms(2))

lemma list_all_upt_snoc:
  "list_all (\<lambda>i. P i ((xs @ [x]) ! i)) [0..<length (xs @ [x])] \<longleftrightarrow>
     list_all (\<lambda>i. P i (xs ! i)) [0..<length xs] \<and> P (length xs) x"
  by (auto simp: list_all_iff nth_append)

lemma list_all_upt_iff:
  "list_all (\<lambda>i. P i) [0..<n] \<longleftrightarrow> (\<forall>i<n. P i)"
  by (auto simp: list_all_iff)

section \<open>Lemmas: each operation keeps the state well formed\<close>

lemma win_inv_alt:
  "win_inv st \<longleftrightarrow>
     (\<forall>w<length (wins st). is_live MainWin (wins st ! w) = (mainWindow st = Some w))
     \<and> (\<forall>w. mainWindow st = Some w \<longrightarrow> w < length (wins st))
     \<and> (\<forall>c. controllerWindow st = Some c \<longrightarrow> c < length (wins st) \<and> is_live ControllerWin (wins st ! c))
     \<and> (\<forall>x \<in> set (wins st). destroyed x \<longrightarrow> \<not> visible x)
     \<and> (\<forall>(w, cmd) \<in> set (commands st). w < length (wins st) \<and> wkind (wins st ! w) = MainWin)"
  by (cases "mainWindow st"; cases "controllerWindow st")
    (auto simp: win_inv_def list_all_iff)

lemma win_inv_init: "win_inv (init_wins mac)"
  by (simp add: win_inv_def init_wins_def)

lemma set_set_visible:
  "x \<in> set (set_visible w v ws) \<Longrightarrow> x \<in> set ws \<or> (w < length ws \<and> x = (ws ! w)\<lparr>visible := v\<rparr>)"
  by (auto simp: set_visible_def split: if_splits dest: subsetD [OF set_update_subset_insert])

lemma set_destroy:
  "x \<in> set (destroy w ws) \<Longrightarrow>
   x \<in> set ws \<or> (w < length ws \<and> x = (ws ! w)\<lparr>visible := False, destroyed := True\<rparr>)"
  by (auto simp: destroy_def split: if_splits dest: subsetD [OF set_update_subset_insert])

lemma win_inv_show:
  assumes "win_inv st" and "w < length (wins st)" and "win_live (wins st ! w)"
  shows "win_inv (st\<lparr>wins := set_visible w v (wins st)\<rparr>)"
  using assms unfolding win_inv_alt
  by (auto simp: win_live_def dest!: set_set_visible)

lemma win_inv_hide:
  assumes "win_inv st"
  shows "win_inv (st\<lparr>wins := set_visible w False (wins st)\<rparr>)"
  using assms unfolding win_inv_alt
  by (auto dest!: set_set_visible)

lemma win_inv_createWindow [cf_inv]:
  assumes "win_inv st" and "live_of MainWin st = []"
  shows "win_inv (createWindow st)"
proof -
  from assms(2) have none: "\<forall>w<length (wins st). \<not> is_live MainWin (wins st ! w)"
    by (auto simp: live_of_def live_in_def filter_empty_conv)
  with assms(1) have "mainWindow st = None" unfolding win_inv_alt by (cases "mainWindow st") auto
  with assms(1) none show ?thesis unfolding win_inv_alt
    by (auto simp: createWindow_def nth_append is_live_def win_live_def less_Suc_eq)
qed

lemma win_inv_on_ready_to_show [cf_inv]: "win_inv st \<Longrightarrow> win_inv (on_ready_to_show st)"
proof (cases "mainWindow st")
  case None
  then show "win_inv st \<Longrightarrow> ?thesis" by (simp add: on_ready_to_show_def)
next
  case (Some w)
  assume inv: "win_inv st"
  with Some have "w < length (wins st)" "win_live (wins st ! w)"
    unfolding win_inv_alt by (auto simp: is_live_def)
  with inv show ?thesis by (simp add: on_ready_to_show_def Some win_inv_show)
qed

lemma win_inv_createControllerWindow [cf_inv]:
  assumes "win_inv st"
  shows "win_inv (createControllerWindow st)"
proof (cases "controllerWindow st")
  case None
  with assms show ?thesis unfolding win_inv_alt
    by (auto simp: createControllerWindow_def nth_append is_live_def win_live_def less_Suc_eq)
next
  case (Some c)
  with assms show ?thesis by (simp add: createControllerWindow_def)
qed

lemma win_inv_controller_command [cf_inv]: "win_inv st \<Longrightarrow> win_inv (controller_command cmd st)"
  unfolding win_inv_alt
  by (cases "mainWindow st") (auto simp: controller_command_def is_live_def)

lemma live_of_empty_iff:
  "live_of k st = [] \<longleftrightarrow> (\<forall>w<length (wins st). \<not> is_live k (wins st ! w))"
  by (auto simp: live_of_def live_in_def filter_empty_conv)

lemma getAllWindows_empty_iff:
  "getAllWindows st = [] \<longleftrightarrow> (\<forall>w<length (wins st). destroyed (wins st ! w))"
  by (auto simp: getAllWindows_def filter_empty_conv win_live_def)

lemma win_inv_destroy_main:
  assumes "win_inv st" and "w < length (wins st)" and "is_live MainWin (wins st ! w)"
  shows "win_inv (on_closed MainWin (st\<lparr>wins := destroy w (wins st)\<rparr>))"
proof -
  from assms have m: "mainWindow st = Some w" unfolding win_inv_alt by auto
  have c: "controllerWindow st \<noteq> Some w"
    using assms unfolding win_inv_alt by (auto simp: is_live_def)
  from assms m c show ?thesis unfolding win_inv_alt
    by (auto simp: on_closed_def is_live_destroy dest!: set_destroy)
qed

lemma win_inv_quit [simp]: "win_inv (st\<lparr>quit := q\<rparr>) = win_inv st"
  by (simp add: win_inv_def)

lemma win_inv_request_close [cf_inv]:
  assumes "win_inv st"
  shows "win_inv (request_close w st)"
proof (cases "w < length (wins st) \<and> win_live (wins st ! w)")
  case False
  with assms show ?thesis by (auto simp: request_close_def)
next
  case True
  show ?thesis
  proof (cases "wkind (wins st ! w)")
    case MainWin
    with True have "is_live MainWin (wins st ! w)" by (simp add: is_live_def)
    with assms True have "win_inv (on_closed MainWin (st\<lparr>wins := destroy w (wins st)\<rparr>))"
      by (intro win_inv_destroy_main) simp_all
    with True MainWin show ?thesis by (simp add: request_close_def)
  next
    case ControllerWin
    with True assms show ?thesis by (simp add: request_close_def win_inv_hide)
  qed
qed

lemma win_inv_fold_request_close: "win_inv st \<Longrightarrow> win_inv (fold request_close ws st)"
  by (induction ws arbitrary: st) (simp_all add: win_inv_request_close)

lemma win_inv_app_quit [cf_inv]: "win_inv st \<Longrightarrow> win_inv (app_quit st)"
  by (simp add: app_quit_def Let_def win_inv_fold_request_close)

lemma win_inv_on_window_all_closed [cf_inv]: "win_inv st \<Longrightarrow> win_inv (on_window_all_closed st)"
  by (simp add: on_window_all_closed_def win_inv_app_quit)

lemma win_inv_close_window [cf_inv]: "win_inv st \<Longrightarrow> win_inv (close_window w st)"
  by (simp add: close_window_def Let_def win_inv_request_close win_inv_on_window_all_closed)

lemma win_inv_menu_click [cf_inv]: "win_inv st \<Longrightarrow> win_inv (menu_click l st)"
  by (simp add: menu_click_def win_inv_app_quit split: option.splits menu_click.splits)

lemma win_inv_on_activate [cf_inv]:
  assumes "win_inv st"
  shows "win_inv (on_activate st)"
proof (cases "getAllWindows st = []")
  case True
  then have "live_of MainWin st = []"
    by (auto simp: live_of_empty_iff getAllWindows_empty_iff is_live_def win_live_def)
  with assms True show ?thesis by (simp add: on_activate_def win_inv_createWindow)
next
  case False
  with assms show ?thesis by (simp add: on_activate_def)
qed

lemma win_inv_show_controller [cf_inv]:
  assumes "win_inv st"
  shows "win_inv (show_controller st)"
proof -
  let ?st1 = "createControllerWindow st"
  have inv: "win_inv ?st1" using assms by (rule win_inv_createControllerWindow)
  show ?thesis
  proof (cases "controllerWindow ?st1")
    case None
    with inv show ?thesis by (simp add: show_controller_def Let_def)
  next
    case (Some c)
    with inv have "c < length (wins ?st1)" "win_live (wins ?st1 ! c)"
      unfolding win_inv_alt by (auto simp: is_live_def)
    with inv Some show ?thesis by (simp add: show_controller_def Let_def win_inv_show)
  qed
qed

lemma win_inv_hide_controller [cf_inv]: "win_inv st \<Longrightarrow> win_inv (hide_controller st)"
  by (cases "controllerWindow st") (simp_all add: hide_controller_def win_inv_hide)

lemma win_inv_forget_controller: "win_inv st \<Longrightarrow> win_inv (st\<lparr>controllerWindow := None\<rparr>)"
  by (simp add: win_inv_def)

lemma win_inv_close_controller [cf_inv]: "win_inv st \<Longrightarrow> win_inv (close_controller st)"
  by (cases "controllerWindow st")
    (simp_all add: close_controller_def win_inv_forget_controller win_inv_close_window)

lemma win_enabled_Ready_D: "win_enabled Ready st \<Longrightarrow> live_of MainWin st = []"
  by (simp add: live_of_def live_in_def)

lemma win_inv_effect: "win_inv st \<Longrightarrow> win_enabled e st \<Longrightarrow> win_inv (win_effect e st)"
  by (cases e) (simp_all add: cf_inv win_enabled_Ready_D)

lemma win_inv_step: "win_step st e st' \<Longrightarrow> win_inv st \<Longrightarrow> win_inv st'"
  by (induction rule: win_step.induct) (rule win_inv_effect)

lemma win_reachable_inv: "win_reachable st \<Longrightarrow> win_inv st"
  by (induction rule: win_reachable.induct) (auto intro: win_inv_init win_inv_step)

lemma win_run_simps [simp]:
  "win_run [] st = Some st"
  "win_run (e # es) st = (if win_enabled e st then win_run es (win_effect e st) else None)"
  by (simp_all add: win_run_def guard_def)

lemma win_run_invariant:
  assumes "win_run es st = Some st'" and "I st"
    and "\<And>e s. I s \<Longrightarrow> win_enabled e s \<Longrightarrow> I (win_effect e s)"
  shows "I st'"
  using assms unfolding win_run_def by (rule run_guard_invariant)

inductive_simps win_step_iff: "win_step st e st'"

lemma win_run_step:
  "win_run (e # es) st = Some st' \<longleftrightarrow> (\<exists>st1. win_step st e st1 \<and> win_run es st1 = Some st')"
  by (auto simp: win_step_iff)

lemma win_run_reachable:
  "win_reachable st \<Longrightarrow> win_run es st = Some st' \<Longrightarrow> win_reachable st'"
  by (erule win_run_invariant [rotated]) (auto intro: win_next win_stepI)

section \<open>Lemmas: the controller window\<close>

lemma live_in_snoc [simp]:
  "live_in k (ws @ [x]) = live_in k ws @ (if is_live k x then [length ws] else [])"
  using filter_upt_snoc [of "\<lambda>i. is_live k" ws x] by (simp add: live_in_def)

lemma live_in_set_visible [simp]: "live_in k (set_visible w v ws) = live_in k ws"
  unfolding live_in_def
  using filter_upt_cong [of "set_visible w v ws" ws "\<lambda>i. is_live k" "\<lambda>i. is_live k"]
  by simp

lemma live_of_bound: "w \<in> set (live_of k st) \<Longrightarrow> w < length (wins st)"
  by (simp add: live_of_def live_in_def)

lemma request_close_controller:
  assumes "w < length (wins st)" and "win_live (wins st ! w)" and "wkind (wins st ! w) = ControllerWin"
  shows "request_close w st = st\<lparr>wins := set_visible w False (wins st)\<rparr>"
  using assms by (simp add: request_close_def)

lemma close_window_controller:
  assumes "w < length (wins st)" and "win_live (wins st ! w)" and "wkind (wins st ! w) = ControllerWin"
  shows "close_window w st = st\<lparr>wins := set_visible w False (wins st)\<rparr>"
proof -
  have "\<not> destroyed (set_visible w False (wins st) ! w)"
    using assms by (simp add: nth_set_visible win_live_def)
  with assms(1) have "getAllWindows (st\<lparr>wins := set_visible w False (wins st)\<rparr>) \<noteq> []"
    by (auto simp: getAllWindows_empty_iff)
  with assms show ?thesis by (simp add: close_window_def request_close_controller)
qed

lemma app_quit_no_windows: "getAllWindows st = [] \<Longrightarrow> app_quit st = st\<lparr>quit := True\<rparr>"
  by (simp add: app_quit_def)

lemma commands_request_close [simp]: "commands (request_close w st) = commands st"
  by (simp add: request_close_def on_closed_def split: win_kind.splits)

lemma commands_fold_request_close [simp]: "commands (fold request_close ws st) = commands st"
  by (induction ws arbitrary: st) simp_all

lemma commands_app_quit [simp]: "commands (app_quit st) = commands st"
  by (simp add: app_quit_def Let_def)

lemma commands_close_window [simp]: "commands (close_window w st) = commands st"
  by (simp add: close_window_def on_window_all_closed_def Let_def)

lemma show_then_close:
  assumes "controllerWindow st = None"
  shows "close_controller (show_controller st) =
     st\<lparr>wins := wins st @ [\<lparr>wkind = ControllerWin, visible = False, destroyed = False\<rparr>]\<rparr>"
  using assms
  by (simp add: show_controller_def createControllerWindow_def close_controller_def
      close_window_controller set_visible_def win_live_def Let_def)

lemma orphans_show_then_close:
  assumes "controllerWindow st = None"
  shows "orphans (close_controller (show_controller st)) = orphans st @ [length (wins st)]"
proof -
  have "Some w \<noteq> controllerWindow st" for w using assms by simp
  then show ?thesis
    by (simp add: show_then_close [OF assms] orphans_def live_of_def is_live_def win_live_def assms)
qed

section \<open>Lemmas: without a main window\<close>

lemma rounds_keep_no_controller:
  "controllerWindow st = None \<Longrightarrow>
   controllerWindow (((\<lambda>s. close_controller (show_controller s)) ^^ n) st) = None"
  by (induction n) (simp_all add: show_then_close)

lemma win_run_headless_start:
  "win_run [Ready, ReadyToShow, ShowController, UserClose 0] (init_wins False) =
     Some \<lparr>mainWindow = None, controllerWindow = Some 1,
       wins = [\<lparr>wkind = MainWin, visible = False, destroyed = True\<rparr>,
               \<lparr>wkind = ControllerWin, visible = True, destroyed = False\<rparr>],
       darwin = False, quit = False, commands = []\<rparr>"
  by (simp add: win_defs Let_def)

section \<open>Lemmas: quitting\<close>

lemma wins_request_close_length [simp]: "length (wins (request_close w st)) = length (wins st)"
  by (simp add: request_close_def on_closed_def split: win_kind.splits)

lemma quit_request_close [simp]: "quit (request_close w st) = quit st"
  by (simp add: request_close_def on_closed_def split: win_kind.splits)

lemma quit_fold_request_close [simp]: "quit (fold request_close ws st) = quit st"
  by (induction ws arbitrary: st) simp_all

lemma live_in_destroy:
  "live_in k (destroy w ws) = removeAll w (live_in k ws)"
  unfolding live_in_def removeAll_filter_not_eq filter_filter
  using filter_upt_cong [of "destroy w ws" ws "\<lambda>i. is_live k" "\<lambda>i x. w \<noteq> i \<and> is_live k x"]
  by (auto simp: is_live_destroy conj_commute)

lemma live_of_on_closed [simp]: "live_of k (on_closed j st) = live_of k st"
  by (simp add: live_of_def on_closed_def split: win_kind.splits)

lemma live_of_request_close:
  "live_of k (request_close w st) = (if k = MainWin then removeAll w (live_of k st) else live_of k st)"
proof (cases "w < length (wins st) \<and> win_live (wins st ! w)")
  case False
  then have "w \<notin> set (live_of k st)" by (auto simp: live_of_def live_in_def is_live_def)
  with False show ?thesis by (auto simp: request_close_def)
next
  case True
  show ?thesis
  proof (cases "wkind (wins st ! w)")
    case MainWin
    then have "w \<notin> set (live_of ControllerWin st)" by (simp add: live_of_def live_in_def is_live_def)
    with True MainWin show ?thesis
      by (cases k) (simp_all add: request_close_def live_of_def [of _ "st\<lparr>wins := _\<rparr>"] live_in_destroy, simp_all add: live_of_def)
  next
    case ControllerWin
    then have "w \<notin> set (live_of MainWin st)" by (simp add: live_of_def live_in_def is_live_def)
    with True ControllerWin show ?thesis
      by (simp add: request_close_controller) (simp add: live_of_def)
  qed
qed

lemma live_of_fold_request_close:
  "live_of ControllerWin (fold request_close ws st) = live_of ControllerWin st"
  "set (live_of MainWin (fold request_close ws st)) = set (live_of MainWin st) - set ws"
  by (induction ws arbitrary: st) (auto simp: live_of_request_close)

lemma getAllWindows_split:
  "set (getAllWindows st) = set (live_of MainWin st) \<union> set (live_of ControllerWin st)"
proof -
  have "is_live MainWin x \<or> is_live ControllerWin x \<longleftrightarrow> win_live x" for x
    by (cases "wkind x") (simp_all add: is_live_def)
  then show ?thesis by (auto simp: getAllWindows_def live_of_def live_in_def is_live_def)
qed

lemma getAllWindows_empty_live:
  "getAllWindows st = [] \<longleftrightarrow> live_of MainWin st = [] \<and> live_of ControllerWin st = []"
  using getAllWindows_split [of st] by (metis Un_empty set_empty)

lemma live_main_closed_all [simp]:
  "live_of MainWin (fold request_close (getAllWindows st) st) = []"
proof -
  have "set (live_of MainWin (fold request_close (getAllWindows st) st)) = {}"
    by (simp add: live_of_fold_request_close getAllWindows_split)
  then show ?thesis by (simp only: set_empty)
qed

lemma live_of_quit [simp]: "live_of k (st\<lparr>quit := q\<rparr>) = live_of k st"
  by (simp add: live_of_def)

lemma app_quit_live:
  "live_of MainWin (app_quit st) = []" "live_of ControllerWin (app_quit st) = live_of ControllerWin st"
  by (simp_all add: app_quit_def Let_def live_of_fold_request_close)

lemma quit_app_quit: "quit (app_quit st) \<longleftrightarrow> quit st \<or> live_of ControllerWin st = []"
  by (simp add: app_quit_def Let_def getAllWindows_empty_live live_of_fold_request_close)

lemma close_window_with_controller:
  assumes "live_of ControllerWin st \<noteq> []"
  shows "close_window w st = request_close w st"
proof -
  from assms have "live_of ControllerWin (request_close w st) \<noteq> []"
    by (simp add: live_of_request_close)
  then have "getAllWindows (request_close w st) \<noteq> []" by (simp add: getAllWindows_empty_live)
  then show ?thesis
    by (cases "w < length (wins st) \<and> win_live (wins st ! w)")
      (simp add: close_window_def Let_def, auto simp: close_window_def request_close_def)
qed

lemma live_of_createWindow [simp]:
  "live_of k (createWindow st) = live_of k st @ (if k = MainWin then [length (wins st)] else [])"
  by (simp add: live_of_def createWindow_def is_live_def win_live_def)

lemma live_of_visible [simp]: "live_of k (st\<lparr>wins := set_visible w v (wins st)\<rparr>) = live_of k st"
  by (simp add: live_of_def)

lemma live_of_fields [simp]:
  "live_of k (st\<lparr>controllerWindow := c\<rparr>) = live_of k st"
  "live_of k (st\<lparr>commands := cs\<rparr>) = live_of k st"
  by (simp_all add: live_of_def)

lemma live_ctrl_show_controller:
  "live_of ControllerWin (show_controller st) =
     live_of ControllerWin st @ (if controllerWindow st = None then [length (wins st)] else [])"
  by (cases "controllerWindow st")
    (simp_all add: show_controller_def createControllerWindow_def Let_def,
      simp add: live_of_def is_live_def win_live_def)

lemma click_of_Quit [simp]: "click_of mac ''Quit'' = Some QuitClick"
  by (simp add: click_of_def template_def)

lemma click_of_cases: "click_of mac l = Some QuitClick \<longleftrightarrow> l = ''Quit''"
  by (auto simp: click_of_def template_def)

lemma menu_click_cases: "menu_click l st = (if l = ''Quit'' then app_quit st else st)"
  using click_of_cases [of "darwin st" l]
  by (auto simp: menu_click_def split: option.splits menu_click.splits)

lemma quit_simple_ops [simp]:
  "quit (createWindow st) = quit st"
  "quit (on_ready_to_show st) = quit st"
  "quit (show_controller st) = quit st"
  "quit (hide_controller st) = quit st"
  "quit (controller_command cmd st) = quit st"
  by (simp_all add: createWindow_def on_ready_to_show_def show_controller_def
      createControllerWindow_def hide_controller_def controller_command_def Let_def
      split: option.splits)

lemma live_of_simple_ops [simp]:
  "live_of k (on_ready_to_show st) = live_of k st"
  "live_of k (hide_controller st) = live_of k st"
  "live_of k (controller_command cmd st) = live_of k st"
  by (simp_all add: on_ready_to_show_def hide_controller_def controller_command_def
      split: option.splits)

lemma unquittable_effect:
  assumes "unquittable st" and "win_enabled e st"
  shows "unquittable (win_effect e st)"
proof -
  from assms(1) have q: "\<not> quit st" and c: "live_of ControllerWin st \<noteq> []"
    by (simp_all add: unquittable_def)
  from c have w: "getAllWindows st \<noteq> []" by (simp add: getAllWindows_empty_live)
  from q c w show ?thesis
    by (cases e)
      (simp_all add: unquittable_def close_window_with_controller live_of_request_close
        on_activate_def live_ctrl_show_controller close_controller_def menu_click_cases
        quit_app_quit app_quit_live split: option.splits)
qed

lemma unquittable_run: "unquittable st \<Longrightarrow> win_run es st = Some st' \<Longrightarrow> unquittable st'"
  by (erule win_run_invariant [rotated]) (auto intro: unquittable_effect)

lemma mainWindow_request_close:
  "mainWindow st = None \<Longrightarrow> mainWindow (request_close w st) = None"
  by (simp add: request_close_def on_closed_def split: win_kind.splits)

lemma mainWindow_fold_request_close:
  "mainWindow st = None \<Longrightarrow> mainWindow (fold request_close ws st) = None"
  by (induction ws arbitrary: st) (simp_all add: mainWindow_request_close)

lemma mainWindow_app_quit: "mainWindow st = None \<Longrightarrow> mainWindow (app_quit st) = None"
  by (simp add: app_quit_def Let_def mainWindow_fold_request_close)

lemma darwin_request_close [simp]: "darwin (request_close w st) = darwin st"
  by (simp add: request_close_def on_closed_def split: win_kind.splits)

lemma darwin_fold_request_close [simp]: "darwin (fold request_close ws st) = darwin st"
  by (induction ws arbitrary: st) simp_all

lemma darwin_app_quit [simp]: "darwin (app_quit st) = darwin st"
  by (simp add: app_quit_def Let_def)

lemma show_controller_fields [simp]:
  "mainWindow (show_controller st) = mainWindow st"
  "darwin (show_controller st) = darwin st"
  "commands (show_controller st) = commands st"
  "live_of MainWin (show_controller st) = live_of MainWin st"
  by (cases "controllerWindow st";
      simp add: show_controller_def createControllerWindow_def Let_def live_of_def is_live_def)+

lemma headless_unquittable: "headless st \<Longrightarrow> unquittable st"
  by (simp add: headless_def unquittable_def)

text \<open>Without a main window an event leaves the variable, the platform and the
  commands as they are, and creates no main window.\<close>

lemma headless_frame:
  assumes "headless st" and "win_enabled e st"
  shows "\<not> darwin (win_effect e st) \<and> mainWindow (win_effect e st) = None \<and>
         live_of MainWin (win_effect e st) = [] \<and> commands (win_effect e st) = commands st"
proof -
  from assms(1) have h: "\<not> darwin st" "mainWindow st = None" "live_of MainWin st = []"
    and c: "live_of ControllerWin st \<noteq> []"
    by (simp_all add: headless_def)
  from c have w: "getAllWindows st \<noteq> []" "wins st \<noteq> []"
    by (auto simp: getAllWindows_empty_live live_of_def live_in_def)
  from h c w assms(2) show ?thesis
    by (cases e; cases "controllerWindow st")
      (simp_all add: on_ready_to_show_def close_window_with_controller live_of_request_close
        mainWindow_request_close on_activate_def hide_controller_def close_controller_def
        controller_command_def menu_click_cases app_quit_live mainWindow_app_quit)
qed

lemma headless_effect:
  assumes "headless st" and "win_enabled e st"
  shows "headless (win_effect e st)"
  using headless_frame [OF assms] unquittable_effect [OF headless_unquittable [OF assms(1)] assms(2)]
  by (simp add: headless_def unquittable_def)

lemma headless_commands:
  assumes "headless st" and "win_enabled e st"
  shows "commands (win_effect e st) = commands st"
  using headless_frame [OF assms] by simp

lemma headless_run: "headless st \<Longrightarrow> win_run es st = Some st' \<Longrightarrow> headless st'"
  by (erule win_run_invariant [rotated]) (auto intro: headless_effect)

lemma quit_from_menu:
  assumes "\<not> quit st" and "wins st \<noteq> []" and "live_of ControllerWin st = []"
  shows "win_run [MenuClick ''Quit''] st = Some (app_quit st) \<and> quit (app_quit st)"
  using assms by (simp add: menu_click_cases quit_app_quit)

section \<open>Properties\<close>

text \<open>
  Property C9 (invariant). In every state the main process reaches, a window is the
  live main window exactly when \<open>mainWindow\<close> holds it, \<open>controllerWindow\<close> holds a
  live controller window or nothing, no destroyed window is visible, and every
  forwarded controller command went to a main window.
\<close>

theorem window_refs_invariant:
  assumes "win_reachable st"
  shows "win_inv st"
  using assms by (rule win_reachable_inv)

theorem window_refs_invariant_witness:
  "win_inv \<lparr>mainWindow = None, controllerWindow = Some 1,
       wins = [\<lparr>wkind = MainWin, visible = False, destroyed = True\<rparr>,
               \<lparr>wkind = ControllerWin, visible = True, destroyed = False\<rparr>],
       darwin = False, quit = False, commands = []\<rparr>"
  by (rule window_refs_invariant, rule win_run_reachable [OF win_init win_run_headless_start])

text \<open>
  Property C31 (safety). \<open>close-controller\<close> does not close the controller window:
  the window's own \<open>close\<close> handler prevents the close and hides it, and the handler
  of the channel then forgets the window. Every round of \<open>show-controller\<close> and
  \<open>close-controller\<close> therefore leaves one more hidden controller window that no
  variable refers to.
\<close>

theorem closing_controller_orphans_window:
  assumes "controllerWindow st = None"
  shows "orphans (close_controller (show_controller st)) = orphans st @ [length (wins st)] \<and>
         controllerWindow (close_controller (show_controller st)) = None \<and>
         length (orphans (((\<lambda>s. close_controller (show_controller s)) ^^ n) st))
           = length (orphans st) + n"
proof -
  have "length (orphans (((\<lambda>s. close_controller (show_controller s)) ^^ n) st))
      = length (orphans st) + n"
    by (induction n) (simp_all add: orphans_show_then_close rounds_keep_no_controller [OF assms])
  with assms show ?thesis by (simp add: orphans_show_then_close) (simp add: show_then_close)
qed

theorem closing_controller_orphans_window_witness:
  "orphans (close_controller (show_controller (createWindow (init_wins False)))) = [1] \<and>
   controllerWindow (close_controller (show_controller (createWindow (init_wins False)))) = None \<and>
   length (orphans (((\<lambda>s. close_controller (show_controller s)) ^^ 3)
     (createWindow (init_wins False)))) = 3"
proof -
  have c: "controllerWindow (createWindow (init_wins False)) = None"
    and l: "length (wins (createWindow (init_wins False))) = 1"
    by (simp_all add: createWindow_def init_wins_def)
  have o: "orphans (createWindow (init_wins False)) = []"
    by (simp add: createWindow_def init_wins_def orphans_def live_of_def is_live_def live_in_def)
  from closing_controller_orphans_window [OF c, of 3] show ?thesis by (simp add: o l)
qed

text \<open>
  Property C32 (safety). Off macOS, once the main window is closed while a controller
  window exists, the application neither quits nor gets a main window again, whatever
  happens afterwards: \<open>window-all-closed\<close> never fires because the controller window
  cannot be closed, and commands of the controller are dropped.
\<close>

theorem headless_forever:
  assumes "headless st" and "win_run es st = Some st'"
  shows "\<not> quit st' \<and> mainWindow st' = None \<and> live_of ControllerWin st' \<noteq> [] \<and>
         commands st' = commands st"
proof -
  have "headless st' \<and> commands st' = commands st"
    using assms(2)
    by (rule win_run_invariant [where I = "\<lambda>s. headless s \<and> commands s = commands st"])
      (simp_all add: assms(1) headless_effect headless_commands)
  then show ?thesis by (simp add: headless_def)
qed

theorem headless_forever_witness:
  "\<exists>st. win_run [Ready, ReadyToShow, ShowController, UserClose 0] (init_wins False) = Some st \<and>
     (\<exists>st'. win_run [ControllerCommand ''play'', CloseController, ShowController] st = Some st' \<and>
        \<not> quit st' \<and> mainWindow st' = None \<and> commands st' = [])"
proof -
  let ?st = "\<lparr>mainWindow = None, controllerWindow = Some 1,
       wins = [\<lparr>wkind = MainWin, visible = False, destroyed = True\<rparr>,
               \<lparr>wkind = ControllerWin, visible = True, destroyed = False\<rparr>],
       darwin = False, quit = False, commands = []\<rparr>"
  have h: "headless ?st"
    by (simp add: headless_def live_of_def live_in_def is_live_def win_live_def)
  have "\<exists>st'. win_run [ControllerCommand ''play'', CloseController, ShowController] ?st = Some st'"
    by (simp add: getAllWindows_def win_live_def controller_command_def close_controller_def
        close_window_def request_close_def set_visible_def Let_def)
  then obtain st' where run: "win_run [ControllerCommand ''play'', CloseController, ShowController] ?st = Some st'"
    by blast
  from headless_forever [OF h run] run win_run_headless_start show ?thesis by auto
qed

text \<open>
  Property C14 (liveness). A running application can be ended exactly when it has no
  controller window: without one, \<open>Quit\<close> in the menu closes the main window and ends
  the application; with one, shown, hidden or forgotten, no sequence of events ends
  it, because the controller's \<open>close\<close> handler refuses every request to close and
  \<open>app.quit()\<close> gives up when a window stays.
\<close>

theorem quit_possible_iff_no_controller:
  assumes "\<not> quit st" and "wins st \<noteq> []"
  shows "(\<exists>es st'. win_run es st = Some st' \<and> quit st') \<longleftrightarrow> live_of ControllerWin st = []"
proof
  assume "\<exists>es st'. win_run es st = Some st' \<and> quit st'"
  then obtain es st' where run: "win_run es st = Some st'" and q: "quit st'" by blast
  show "live_of ControllerWin st = []"
  proof (rule ccontr)
    assume "live_of ControllerWin st \<noteq> []"
    with assms(1) have "unquittable st" by (simp add: unquittable_def)
    from unquittable_run [OF this run] q show False by (simp add: unquittable_def)
  qed
next
  assume "live_of ControllerWin st = []"
  with assms have "win_run [MenuClick ''Quit''] st = Some (app_quit st) \<and> quit (app_quit st)"
    by (rule quit_from_menu)
  then show "\<exists>es st'. win_run es st = Some st' \<and> quit st'" by blast
qed

theorem quit_possible_iff_no_controller_witness:
  "(\<exists>es st'. win_run es (createWindow (init_wins False)) = Some st' \<and> quit st') \<and>
   \<not> (\<exists>es st'. win_run es (show_controller (createWindow (init_wins False))) = Some st' \<and> quit st')"
proof -
  let ?a = "createWindow (init_wins False)"
  have a: "\<not> quit ?a" "wins ?a \<noteq> []" "live_of ControllerWin ?a = []"
    by (simp_all add: init_wins_def createWindow_def live_of_def live_in_def is_live_def)
  have b: "\<not> quit (show_controller ?a)" "wins (show_controller ?a) \<noteq> []"
    "live_of ControllerWin (show_controller ?a) \<noteq> []"
    by (simp_all add: live_ctrl_show_controller)
      (simp_all add: init_wins_def createWindow_def show_controller_def
        createControllerWindow_def set_visible_def Let_def)
  from quit_possible_iff_no_controller [OF a(1,2)] quit_possible_iff_no_controller [OF b(1,2)]
    a(3) b(3) show ?thesis by blast
qed

text \<open>
  \<open>app.quit()\<close> closes every main window, leaves the
  controller windows as they are apart from hiding them, and ends the application
  exactly when no controller window is left; of the menu only \<open>Quit\<close> does anything,
  the handlers of the other items are empty.
\<close>

theorem menu_quit_only:
  "menu_click l st = (if l = ''Quit'' then app_quit st else st) \<and>
   live_of MainWin (app_quit st) = [] \<and>
   live_of ControllerWin (app_quit st) = live_of ControllerWin st \<and>
   (quit (app_quit st) \<longleftrightarrow> quit st \<or> live_of ControllerWin st = [])"
  by (simp add: menu_click_cases app_quit_live quit_app_quit)

end
