(* ===== verification/Console.thy ===== *)
theory Console
  imports CF_Prelude
begin

text \<open>
  The console of the main process (\<open>src/public/electron.js\<close>): the flag
  \<open>consoleDisabled\<close>, \<open>safeLog\<close> and \<open>safeError\<close>, the handlers of \<open>uncaughtException\<close> and
  \<open>unhandledRejection\<close>, the three overrides of \<open>console.log\<close>, \<open>console.error\<close> and
  \<open>console.warn\<close>, the start-up probe, and the guarded opening of the developer tools in
  \<open>createWindow\<close>. The state holds the flag, what each of the three console methods is
  bound to, and the lines that reached the output streams. Whether a write to a stream
  succeeds is a parameter of every operation that writes: \<open>None\<close> for success, the
  thrown error otherwise; an error has the code \<open>EPIPE\<close> when it is \<open>FsError ''EPIPE''\<close>.
  The lemmas show that after the module is loaded no console call throws, that the
  flag is a latch after which nothing is written, that \<open>safeLog\<close> and \<open>safeError\<close> then
  do what the plain overridden methods do, and that the printed lines are the ones an
  abstract console with one open flag prints.
\<close>

section \<open>State\<close>

datatype console_method = ConsoleLog | ConsoleError | ConsoleWarn

text \<open>What a console method is bound to: the function of the runtime, the override
  of lines 192 to 223, or the empty function of lines 231 to 233.\<close>

datatype console_impl = Native | Guarded | Noop

record console_state =
  consoleDisabled :: bool
  log_impl :: console_impl
  error_impl :: console_impl
  warn_impl :: console_impl
  printed :: "(console_method \<times> string) list"

definition init_console :: console_state where
  "init_console =
     \<lparr>consoleDisabled = False, log_impl = Native, error_impl = Native, warn_impl = Native,
      printed = []\<rparr>"

definition is_epipe :: "js_error \<Rightarrow> bool" where
  "is_epipe e \<longleftrightarrow> e = FsError ''EPIPE''"

definition impl_of :: "console_method \<Rightarrow> console_state \<Rightarrow> console_impl" where
  "impl_of m st =
     (case m of ConsoleLog \<Rightarrow> log_impl st | ConsoleError \<Rightarrow> error_impl st
      | ConsoleWarn \<Rightarrow> warn_impl st)"

section \<open>The console methods\<close>

text \<open>A call returns the new state and the error it throws, if any.\<close>

definition native :: "console_method \<Rightarrow> string \<Rightarrow> js_error option \<Rightarrow> console_state
    \<Rightarrow> console_state \<times> js_error option" where
  "native m msg r st =
     (case r of
        None \<Rightarrow> (st\<lparr>printed := printed st @ [(m, msg)]\<rparr>, None)
      | Some e \<Rightarrow> (st, Some e))"

text \<open>The overrides: nothing when the flag is set; an \<open>EPIPE\<close> error of the original
  method sets the flag, any other error is dropped.\<close>

definition guarded :: "console_method \<Rightarrow> string \<Rightarrow> js_error option \<Rightarrow> console_state
    \<Rightarrow> console_state \<times> js_error option" where
  "guarded m msg r st =
     (if consoleDisabled st then (st, None)
      else (case native m msg r st of
              (st1, None) \<Rightarrow> (st1, None)
            | (st1, Some e) \<Rightarrow>
                (if is_epipe e then st1\<lparr>consoleDisabled := True\<rparr> else st1, None)))"

definition console_call :: "console_method \<Rightarrow> string \<Rightarrow> js_error option \<Rightarrow> console_state
    \<Rightarrow> console_state \<times> js_error option" where
  "console_call m msg r st =
     (case impl_of m st of
        Native \<Rightarrow> native m msg r st
      | Guarded \<Rightarrow> guarded m msg r st
      | Noop \<Rightarrow> (st, None))"

section \<open>\<open>safeLog\<close> and \<open>safeError\<close>\<close>

text \<open>\<open>safeLog\<close>: \<open>r1\<close> is the outcome of the write of the message, \<open>r2\<close> that of the
  write of the second attempt.\<close>

definition safeLog :: "string \<Rightarrow> js_error option \<Rightarrow> js_error option \<Rightarrow> console_state
    \<Rightarrow> console_state" where
  "safeLog msg r1 r2 st =
     (if consoleDisabled st then st
      else (case console_call ConsoleLog msg r1 st of
              (st1, None) \<Rightarrow> st1
            | (st1, Some e) \<Rightarrow>
                if is_epipe e then st1\<lparr>consoleDisabled := True\<rparr>
                else (case console_call ConsoleError ''Console error:'' r2 st1 of
                        (st2, None) \<Rightarrow> st2
                      | (st2, Some e2) \<Rightarrow> st2\<lparr>consoleDisabled := True\<rparr>)))"

definition safeError :: "string \<Rightarrow> js_error option \<Rightarrow> console_state \<Rightarrow> console_state" where
  "safeError msg r st =
     (if consoleDisabled st then st
      else (case console_call ConsoleError msg r st of
              (st1, None) \<Rightarrow> st1
            | (st1, Some e) \<Rightarrow> if is_epipe e then st1\<lparr>consoleDisabled := True\<rparr> else st1))"

section \<open>Process-level handlers\<close>

text \<open>The common body of the two handlers once the error is known not to be an
  \<open>EPIPE\<close>: one guarded \<open>console.error\<close>, whose failure of any kind sets the flag.\<close>

definition report :: "string \<Rightarrow> js_error option \<Rightarrow> console_state \<Rightarrow> console_state" where
  "report msg r st =
     (if \<not> consoleDisabled st then
        (case console_call ConsoleError msg r st of
           (st1, None) \<Rightarrow> st1
         | (st1, Some e) \<Rightarrow> st1\<lparr>consoleDisabled := True\<rparr>)
      else st)"

definition uncaughtException :: "js_error \<Rightarrow> js_error option \<Rightarrow> console_state \<Rightarrow> console_state" where
  "uncaughtException error r st =
     (if is_epipe error then st\<lparr>consoleDisabled := True\<rparr>
      else report ''Uncaught Exception:'' r st)"

text \<open>The reason of a rejection may be missing (\<open>reason && ...\<close>).\<close>

definition unhandledRejection :: "js_error option \<Rightarrow> js_error option \<Rightarrow> console_state
    \<Rightarrow> console_state" where
  "unhandledRejection reason r st =
     (if (case reason of None \<Rightarrow> False | Some e \<Rightarrow> is_epipe e) then st\<lparr>consoleDisabled := True\<rparr>
      else report ''Unhandled Rejection at:'' r st)"

section \<open>Loading the module\<close>

definition install_overrides :: "console_state \<Rightarrow> console_state" where
  "install_overrides st = st\<lparr>log_impl := Guarded, error_impl := Guarded, warn_impl := Guarded\<rparr>"

text \<open>The start-up probe: one \<open>console.log\<close>; an \<open>EPIPE\<close> it throws sets the flag and binds
  the three methods to the empty function.\<close>

definition startup_probe :: "js_error option \<Rightarrow> console_state \<Rightarrow> console_state" where
  "startup_probe r st =
     (case console_call ConsoleLog ''ClipForge starting...'' r st of
        (st1, None) \<Rightarrow> st1
      | (st1, Some e) \<Rightarrow>
          if is_epipe e then
            st1\<lparr>consoleDisabled := True, log_impl := Noop, error_impl := Noop, warn_impl := Noop\<rparr>
          else st1)"

text \<open>The statements of the module that touch the console, in their order.\<close>

definition module_load :: "js_error option \<Rightarrow> console_state" where
  "module_load r = startup_probe r (install_overrides init_console)"

section \<open>The developer tools\<close>

text \<open>\<open>createWindow\<close> opens the developer tools in development unless the flag is
  set; \<open>r\<close> is what \<open>openDevTools\<close> throws. The result says whether the tools opened.\<close>

definition open_devtools :: "bool \<Rightarrow> js_error option \<Rightarrow> console_state \<Rightarrow> console_state \<times> bool" where
  "open_devtools isDev r st =
     (if isDev \<and> \<not> consoleDisabled st then
        (case r of
           None \<Rightarrow> (st, True)
         | Some e \<Rightarrow> (if is_epipe e then st\<lparr>consoleDisabled := True\<rparr> else st, False))
      else (st, False))"

section \<open>Events\<close>

datatype console_event =
    SafeLog string "js_error option" "js_error option"
  | SafeError string "js_error option"
  | ConsoleCall console_method string "js_error option"
  | Uncaught js_error "js_error option"
  | Rejection "js_error option" "js_error option"
  | DevTools bool "js_error option"

text \<open>An event changes the state and may throw (only a direct call of a console method
  can).\<close>

fun console_fire :: "console_event \<Rightarrow> console_state \<Rightarrow> console_state \<times> js_error option" where
  "console_fire (SafeLog msg r1 r2) st = (safeLog msg r1 r2 st, None)"
| "console_fire (SafeError msg r) st = (safeError msg r st, None)"
| "console_fire (ConsoleCall m msg r) st = console_call m msg r st"
| "console_fire (Uncaught e r) st = (uncaughtException e r st, None)"
| "console_fire (Rejection e r) st = (unhandledRejection e r st, None)"
| "console_fire (DevTools isDev r) st = (fst (open_devtools isDev r st), None)"

text \<open>A run of events; an error that a console call throws is what the process-level
  handler then receives, with \<open>None\<close> as the outcome of its own write.\<close>

primrec console_run :: "console_event list \<Rightarrow> console_state \<Rightarrow> console_state" where
  "console_run [] st = st"
| "console_run (e # es) st =
     (case console_fire e st of
        (st1, None) \<Rightarrow> console_run es st1
      | (st1, Some err) \<Rightarrow> console_run es (uncaughtException err None st1))"

inductive console_reachable :: "console_state \<Rightarrow> bool" where
  console_loaded: "console_reachable (module_load r)"
| console_next: "console_reachable st \<Longrightarrow> console_reachable (console_run [e] st)"

section \<open>Specification\<close>

text \<open>The three methods are the overrides.\<close>

definition overridden :: "console_state \<Rightarrow> bool" where
  "overridden st \<longleftrightarrow> log_impl st = Guarded \<and> error_impl st = Guarded \<and> warn_impl st = Guarded"

text \<open>
  The abstract console: one flag and the printed lines. An event either tries to write
  one line, or closes the console, or does nothing.
\<close>

datatype action = Write console_method string "js_error option" | Close | Nothing

fun action_of :: "console_event \<Rightarrow> action" where
  "action_of (SafeLog msg r1 r2) = Write ConsoleLog msg r1"
| "action_of (SafeError msg r) = Write ConsoleError msg r"
| "action_of (ConsoleCall m msg r) = Write m msg r"
| "action_of (Uncaught e r) = (if is_epipe e then Close else Write ConsoleError ''Uncaught Exception:'' r)"
| "action_of (Rejection e r) =
     (if (case e of None \<Rightarrow> False | Some x \<Rightarrow> is_epipe x) then Close
      else Write ConsoleError ''Unhandled Rejection at:'' r)"
| "action_of (DevTools isDev r) =
     (if isDev \<and> (case r of None \<Rightarrow> False | Some x \<Rightarrow> is_epipe x) then Close else Nothing)"

type_synonym abs_console = "bool \<times> (console_method \<times> string) list"

fun spec_step :: "action \<Rightarrow> abs_console \<Rightarrow> abs_console" where
  "spec_step (Write m msg None) (opn, out) = (opn, if opn then out @ [(m, msg)] else out)"
| "spec_step (Write m msg (Some e)) (opn, out) = (opn \<and> \<not> is_epipe e, out)"
| "spec_step Close (opn, out) = (False, out)"
| "spec_step Nothing s = s"

definition abs_of :: "console_state \<Rightarrow> abs_console" where
  "abs_of st = (\<not> consoleDisabled st, printed st)"

lemmas console_defs =
  init_console_def is_epipe_def impl_of_def native_def guarded_def console_call_def safeLog_def
  safeError_def report_def uncaughtException_def unhandledRejection_def install_overrides_def
  startup_probe_def module_load_def open_devtools_def

section \<open>Lemmas: the overrides\<close>

lemma overridden_install [simp]: "overridden (install_overrides st)"
  by (simp add: overridden_def install_overrides_def)

lemma impl_of_overridden [simp]: "overridden st \<Longrightarrow> impl_of m st = Guarded"
  by (cases m) (simp_all add: overridden_def impl_of_def)

lemma console_call_overridden [simp]:
  "overridden st \<Longrightarrow> console_call m msg r st = guarded m msg r st"
  by (simp add: console_call_def)

lemma guarded_no_throw [simp]: "snd (guarded m msg r st) = None"
  by (cases r) (simp_all add: guarded_def native_def)

lemma guarded_cases:
  "guarded m msg r st =
     (if consoleDisabled st then st
      else case r of None \<Rightarrow> st\<lparr>printed := printed st @ [(m, msg)]\<rparr>
           | Some e \<Rightarrow> if is_epipe e then st\<lparr>consoleDisabled := True\<rparr> else st, None)"
  by (cases r) (simp_all add: guarded_def native_def)

lemma overridden_update [simp]:
  "overridden (st\<lparr>consoleDisabled := b\<rparr>) = overridden st"
  "overridden (st\<lparr>printed := p\<rparr>) = overridden st"
  by (simp_all add: overridden_def)

lemma overridden_guarded [simp, cf_inv]: "overridden st \<Longrightarrow> overridden (fst (guarded m msg r st))"
  by (cases r) (simp_all add: guarded_cases)

section \<open>Lemmas: every operation on the overridden console\<close>

lemma safeLog_overridden:
  "overridden st \<Longrightarrow> safeLog msg r1 r2 st = fst (guarded ConsoleLog msg r1 st)"
  by (cases r1) (simp_all add: safeLog_def guarded_cases)

lemma safeError_overridden:
  "overridden st \<Longrightarrow> safeError msg r st = fst (guarded ConsoleError msg r st)"
  by (cases r) (simp_all add: safeError_def guarded_cases)

lemma report_overridden:
  "overridden st \<Longrightarrow> report msg r st = fst (guarded ConsoleError msg r st)"
  by (cases r) (simp_all add: report_def guarded_cases)

lemma startup_probe_overridden:
  "overridden st \<Longrightarrow> startup_probe r st = fst (guarded ConsoleLog ''ClipForge starting...'' r st)"
  by (cases r) (simp_all add: startup_probe_def guarded_cases)

lemma overridden_fire [cf_inv]:
  "overridden st \<Longrightarrow> overridden (fst (console_fire e st))"
  by (cases e)
    (simp_all add: safeLog_overridden safeError_overridden report_overridden uncaughtException_def
      unhandledRejection_def open_devtools_def split: option.splits)

lemma fire_no_throw: "overridden st \<Longrightarrow> snd (console_fire e st) = None"
  by (cases e) simp_all

lemma console_run_step:
  "overridden st \<Longrightarrow> console_run (e # es) st = console_run es (fst (console_fire e st))"
  using fire_no_throw [of st e] by (cases "console_fire e st") simp

lemma overridden_run [cf_inv]: "overridden st \<Longrightarrow> overridden (console_run es st)"
  by (induction es arbitrary: st) (simp_all add: console_run_step overridden_fire del: console_run.simps(2))

lemma module_load_overridden [simp]: "overridden (module_load r)"
  by (simp add: module_load_def startup_probe_overridden)

lemma console_reachable_overridden: "console_reachable st \<Longrightarrow> overridden st"
  by (induction rule: console_reachable.induct) (simp_all add: overridden_run del: console_run.simps)

lemma console_run_reachable: "console_reachable st \<Longrightarrow> console_reachable (console_run es st)"
proof (induction es arbitrary: st)
  case (Cons e es)
  from Cons.prems have "console_reachable (console_run [e] st)" by (rule console_next)
  moreover have "console_run (e # es) st = console_run es (console_run [e] st)"
    by (cases "console_fire e st") (simp split: option.splits)
  ultimately show ?case using Cons.IH by simp
qed simp

section \<open>Lemmas: refinement of the abstract console\<close>

lemma abs_guarded: "abs_of (fst (guarded m msg r st)) = spec_step (Write m msg r) (abs_of st)"
  by (cases r) (auto simp: guarded_cases abs_of_def)

lemma abs_of_disable [simp]: "abs_of (st\<lparr>consoleDisabled := True\<rparr>) = (False, printed st)"
  by (simp add: abs_of_def)

lemma spec_close_abs [simp]: "spec_step Close (abs_of st) = (False, printed st)"
  by (simp add: abs_of_def)

lemma abs_fire:
  "overridden st \<Longrightarrow> abs_of (fst (console_fire e st)) = spec_step (action_of e) (abs_of st)"
proof (cases e)
  case (DevTools isDev r)
  then show ?thesis by (cases r) (auto simp: open_devtools_def abs_of_def)
qed (simp_all add: safeLog_overridden safeError_overridden report_overridden abs_guarded
      uncaughtException_def unhandledRejection_def split: option.splits)

lemma abs_run:
  "overridden st \<Longrightarrow>
   abs_of (console_run es st) = fold (\<lambda>e. spec_step (action_of e)) es (abs_of st)"
  by (induction es arbitrary: st)
    (simp_all add: console_run_step abs_fire overridden_fire del: console_run.simps(2))

lemma spec_closed: "fst (spec_step a (False, out)) = False \<and> snd (spec_step a (False, out)) = out"
  by (cases "(a, (False, out))" rule: spec_step.cases) simp_all

lemma fire_disabled:
  "overridden st \<Longrightarrow> consoleDisabled st \<Longrightarrow> fst (console_fire e st) = st"
  by (cases e)
    (simp_all add: safeLog_def safeError_def report_def uncaughtException_def
      unhandledRejection_def open_devtools_def guarded_def split: option.splits)

lemma abs_module_load:
  "abs_of (module_load r) = spec_step (Write ConsoleLog ''ClipForge starting...'' r) (True, [])"
proof -
  have "abs_of (install_overrides init_console) = (True, [])"
    by (simp add: abs_of_def install_overrides_def init_console_def)
  then show ?thesis by (simp add: module_load_def startup_probe_overridden abs_guarded)
qed

lemma module_load_ok:
  "module_load None =
     \<lparr>consoleDisabled = False, log_impl = Guarded, error_impl = Guarded, warn_impl = Guarded,
      printed = [(ConsoleLog, ''ClipForge starting...'')]\<rparr>"
  by (simp add: console_defs)

lemma module_load_epipe:
  "module_load (Some (FsError ''EPIPE'')) =
     \<lparr>consoleDisabled = True, log_impl = Guarded, error_impl = Guarded, warn_impl = Guarded,
      printed = []\<rparr>"
  by (simp add: console_defs)

section \<open>Properties\<close>

text \<open>
  Property C10 (refinement). From the loading of the module on, the console of the main
  process is the abstract console: the lines that reached the streams and the flag are
  what the one-flag specification gives for the start-up line followed by the actions of
  the events, whatever the streams do.
\<close>

theorem console_refines_spec:
  "abs_of (console_run es (module_load r)) =
     fold (\<lambda>e. spec_step (action_of e)) es
       (spec_step (Write ConsoleLog ''ClipForge starting...'' r) (True, []))"
  by (simp add: abs_run abs_module_load)

text \<open>
  Property C22 (equivalence). Once the module is loaded, \<open>safeLog\<close> and \<open>safeError\<close> do
  exactly what the overridden \<open>console.log\<close> and \<open>console.error\<close> do, and no console
  call throws: the overrides catch every error themselves, so the second attempt of
  \<open>safeLog\<close> is never made.
\<close>

theorem safeLog_is_console_log:
  assumes "console_reachable st"
  shows "safeLog msg r1 r2 st = fst (console_call ConsoleLog msg r1 st) \<and>
         safeError msg r st = fst (console_call ConsoleError msg r st) \<and>
         snd (console_call m msg r st) = None"
  using console_reachable_overridden [OF assms]
  by (simp add: safeLog_overridden safeError_overridden)

theorem safeLog_is_console_log_witness:
  "safeLog ''Loading URL:'' (Some TypeError) None (module_load None) = module_load None \<and>
   printed (module_load None) = [(ConsoleLog, ''ClipForge starting...'')]"
  using safeLog_is_console_log [of "module_load None" "''Loading URL:''" "Some TypeError" None None
      ConsoleLog] console_loaded [of None]
  by (simp add: module_load_ok console_call_def impl_of_def guarded_def native_def is_epipe_def)

text \<open>
  Property C23 (safety). \<open>consoleDisabled\<close> is a latch: once it is set, no event changes
  the state of the console any more; in particular nothing is written and the flag is
  never cleared.
\<close>

theorem console_latch:
  assumes "console_reachable st" and "consoleDisabled st"
  shows "console_run es st = st"
proof -
  from assms(1) have "overridden st" by (rule console_reachable_overridden)
  then show ?thesis using assms(2)
    by (induction es) (simp_all add: console_run_step fire_disabled del: console_run.simps(2))
qed

theorem console_latch_witness:
  "console_run [SafeLog ''Window ready to show'' None None, ConsoleCall ConsoleWarn ''w'' None]
     (module_load (Some (FsError ''EPIPE''))) = module_load (Some (FsError ''EPIPE'')) \<and>
   printed (module_load (Some (FsError ''EPIPE''))) = []"
proof -
  have "consoleDisabled (module_load (Some (FsError ''EPIPE'')))"
    and "printed (module_load (Some (FsError ''EPIPE''))) = []"
    by (simp_all add: module_load_epipe)
  with console_latch [OF console_loaded, of "Some (FsError ''EPIPE'')"] show ?thesis by simp
qed

text \<open>
  The start-up probe never binds the console methods to the
  empty function: it runs after the overrides are installed, which catch the error
  first. Run before them, the same probe would bind all three.
\<close>

theorem startup_probe_never_unbinds:
  "overridden (module_load r) \<and>
   log_impl (startup_probe (Some (FsError ''EPIPE'')) init_console) = Noop \<and>
   consoleDisabled (module_load (Some (FsError ''EPIPE'')))"
  by (simp add: module_load_epipe) (simp add: console_defs)

end
