(* ===== verification/Spec2Isabelle.thy ===== *)
theory Spec2Isabelle
  imports Timeline Playback Export Capture Bridge Windows Files Console
begin

text \<open>
  A verification development for ClipForge, a desktop video editor: an Electron main
  process (\<open>src/public/electron.js\<close>, \<open>src/public/preload.js\<close>) and a React renderer
  (\<open>src/src/App_simple.js\<close>, \<open>src/src/components/ScreenRecorder.js\<close>,
  \<open>src/src/utils/electronAPI.js\<close>).

  \<^bold>\<open>The program.\<close> The renderer keeps a media library and a one-track timeline in the
  state of the \<open>App\<close> component. A file dropped on the library panel is probed and
  becomes a media item; "Add to Timeline" appends a clip behind the clips that are
  there; deleting an item removes its clips; a play button starts a clock that is
  driven by animation frames and moves the play-head. The screen recorder component
  captures a desktop source into chunks and hands the joined recording to its parent.
  The main process answers requests of the renderer; the ones that do work of their own
  are \<open>trim-video\<close> and \<open>export-timeline\<close>, which start a command of the media engine
  and forward its progress.

  \<^bold>\<open>The theories.\<close>
  \<^item> \<open>CF_Prelude\<close>: what the components share. The JavaScript operators the sources
    use, as functions: \<open>||\<close> on numbers and on possibly missing values (\<open>or_num\<close>,
    \<open>or_undef\<close>, \<open>or_str\<close>), the decimal text of an integer in a template literal
    (\<open>toString\<close>, with its inverse \<open>parse_int\<close>), \<open>String.replace\<close> with a global
    one-character pattern (\<open>replace_all\<close>), \<open>Array.join\<close> and its inverse (\<open>join\<close>,
    \<open>split_on\<close>), \<open>Array.map\<close> with a callback that may throw (\<open>map_throw\<close>), the
    exceptions (\<open>js_error\<close>); runs of an event system (\<open>run_opt\<close>, \<open>guard\<close>) with the
    rule that an invariant of the events holds after every run, which every component
    uses for its own runs; lemmas on maxima by \<open>fold\<close>, on \<open>sorted_wrt\<close> and on
    \<open>distinct\<close>.
  \<^item> \<open>Timeline\<close>: the state and the handlers of \<open>App\<close> and \<open>AssetLibraryPanel\<close> and
    the geometry of \<open>SimpleTimeline\<close> in \<open>App_simple.js\<close>. The records \<open>media_item\<close>,
    \<open>clip\<close> and \<open>app_state\<close> have the fields of the object literals and of the
    \<open>useState\<close> calls; each handler (\<open>handleDrop\<close>, \<open>handleVideoImport\<close>,
    \<open>handleAddToTimeline\<close>, \<open>handleVideoImported\<close>, \<open>handleMediaDelete\<close>,
    \<open>handleMediaReorder\<close>, \<open>handleTimelinePlayPause\<close>, \<open>handleTimelineSeek\<close>,
    \<open>handleVideoTimeUpdate\<close>, \<open>handleTimelineClick\<close>) is one definition of the same
    name. \<open>handleAddToTimeline\<close> takes the clip list its closure captured as a
    parameter; \<open>addToTimeline\<close> is the call with the current list. The lemmas show the
    invariant \<open>app_inv\<close> (clips well formed, ordered and disjoint, every clip's item in
    the library) for every handler and every sequence of edits, the placement of a new
    clip at the end of the last one, the refinement of an abstract list of intervals
    (\<open>interval\<close>, \<open>spec_append\<close>), that reordering permutes the library, and when
    generated identifiers are distinct.
  \<^item> \<open>Playback\<close>: the clock, the \<open>useEffect\<close> at lines 327--353 of \<open>App_simple.js\<close>,
    and what \<open>VideoPreviewPanel\<close> passes to the preview. \<open>player_state\<close> extends
    \<open>app_state\<close> by the browser's queue of frame requests and by the dependency value
    the effect last ran for; \<open>tick\<close> is the frame callback, \<open>commit\<close> is what React
    does after a render (clean-up of the old effect, body of the new one, when
    \<open>isVideoPlaying\<close> changed). The events of the application are the relation \<open>step\<close>,
    with \<open>fire\<close> as its executable form. The lemmas show the invariant \<open>clock_inv\<close>
    over the reachable states, that frames advance the play-head by the wall-clock
    time, that a paused play-head moves only by seeking, and that the play-head is not
    stopped at the end of the timeline.
  \<^item> \<open>Export\<close>: the handlers \<open>export-timeline\<close> and \<open>trim-video\<close> of
    \<open>electron.js\<close>, over a file system that is a map from paths to contents. The
    lemmas show the manifest's round trip, the rejection of a clip without a path
    before anything is written, the removal of the manifest on both exits, the
    forwarding of progress values, and that promises are settled at most once; two
    theorems exhibit runs the handlers allow and should not (a shared manifest, a
    path with a quote).
  \<^item> \<open>Capture\<close>: the component \<open>ScreenRecorder\<close> and the handlers
    \<open>get-screen-sources\<close> and \<open>start-screen-recording\<close>, with the streams, recorders,
    timers and object URLs of the browser as part of the state. The lemmas show the
    invariant \<open>rec_inv\<close> over the reachable states, that a session delivers the
    chunks in order and releases what it took, and two runs that leave a live stream
    behind.
  \<^item> \<open>Bridge\<close>: \<open>isElectron\<close> and the wrappers of \<open>electronAPI.js\<close> (\<open>wrapper\<close>, a
    function of the wrapper's name \<open>api_fn\<close> and of what the page finds on \<open>window\<close>),
    the two objects \<open>preload.js\<close> exposes (\<open>ffmpeg_object\<close>, \<open>electronAPI_object\<close>:
    member name and what the member does), the channels \<open>electron.js\<close> handles and
    sends on, and the listener table of the renderer. \<open>route\<close> follows one call through
    the three files. The lemmas show that inside the application every wrapper ends at
    a handled channel, that outside every wrapper rejects or does nothing, and that the
    three files agree on the channels.
  \<^item> \<open>Windows\<close>: \<open>createWindow\<close>, \<open>createControllerWindow\<close>, the handlers of the
    window and application events, the four controller channels, the menu template and
    \<open>app.quit()\<close>. The state \<open>win_state\<close> holds the two variables and the list of
    windows ever created; \<open>win_effect\<close> dispatches the events. The lemmas show the
    invariant \<open>win_inv\<close>, that \<open>close-controller\<close> loses the window without destroying
    it, and that the application can be ended exactly when no controller window
    exists.
  \<^item> \<open>Files\<close>: the handlers \<open>open-file-dialog\<close>, \<open>get-video-info\<close>,
    \<open>extract-thumbnail\<close>, \<open>get-metadata\<close>, \<open>save-project\<close> and \<open>load-project\<close>, over the
    file system of \<open>Export\<close>. The lemmas show how picked files are classified, that
    \<open>get-video-info\<close> never finds a file, the round trip of a project through save and
    load, and what a failed load returns.
  \<^item> \<open>Console\<close>: \<open>consoleDisabled\<close>, \<open>safeLog\<close>, \<open>safeError\<close>, the process-level
    handlers, the overrides of the three console methods and the start-up probe. The
    lemmas show that the console refines an abstract console with one flag, that the
    flag is a latch, and that \<open>safeLog\<close> is equivalent to the overridden \<open>console.log\<close>.
  \<^item> This theory: the clips of the timeline as the export handler receives them
    (\<open>to_ipc_clip\<close>, \<open>export_request\<close>), the start-up of the main process
    (\<open>createWindow_main\<close>, \<open>ready_to_show_main\<close>, \<open>startup\<close>: the window handlers of
    \<open>Windows\<close> together with the lines they log through \<open>Console\<close>), the wrapper that
    listens to a job's progress (\<open>progress_listener_of\<close>), the mount effect of the
    recorder through the bridge (\<open>load_sources\<close>), and the properties that span
    components.

  \<^bold>\<open>Conventions of the model.\<close> A JavaScript number is a \<open>real\<close>: the arithmetic of the
  handlers is exact in the model, and the infinities are left out except in \<open>js_num\<close>,
  the value of an evaluated frame rate. A number that may be \<open>undefined\<close> or \<open>NaN\<close> is a
  \<open>real option\<close> with \<open>None\<close> for both, since the sources only test such values with
  \<open>||\<close>. \<open>Date.now()\<close> and \<open>performance.now()\<close> are parameters of the handlers
  (\<open>millis\<close>, an \<open>int\<close>); nothing is assumed about them except where a theorem says so.
  A missing property of an object is \<open>None\<close>. An exception is a value of a sum type
  (\<open>reorder_error\<close>, \<open>js_error\<close>) and a rejected promise is \<open>Rejected\<close>. Object identity
  (frame requests, engine commands, recorders, streams, timers, object URLs, windows)
  is a natural number handed out by a counter of the state or an index into a list of
  the state. Byte data is a list of \<open>8 word\<close>. What the outside world answers (the
  result of a dialog, whether a write to a file or to an output stream succeeds, what
  the probe reports) is a parameter of the handler that asks. Nothing in the model
  needs fuel: every function is total by primitive or structural recursion (the
  decimal text of a number by recursion on \<open>n div 10\<close>), and runs of events are finite
  lists. The witnesses evaluate the definitions by \<open>simp\<close>.

  \<^bold>\<open>Environment assumptions.\<close> \<open>step_edit\<close> in \<open>Playback\<close> takes the imported item
  from the environment and asks that its duration is not negative (\<open>edit_ok\<close>), as the
  duration of a video element is; \<open>offered\<close> restricts "Add", "Delete" and "Reorder"
  to what the rendered library offers. The following are written from the documented
  behaviour of the platform and not from the sources: in \<open>Export\<close> the reader of the
  manifest (\<open>parse_manifest\<close>); in \<open>Capture\<close> the protocol of a recorder (\<open>rec_phase\<close>:
  data while recording, one more chunk after \<open>stop()\<close>, then the \<open>stop\<close> event); in
  \<open>Bridge\<close> the listener table of \<open>ipcRenderer\<close> (\<open>ipc_on\<close>, \<open>removeAllListeners\<close>,
  \<open>deliver\<close>); in \<open>Windows\<close> the window protocol of Electron (a \<open>close\<close> handler may
  prevent the close, \<open>closed\<close> follows destruction, \<open>window-all-closed\<close> follows the
  destruction of the last window, \<open>app.quit()\<close> asks every window to close and ends the
  application when none is left) and the conditions under which its events occur
  (\<open>win_enabled\<close>); in \<open>Files\<close> the path functions of Node for paths with \<open>/\<close> as the
  separator; in \<open>Console\<close> that an error a console call throws outside a \<open>try\<close> reaches
  the \<open>uncaughtException\<close> handler.

  \<^bold>\<open>Not modelled.\<close> The component \<open>VideoPreview\<close> and the page of the controller
  window, which are not among the sources; the media engine and the decoding of
  media; \<open>JSON.stringify\<close> and \<open>JSON.parse\<close>, which are parameters of the project
  handlers; \<open>eval\<close> on a frame-rate text that is not digits or digits, a slash and
  digits; the role items of the menu (undo, reload, zoom and the like), whose effect
  is Electron's; the options of the windows and dialogs that do not influence a
  handler (sizes, icons, filters, titles); rendering (JSX, styles) apart from the
  geometry of the timeline, the labels and the controls that depend on state.
\<close>

section \<open>The timeline as an export request\<close>

text \<open>
  What \<open>export-timeline\<close> reads of a timeline clip: \<open>clip.media.path\<close> and
  \<open>clip.path\<close>. A clip made by \<open>handleAddToTimeline\<close> always has a \<open>media\<close> and never a
  \<open>path\<close> of its own.
\<close>

definition to_ipc_clip :: "clip \<Rightarrow> ipc_clip" where
  "to_ipc_clip c = \<lparr>ic_media = Some \<lparr>im_path = media_path (media c)\<rparr>, ic_path = None\<rparr>"

definition export_request :: "clip list \<Rightarrow> path \<Rightarrow> string option \<Rightarrow> export_args" where
  "export_request cs out res = \<lparr>clips = map to_ipc_clip cs, arg_outputPath = out, resolution = res\<rparr>"

section \<open>The main process at start-up\<close>

record main_process =
  mp_console :: console_state
  mp_windows :: win_state

text \<open>\<open>createWindow\<close> with the lines it logs and the developer tools it opens.\<close>

definition createWindow_main ::
  "bool \<Rightarrow> js_error option \<Rightarrow> js_error option \<Rightarrow> js_error option \<Rightarrow> main_process \<Rightarrow> main_process" where
  "createWindow_main isDev r1 r2 r3 mp =
     \<lparr>mp_console = fst (open_devtools isDev r3 (safeLog ''Loading URL:'' r1 r2 (mp_console mp))),
      mp_windows = createWindow (mp_windows mp)\<rparr>"

definition ready_to_show_main :: "js_error option \<Rightarrow> js_error option \<Rightarrow> main_process \<Rightarrow> main_process" where
  "ready_to_show_main r1 r2 mp =
     \<lparr>mp_console = safeLog ''Window ready to show'' r1 r2 (mp_console mp),
      mp_windows = on_ready_to_show (mp_windows mp)\<rparr>"

text \<open>What the output streams and the developer tools do during start-up: the outcome
  of each write and of opening the tools, in the order of the attempts.\<close>

record startup_outcomes =
  probe_write :: "js_error option"
  url_write :: "js_error option"
  url_retry :: "js_error option"
  devtools :: "js_error option"
  show_write :: "js_error option"
  show_retry :: "js_error option"

text \<open>The module is loaded, the application becomes ready, the window reports that
  it can be shown.\<close>

definition startup :: "bool \<Rightarrow> bool \<Rightarrow> startup_outcomes \<Rightarrow> main_process" where
  "startup mac isDev rs =
     ready_to_show_main (show_write rs) (show_retry rs)
       (createWindow_main isDev (url_write rs) (url_retry rs) (devtools rs)
          \<lparr>mp_console = module_load (probe_write rs), mp_windows = init_wins mac\<rparr>)"

section \<open>Progress from the engine to the page\<close>

text \<open>The wrapper through which the page subscribes to the progress of a kind of job.\<close>

definition progress_listener_of :: "job_kind \<Rightarrow> api_fn" where
  "progress_listener_of k = (case k of ExportJob \<Rightarrow> OnExportProgress | TrimJob \<Rightarrow> OnTrimProgress)"

section \<open>Loading the screen sources\<close>

text \<open>
  The mount effect of the recorder: \<open>loadScreenSources\<close> asks \<open>isElectron\<close>, then awaits
  the wrapper \<open>getScreenSources\<close>; a rejection of the wrapper is not caught. The
  result says whether a rejection was left unhandled.
\<close>

definition load_sources ::
  "window_env \<Rightarrow> desktop_source list option \<Rightarrow> recorder_state \<Rightarrow> recorder_state \<times> bool" where
  "load_sources w r st =
     (if isElectron w then
        (case route GetScreenSources w of
           ToHandler c \<Rightarrow> (loadScreenSources True (getScreenSources r) st, False)
         | _ \<Rightarrow> (st, True))
      else (loadScreenSources False [] st, False))"

section \<open>Properties that span components\<close>

lemma handleVideoImport_no_path:
  "handleVideoImport f url probe now = Some m \<Longrightarrow> media_path m = None"
  by (auto simp: handleVideoImport_def split: video_probe.splits)

lemma filePath_to_ipc_clip [simp]: "filePath (to_ipc_clip c) = or_str (media_path (media c)) None"
  by (simp add: filePath_def to_ipc_clip_def)

text \<open>
  Property C17 (error). A media item made by the library panel from a dropped file has
  no \<open>path\<close>, and neither has a clip that shows it; so an export request that holds
  such a clip is rejected with a \<open>TypeError\<close>, and the main process changes nothing
  but its error console.
\<close>

theorem imported_clip_not_exportable:
  assumes "handleVideoImport f url probe now = Some m" and "c \<in> set cs" and "media c = m"
  shows "exportTimeline tmp t w (export_request cs out res) st =
     (st\<lparr>console := console st @ [Error ''Error exporting timeline:'']\<rparr>, Inl TypeError)"
proof -
  from assms(1,3) have "filePath (to_ipc_clip c) = None"
    by (simp add: handleVideoImport_no_path)
  moreover from assms(2) have "to_ipc_clip c \<in> set (clips (export_request cs out res))"
    by (simp add: export_request_def)
  ultimately show ?thesis by (rule exportTimeline_no_path [rotated])
qed

theorem imported_clip_not_exportable_witness:
  "exportTimeline ''/tmp'' 7 Written
     (export_request [newClip [] (demo_media ''a'' 5 1) 2] ''out.mp4'' None) (init_main Map.empty) =
     ((init_main Map.empty)\<lparr>console := [Error ''Error exporting timeline:'']\<rparr>, Inl TypeError)"
  using imported_clip_not_exportable
    [OF handleVideoImport_demo, of "newClip [] (demo_media ''a'' 5 1) 2"
        "[newClip [] (demo_media ''a'' 5 1) 2]" "''a''" 5 1 "''/tmp''" 7 Written "''out.mp4''" None
        "init_main Map.empty"]
  by simp

text \<open>
  Property C11 (invariant). Whatever the user does in the editor (imports, adds,
  deletes, reorders, play and pause, seeks, clicks on the timeline) and however the
  frame callbacks fall between these events, the timeline stays well formed (every
  clip has a positive length and ends where its start and length say, the clips are
  ordered and do not overlap, every clip shows an item of the library) and the clock
  stays consistent with the play state.
\<close>

theorem editor_invariant:
  assumes "reachable st"
  shows "timeline_inv (timelineClips st) \<and> library_inv st \<and> clock_inv st"
  using reachable_app_inv [OF assms] reachable_clock_inv [OF assms] by (simp add: app_inv_def)

theorem editor_invariant_witness:
  "timeline_inv (timelineClips (mount 0 0 0)) \<and> library_inv (mount 0 0 0) \<and> clock_inv (mount 0 0 0)"
  by (rule editor_invariant) (rule reach_mount, simp)

lemma startup_windows:
  "mp_windows (startup mac isDev rs) =
     \<lparr>mainWindow = Some 0, controllerWindow = None,
      wins = [\<lparr>wkind = MainWin, visible = True, destroyed = False\<rparr>],
      darwin = mac, quit = False, commands = []\<rparr>"
  by (simp add: startup_def ready_to_show_main_def createWindow_main_def init_wins_def
      createWindow_def on_ready_to_show_def set_visible_def)


text \<open>
  Property C25 (functional). Progress reaches the page: inside the application the
  wrapper for the progress of a kind of job subscribes the page's callback to the very
  channel on which the main process sends the percentages of such a job, so a
  percentage the engine reports is delivered to that callback, after the callbacks
  subscribed before.
\<close>

theorem progress_reaches_listener:
  assumes "in_app w"
  shows "route (progress_listener_of (kind j)) w = Subscribed (progress_channel (kind j)) \<and>
         sent (on_progress j p True st) = sent st @ [(progress_channel (kind j), p)] \<and>
         deliver (progress_channel (kind j))
           (apply_action (member_action (progress_listener_of (kind j))) cb ls)
           = deliver (progress_channel (kind j)) ls @ [cb]"
  by (cases "kind j")
    (simp_all add: route_in_app [OF assms] progress_listener_of_def progress_channel_def
      route_action_def on_progress_def apply_action_def)

theorem progress_reaches_listener_witness:
  "route OnExportProgress \<lparr>process_type = False, electronAPI_exposed = True, ffmpeg_exposed = True,
      userAgent = None, node_electron = False\<rparr> = Subscribed ''export-progress'' \<and>
   deliver ''export-progress'' (apply_action (ListenOn ''export-progress'') 1 []) = [1]"
  using progress_reaches_listener [of "\<lparr>process_type = False, electronAPI_exposed = True,
      ffmpeg_exposed = True, userAgent = None, node_electron = False\<rparr>"
      "\<lparr>job_id = 0, kind = ExportJob, concatFile = None, outputPath = ''o'', command = []\<rparr>"
      None "init_main Map.empty" 1 "[]"]
  by (simp add: in_app_def progress_listener_of_def progress_channel_def)

text \<open>
  The recorder loads its sources only inside the application:
  there the wrapper reaches the handler and the list is the mapped sources; in a
  plain browser nothing is asked and the list stays empty; and on a page that looks
  like Electron but has no exposed object the wrapper rejects, the rejection is not
  handled, and the list stays as it was.
\<close>

theorem sources_loaded_in_app_only:
  "(in_app w \<longrightarrow> load_sources w (Some ds) st = (st\<lparr>screenSources := map mapSource ds\<rparr>, False)) \<and>
   (in_browser w \<longrightarrow> load_sources w r st = (st, False)) \<and>
   (isElectron w \<and> \<not> electronAPI_exposed w \<longrightarrow> load_sources w r st = (st, True))"
proof -
  have "load_sources w (Some ds) st = (st\<lparr>screenSources := map mapSource ds\<rparr>, False)" if "in_app w"
    using route_in_app [OF that] in_app_isElectron [OF that]
    by (simp add: load_sources_def route_action_def handled_channels_def loadScreenSources_def
        getScreenSources_def)
  moreover have "load_sources w r st = (st, False)" if "in_browser w"
    using that by (simp add: load_sources_def in_browser_def loadScreenSources_def)
  moreover have "load_sources w r st = (st, True)" if "isElectron w" "\<not> electronAPI_exposed w"
    using that by (simp add: load_sources_def route_def wrapper_def exposed_def)
  ultimately show ?thesis by blast
qed

theorem sources_loaded_in_app_only_witness:
  "load_sources \<lparr>process_type = False, electronAPI_exposed = False, ffmpeg_exposed = False,
      userAgent = Some ''Electron/28'', node_electron = False\<rparr> None init_recorder
     = (init_recorder, True)"
  using sources_loaded_in_app_only [of "\<lparr>process_type = False, electronAPI_exposed = False,
      ffmpeg_exposed = False, userAgent = Some ''Electron/28'', node_electron = False\<rparr>"
      "[]" init_recorder None]
  by (simp add: isElectron_def)

end
